(* ===== verification/Prelude.thy ===== *)
theory Prelude
  imports Complex_Main "HOL-Library.AList" "HOL-Library.Word" "HOL-Library.List_Lexorder"
    "HOL-Library.Char_ord" "HOL-Library.Product_Lexorder"
begin

text \<open>
  The Python values every component shares: exceptions as values, insertion-ordered dicts,
  negative list indices and slices, the truncating \<open>int()\<close>, the checksum of
  \<open>zlib\<close>, and the sources of nondeterminism (clocks, random numbers, the battery
  converter) as tapes that are read one value at a time.

  Floats are modelled as rationals: the order of the arithmetic is the source's, its
  rounding is not (but see \<open>Doubles\<close>). Strings are lists of characters, one per code point below 256.
\<close>

named_theorems frame
  \<open>equations saying which fields of a state an operation leaves alone\<close>

named_theorems unfold_op
  \<open>defining equations of the small operations, unfolded by the component proofs\<close>


section \<open>Exceptions\<close>

text \<open>The Python exceptions a modelled operation can raise.\<close>

datatype py_error = IndexError | KeyError | ValueError | TypeError | AttributeError

type_synonym 'a result = "py_error + 'a"

text \<open>A call whose result the next step needs.\<close>

definition bind :: "'a result \<Rightarrow> ('a \<Rightarrow> 'b result) \<Rightarrow> 'b result" where
  "bind r f = (case r of Inl e \<Rightarrow> Inl e | Inr x \<Rightarrow> f x)"

lemma bind_simps [simp]: "bind (Inl e) f = Inl e" "bind (Inr x) f = f x"
  by (simp_all add: bind_def)

lemma bind_Inr_iff: "bind r f = Inr y \<longleftrightarrow> (\<exists>x. r = Inr x \<and> f x = Inr y)"
  by (cases r) auto

text \<open>\<open>p.get(key, default)\<close> on a key that may be absent.\<close>

definition py_get :: "'a option \<Rightarrow> 'a \<Rightarrow> 'a" where
  "py_get v d = (case v of None \<Rightarrow> d | Some x \<Rightarrow> x)"

lemma py_get_simps [simp]: "py_get None d = d" "py_get (Some x) d = x"
  by (simp_all add: py_get_def)


section \<open>Dictionaries\<close>

text \<open>
  A Python dict keeps its keys in insertion order, and storing under a present key leaves
  the key where it is: an association list with distinct keys and \<^const>\<open>AList.update\<close>.
\<close>

type_synonym ('k, 'v) dict = "('k \<times> 'v) list"

abbreviation dget :: "('k, 'v) dict \<Rightarrow> 'k \<Rightarrow> 'v option" where
  "dget d k \<equiv> map_of d k"

definition dget_or :: "('k, 'v) dict \<Rightarrow> 'k \<Rightarrow> 'v \<Rightarrow> 'v" where
  "dget_or d k v = py_get (dget d k) v"

abbreviation dput :: "'k \<Rightarrow> 'v \<Rightarrow> ('k, 'v) dict \<Rightarrow> ('k, 'v) dict" where
  "dput k v d \<equiv> AList.update k v d"

definition keys :: "('k, 'v) dict \<Rightarrow> 'k list" where
  "keys d = map fst d"

definition wf_dict :: "('k, 'v) dict \<Rightarrow> bool" where
  "wf_dict d \<longleftrightarrow> distinct (keys d)"

text \<open>\<open>d[k] = d.get(k, 0) + 1\<close>, the counter idiom of the code.\<close>

definition bump :: "'k \<Rightarrow> ('k, nat) dict \<Rightarrow> ('k, nat) dict" where
  "bump k d = dput k (dget_or d k 0 + 1) d"

lemma dget_or_Nil [simp]: "dget_or [] k v = v"
  by (simp add: dget_or_def)

lemma dget_or_dput [simp]: "dget_or (dput k v d) k' w = (if k' = k then v else dget_or d k' w)"
  by (simp add: dget_or_def update_conv')

lemma keys_Nil [simp]: "keys [] = []"
  by (simp add: keys_def)

lemma set_keys_dput [simp]: "set (keys (dput k v d)) = insert k (set (keys d))"
  by (simp add: keys_def dom_map_of_conv_image_fst [symmetric] update_conv')

lemma wf_dict_Nil [simp]: "wf_dict []"
  by (simp add: wf_dict_def)

lemma wf_dict_single [simp]: "wf_dict [(k, v)]"
  by (simp add: wf_dict_def keys_def)

lemma wf_dict_dput [simp]: "wf_dict d \<Longrightarrow> wf_dict (dput k v d)"
  by (simp add: wf_dict_def keys_def distinct_update)

lemma wf_dict_bump [simp]: "wf_dict d \<Longrightarrow> wf_dict (bump k d)"
  by (simp add: bump_def)

lemma length_wf_dict: "wf_dict d \<Longrightarrow> length d = card (set (keys d))"
  by (metis distinct_card keys_def length_map wf_dict_def)

text \<open>A counter dict sums to one more after every bump.\<close>

lemma sum_list_bump:
  "wf_dict d \<Longrightarrow> sum_list (map snd (bump k d)) = Suc (sum_list (map snd d))"
proof (induction d)
  case Nil
  then show ?case by (simp add: bump_def)
next
  case (Cons p d)
  obtain k' n where p: "p = (k', n)" by (cases p)
  show ?case
  proof (cases "k' = k")
    case True
    then show ?thesis by (simp add: p bump_def dget_or_def)
  next
    case False
    then have "bump k (p # d) = p # bump k d"
      by (simp add: p bump_def dget_or_def)
    moreover have "wf_dict d"
      using Cons.prems by (simp add: wf_dict_def keys_def)
    ultimately show ?thesis
      using Cons.IH by simp
  qed
qed

lemma set_map_snd_dput: "set (map snd (dput k v d)) \<subseteq> insert v (set (map snd d))"
  by (induction d) auto


section \<open>Lists indexed and sliced as Python does\<close>

text \<open>\<open>xs[i]\<close>: a negative index counts from the end, anything else out of range raises.\<close>

definition py_nth :: "'a list \<Rightarrow> int \<Rightarrow> 'a option" where
  "py_nth xs i =
     (if 0 \<le> i \<and> i < int (length xs) then Some (xs ! nat i)
      else if - int (length xs) \<le> i \<and> i < 0 then Some (xs ! nat (int (length xs) + i))
      else None)"

text \<open>The cut point of a slice bound: negative bounds count from the end, then clamp.\<close>

definition py_bound :: "'a list \<Rightarrow> int \<Rightarrow> nat" where
  "py_bound xs i =
     nat (min (int (length xs)) (if i < 0 then max 0 (int (length xs) + i) else i))"

text \<open>\<open>xs[:i]\<close> and \<open>xs[i:]\<close>.\<close>

definition py_upto :: "'a list \<Rightarrow> int \<Rightarrow> 'a list" where
  "py_upto xs i = take (py_bound xs i) xs"

definition py_from :: "'a list \<Rightarrow> int \<Rightarrow> 'a list" where
  "py_from xs i = drop (py_bound xs i) xs"

lemma py_nth_nat [simp]: "i < length xs \<Longrightarrow> py_nth xs (int i) = Some (xs ! i)"
  by (simp add: py_nth_def)

lemma py_bound_nonneg: "0 \<le> i \<Longrightarrow> py_bound xs i = min (length xs) (nat i)"
  by (auto simp: py_bound_def min_def)

lemma py_upto_nonneg: "0 \<le> i \<Longrightarrow> py_upto xs i = take (nat i) xs"
  by (simp add: py_upto_def py_bound_nonneg min_def)

lemma py_from_nonneg: "0 \<le> i \<Longrightarrow> py_from xs i = drop (nat i) xs"
  by (simp add: py_from_def py_bound_nonneg min_def)

lemma py_slices_append: "py_upto xs i @ py_from xs i = xs"
  by (simp add: py_upto_def py_from_def)

text \<open>A set of hashable values that the code iterates: kept in insertion order.\<close>

definition py_add :: "'a \<Rightarrow> 'a list \<Rightarrow> 'a list" where
  "py_add x xs = (if x \<in> set xs then xs else xs @ [x])"

lemma set_py_add [simp]: "set (py_add x xs) = insert x (set xs)"
  by (auto simp: py_add_def)

lemma distinct_py_add [simp]: "distinct xs \<Longrightarrow> distinct (py_add x xs)"
  by (simp add: py_add_def)


section \<open>Numbers\<close>

text \<open>\<open>int(x)\<close> on a float truncates toward zero.\<close>

definition py_int :: "rat \<Rightarrow> int" where
  "py_int x = (if 0 \<le> x then \<lfloor>x\<rfloor> else \<lceil>x\<rceil>)"

lemma py_int_nonneg: "0 \<le> x \<Longrightarrow> 0 \<le> py_int x"
  by (simp add: py_int_def)

lemma py_int_le: "x \<le> of_int n \<Longrightarrow> 0 \<le> n \<Longrightarrow> py_int x \<le> n"
  by (auto simp: py_int_def floor_le_iff ceiling_le_iff)

lemma py_int_mono: "x \<le> y \<Longrightarrow> py_int x \<le> py_int y"
proof (cases "0 \<le> x")
  case True
  assume "x \<le> y"
  then show ?thesis using True by (simp add: py_int_def floor_mono)
next
  case False
  assume le: "x \<le> y"
  show ?thesis
  proof (cases "0 \<le> y")
    case True
    have "\<lceil>x\<rceil> \<le> 0" using False by (simp add: ceiling_le_iff)
    also have "0 \<le> \<lfloor>y\<rfloor>" using True by simp
    finally show ?thesis using False True by (simp add: py_int_def)
  next
    case False': False
    then show ?thesis using False le by (simp add: py_int_def ceiling_mono)
  qed
qed

text \<open>\<open>round(x, n)\<close>: to \<open>n\<close> decimals, ties to even.\<close>

definition py_round :: "rat \<Rightarrow> nat \<Rightarrow> rat" where
  "py_round x n =
     (let y = x * 10 ^ n; f = \<lfloor>y\<rfloor>; d = y - of_int f;
          r = (if d < 1 / 2 \<or> d = 1 / 2 \<and> even f then f else f + 1)
      in of_int r / 10 ^ n)"

text \<open>
  \<open>zlib.crc32\<close>: the reflected CRC-32 with polynomial \<open>0xEDB88320\<close>, bit by bit.
  The code takes the checksum of a node name to spread election timeouts.
\<close>

definition crc32_bit :: "32 word \<Rightarrow> 32 word" where
  "crc32_bit c = (if bit c 0 then xor (drop_bit 1 c) 0xEDB88320 else drop_bit 1 c)"

definition crc32_byte :: "32 word \<Rightarrow> char \<Rightarrow> 32 word" where
  "crc32_byte c x = (crc32_bit ^^ 8) (xor c (of_char x))"

definition crc32 :: "string \<Rightarrow> int" where
  "crc32 xs = uint (xor (foldl crc32_byte 0xFFFFFFFF xs) 0xFFFFFFFF)"


section \<open>The environment: clocks, random numbers, the converter\<close>

text \<open>
  Every call of \<open>time.monotonic()\<close>, \<open>time.time()\<close>, \<open>random.random()\<close> and every
  read of the analogue converter takes the next value of its tape, so two calls in one
  handler can give two values. A theorem that needs a steady clock says so.
\<close>

record world =
  mono_tape :: "nat \<Rightarrow> rat"
  mono_pos :: nat
  wall_tape :: "nat \<Rightarrow> rat"
  wall_pos :: nat
  rand_tape :: "nat \<Rightarrow> rat"
  rand_pos :: nat
  adc_tape :: "nat \<Rightarrow> rat"
  adc_pos :: nat

definition monotonic :: "world \<Rightarrow> rat \<times> world" where
  "monotonic w = (mono_tape w (mono_pos w), w\<lparr>mono_pos := Suc (mono_pos w)\<rparr>)"

definition wall_time :: "world \<Rightarrow> rat \<times> world" where
  "wall_time w = (wall_tape w (wall_pos w), w\<lparr>wall_pos := Suc (wall_pos w)\<rparr>)"

definition py_random :: "world \<Rightarrow> rat \<times> world" where
  "py_random w = (rand_tape w (rand_pos w), w\<lparr>rand_pos := Suc (rand_pos w)\<rparr>)"

definition adc_voltage :: "world \<Rightarrow> rat \<times> world" where
  "adc_voltage w = (adc_tape w (adc_pos w), w\<lparr>adc_pos := Suc (adc_pos w)\<rparr>)"

text \<open>\<open>random.uniform(a, b)\<close> is \<open>a + (b - a) * random()\<close>.\<close>

definition uniform :: "rat \<Rightarrow> rat \<Rightarrow> world \<Rightarrow> rat \<times> world" where
  "uniform a b w = (let (r, w') = py_random w in (a + (b - a) * r, w'))"

text \<open>The monotonic clock never goes back.\<close>

definition steady :: "world \<Rightarrow> bool" where
  "steady w \<longleftrightarrow> (\<forall>i j. i \<le> j \<longrightarrow> mono_tape w i \<le> mono_tape w j)"

text \<open>\<open>random()\<close> returns values in \<open>[0, 1)\<close>.\<close>

definition unit_random :: "world \<Rightarrow> bool" where
  "unit_random w \<longleftrightarrow> (\<forall>i. 0 \<le> rand_tape w i \<and> rand_tape w i < 1)"

lemma world_tapes [simp]:
  "mono_tape (snd (monotonic w)) = mono_tape w"
  "mono_tape (snd (uniform a b w)) = mono_tape w"
  "mono_tape (snd (adc_voltage w)) = mono_tape w"
  "mono_tape (snd (wall_time w)) = mono_tape w"
  by (simp_all add: monotonic_def uniform_def py_random_def adc_voltage_def wall_time_def)

lemma uniform_range:
  assumes "unit_random w" and "a \<le> b"
  shows "a \<le> fst (uniform a b w)" and "fst (uniform a b w) \<le> b"
proof -
  have r: "0 \<le> rand_tape w (rand_pos w)" "rand_tape w (rand_pos w) \<le> 1"
    using assms(1) by (auto simp: unit_random_def intro: less_imp_le)
  then have "(b - a) * rand_tape w (rand_pos w) \<le> (b - a) * 1"
    using assms(2) by (intro mult_left_mono) auto
  then show "a \<le> fst (uniform a b w)" and "fst (uniform a b w) \<le> b"
    using r assms(2) by (auto simp: uniform_def py_random_def)
qed

text \<open>\<open>random.randint(a, b)\<close> and \<open>random.choice(xs)\<close> pick by the next value of the tape.\<close>

definition randint :: "int \<Rightarrow> int \<Rightarrow> world \<Rightarrow> int \<times> world" where
  "randint a b w = (let (r, w) = py_random w in (a + \<lfloor>r * of_int (b - a + 1)\<rfloor>, w))"

definition choice :: "'a list \<Rightarrow> world \<Rightarrow> 'a \<times> world" where
  "choice xs w = (let (r, w) = py_random w in (xs ! nat \<lfloor>r * of_nat (length xs)\<rfloor>, w))"

lemma randint_range:
  assumes "unit_random w" and "a \<le> b"
  shows "a \<le> fst (randint a b w)" and "fst (randint a b w) \<le> b"
proof -
  have r: "0 \<le> rand_tape w (rand_pos w)" "rand_tape w (rand_pos w) < 1"
    using assms(1) by (simp_all add: unit_random_def)
  let ?x = "rand_tape w (rand_pos w) * of_int (b - a + 1)"
  have "?x < 1 * of_int (b - a + 1)"
    using r(2) assms(2) by (intro mult_strict_right_mono) auto
  then have "\<lfloor>?x\<rfloor> < b - a + 1"
    by (simp only: floor_less_iff mult_1)
  moreover have "0 \<le> ?x"
    using r(1) assms(2) by (intro mult_nonneg_nonneg) auto
  ultimately show "a \<le> fst (randint a b w)" and "fst (randint a b w) \<le> b"
    by (simp_all add: randint_def py_random_def)
qed

end
