(* ===== verification/RpiConfig.thy ===== *)
theory RpiConfig
  imports Prelude
begin

text \<open>
  The constants of \<open>rpi/config.py\<close>: times in seconds, energy thresholds in percent; and the
  settings it reads from environment variables.
\<close>

section \<open>Settings from the environment\<close>

record broker_settings =
  broker_host :: string
  broker_port :: int
  cluster_name :: string

record web_settings =
  web_host :: string
  web_port :: int

text \<open>\<open>getenv\<close> and \<open>parse_int\<close> stand for \<open>os.getenv\<close> and \<open>int\<close> on a string.\<close>

definition broker_config ::
    "(string \<Rightarrow> string option) \<Rightarrow> (string \<Rightarrow> int option) \<Rightarrow> broker_settings result" where
  "broker_config getenv parse_int =
     (case parse_int (py_get (getenv ''ECHO_BROKER_PORT'') ''1883'') of
        None \<Rightarrow> Inl ValueError
      | Some port \<Rightarrow> Inr \<lparr>broker_host = py_get (getenv ''ECHO_BROKER_HOST'') ''localhost'',
          broker_port = port, cluster_name = py_get (getenv ''ECHO_CLUSTER_ID'') ''echo-default''\<rparr>)"

definition dashboard_config ::
    "(string \<Rightarrow> string option) \<Rightarrow> (string \<Rightarrow> int option) \<Rightarrow> web_settings result" where
  "dashboard_config getenv parse_int =
     (case parse_int (py_get (getenv ''ECHO_DASHBOARD_PORT'') ''5000'') of
        None \<Rightarrow> Inl ValueError
      | Some port \<Rightarrow> Inr \<lparr>web_host = py_get (getenv ''ECHO_DASHBOARD_HOST'') ''0.0.0.0'',
          web_port = port\<rparr>)"


section \<open>Constants\<close>

definition ELECTION_TIMEOUT_MIN :: rat where "ELECTION_TIMEOUT_MIN = 12 / 10"
definition ELECTION_TIMEOUT_MAX :: rat where "ELECTION_TIMEOUT_MAX = 24 / 10"
definition LIVENESS_PING_INTERVAL :: rat where "LIVENESS_PING_INTERVAL = 1 / 4"

definition PARTITION_TIMEOUT_hw :: rat where "PARTITION_TIMEOUT_hw = 2"

definition T_LOW :: int where "T_LOW = 15"
definition T_RESTORE :: int where "T_RESTORE = 25"

definition DELTA_THRESHOLD :: rat where "DELTA_THRESHOLD = 5 / 100"

definition MAX_COORDINATORS :: nat where "MAX_COORDINATORS = 7"
definition SAMPLE_INTERVAL_hw :: rat where "SAMPLE_INTERVAL_hw = 1 / 10"

definition RAFT_HEARTBEAT_INTERVAL :: rat where "RAFT_HEARTBEAT_INTERVAL = 1 / 4"

definition BATCH_WINDOW_S :: rat where "BATCH_WINDOW_S = 5 / 100"
definition MAX_BATCH_SIZE :: nat where "MAX_BATCH_SIZE = 10"

definition ECHOD_PING_MAX_INTERVAL :: rat where "ECHOD_PING_MAX_INTERVAL = 1"
definition LIVENESS_BACKOFF_FACTOR :: rat where "LIVENESS_BACKOFF_FACTOR = 2"
definition LEAF_KEEPALIVE_INTERVAL :: rat where "LEAF_KEEPALIVE_INTERVAL = 5"

definition ECHOD_ELECTION_TIMEOUT_MIN :: rat where "ECHOD_ELECTION_TIMEOUT_MIN = 24 / 10"
definition ECHOD_ELECTION_TIMEOUT_MAX :: rat where "ECHOD_ELECTION_TIMEOUT_MAX = 48 / 10"
definition ELECTION_TIE_BREAK_S :: rat where "ELECTION_TIE_BREAK_S = 15 / 100"

definition T_HANDOFF :: int where "T_HANDOFF = 20"

definition MOCK_BATTERY_DRAIN_RATE :: rat where "MOCK_BATTERY_DRAIN_RATE = 2 / 100"

lemmas timing_defs =
  ELECTION_TIMEOUT_MIN_def ELECTION_TIMEOUT_MAX_def LIVENESS_PING_INTERVAL_def
  RAFT_HEARTBEAT_INTERVAL_def BATCH_WINDOW_S_def ECHOD_PING_MAX_INTERVAL_def
  LIVENESS_BACKOFF_FACTOR_def LEAF_KEEPALIVE_INTERVAL_def ECHOD_ELECTION_TIMEOUT_MIN_def
  ECHOD_ELECTION_TIMEOUT_MAX_def ELECTION_TIE_BREAK_S_def

lemmas threshold_defs = T_LOW_def T_RESTORE_def T_HANDOFF_def DELTA_THRESHOLD_def

end
