(* ===== verification/Wire.thy ===== *)
theory Wire
  imports RpiConfig Json
begin

text \<open>
  What travels between the nodes of \<open>rpi/\<close>: JSON values, log entries, and the payload of
  each message type. A payload is a constructor with the keys of the dict the code builds;
  a key the receiver reads with \<open>.get\<close> is an option.
\<close>

section \<open>Log entries\<close>

record log_entry =
  le_index :: int
  le_term :: int
  le_command :: json
  le_trigger_type :: string
  le_partition_epoch :: int
  le_timestamp :: rat

text \<open>\<open>LogEntry.to_dict\<close> and \<open>LogEntry.from_dict\<close>.\<close>

definition to_dict :: "log_entry \<Rightarrow> json" where
  "to_dict e = JObj
     [(''index'', JInt (le_index e)),
      (''term'', JInt (le_term e)),
      (''command'', le_command e),
      (''trigger_type'', JStr (le_trigger_type e)),
      (''partition_epoch'', JInt (le_partition_epoch e)),
      (''timestamp'', JFloat (le_timestamp e))]"

text \<open>
  The keyword call \<open>cls(**...)\<close> raises \<open>TypeError\<close> when a field without a default is
  missing. Python checks no field's type; here a value of the wrong JSON type is the same
  error, the one its first use would raise.
\<close>

fun json_int :: "json \<Rightarrow> int result" where
  "json_int (JInt i) = Inr i"
| "json_int _ = Inl TypeError"

fun json_str :: "json \<Rightarrow> string result" where
  "json_str (JStr t) = Inr t"
| "json_str _ = Inl TypeError"

fun json_num :: "json \<Rightarrow> rat result" where
  "json_num (JInt i) = Inr (of_int i)"
| "json_num (JFloat x) = Inr x"
| "json_num _ = Inl TypeError"

definition required :: "(json \<Rightarrow> 'a result) \<Rightarrow> (string, json) dict \<Rightarrow> string \<Rightarrow> 'a result" where
  "required get d k = (case dget d k of None \<Rightarrow> Inl TypeError | Some v \<Rightarrow> get v)"

definition optional ::
    "(json \<Rightarrow> 'a result) \<Rightarrow> (string, json) dict \<Rightarrow> string \<Rightarrow> 'a \<Rightarrow> 'a result" where
  "optional get d k dflt = (case dget d k of None \<Rightarrow> Inr dflt | Some v \<Rightarrow> get v)"

text \<open>\<open>now\<close> is the value the timestamp's default factory \<open>time.time\<close> would return.\<close>

definition from_dict :: "rat \<Rightarrow> json \<Rightarrow> log_entry result" where
  "from_dict now j = (case j of
     JObj d \<Rightarrow>
       bind (required json_int d ''index'') (\<lambda>i.
       bind (required json_int d ''term'') (\<lambda>t.
       bind (required Inr d ''command'') (\<lambda>c.
       bind (optional json_str d ''trigger_type'' ''delta'') (\<lambda>g.
       bind (optional json_int d ''partition_epoch'' 0) (\<lambda>p.
       bind (optional json_num d ''timestamp'' now) (\<lambda>ts.
       Inr \<lparr>le_index = i, le_term = t, le_command = c, le_trigger_type = g,
            le_partition_epoch = p, le_timestamp = ts\<rparr>))))))
   | _ \<Rightarrow> Inl TypeError)"

lemma from_dict_to_dict: "from_dict now (to_dict e) = Inr e"
  by (simp add: from_dict_def to_dict_def required_def optional_def)

lemma from_dict_missing:
  assumes "dget d k = None" and "k \<in> {''index'', ''term'', ''command''}"
  shows "from_dict now (JObj d) = Inl TypeError"
proof -
  have ints: "\<And>k. required json_int d k = Inl TypeError \<or> (\<exists>x. required json_int d k = Inr x)"
  proof -
    fix k
    show "required json_int d k = Inl TypeError \<or> (\<exists>x. required json_int d k = Inr x)"
    proof (cases "dget d k")
      case None
      then show ?thesis by (simp add: required_def)
    next
      case (Some v)
      then show ?thesis by (cases v) (simp_all add: required_def)
    qed
  qed
  show ?thesis
    using assms ints [of "''index''"] ints [of "''term''"]
    by (auto simp: from_dict_def required_def)
qed


section \<open>Payloads\<close>

datatype payload =
    RequestVote (rv_term: int) (rv_candidate_id: string) (rv_last_log_index: int)
      (rv_last_log_term: int) (rv_battery_level: int)
  | VoteResponse (vr_term: int) (vr_vote_granted: bool) (vr_voter_id: string)
      (vr_voter_battery: int)
  | AppendEntries (ae_term: int) (ae_leader_id: "string option") (ae_prev_log_index: int)
      (ae_prev_log_term: int) (ae_entries: "log_entry list option")
      (ae_leader_commit: "int option") (ae_trigger_type: string) (ae_partition_epoch: int)
  | AppendResponse (ar_term: int) (ar_success: bool) (ar_responder_id: string)
      (ar_match_index: int) (ar_responder_battery: "rat option")
  | LivenessPing (lp_term: int) (lp_leader_id: "string option")
  | LeafRegister (lr_leaf_id: string)
  | LeafRegisterResponse (lrr_accepted: bool) (lrr_coordinator_id: string) (lrr_term: int)
  | SensorData (sd_leaf_id: string) (sd_sensor_type: string) (sd_value: rat)
      (sd_sent_at: "rat option")
  | LeadershipHandoff (lh_term: int) (lh_leader_id: "string option")
  | ReconcileBatch (rb_term: int) (rb_sender_node: string) (rb_commands: "json list option")
  | PartitionControl (pc_action: "string option") (pc_groups: "string list list option")
      (pc_blocked_senders: "string list option")
  | DemoControl (dc_action: "string option") (dc_level: "rat option") (dc_rate: "rat option")
      (dc_paused: "bool option")
  | OtherMessage (om_msg_type: string)

text \<open>The \<open>msg_type\<close> string each payload is sent under.\<close>

fun msg_type :: "payload \<Rightarrow> string" where
  "msg_type (RequestVote _ _ _ _ _) = ''request_vote''"
| "msg_type (VoteResponse _ _ _ _) = ''vote_response''"
| "msg_type (AppendEntries _ _ _ _ _ _ _ _) = ''append_entries''"
| "msg_type (AppendResponse _ _ _ _ _) = ''append_response''"
| "msg_type (LivenessPing _ _) = ''liveness_ping''"
| "msg_type (LeafRegister _) = ''leaf_register''"
| "msg_type (LeafRegisterResponse _ _ _) = ''leaf_register_response''"
| "msg_type (SensorData _ _ _ _) = ''sensor_data''"
| "msg_type (LeadershipHandoff _ _) = ''leadership_handoff''"
| "msg_type (ReconcileBatch _ _ _) = ''reconcile_batch''"
| "msg_type (PartitionControl _ _ _) = ''partition_control''"
| "msg_type (DemoControl _ _ _ _) = ''demo_control''"
| "msg_type (OtherMessage t) = t"

end
