(* ===== verification/Battery.thy ===== *)
theory Battery
  imports RpiConfig
begin

text \<open>
  The battery monitor of \<open>rpi/coordinator/battery.py\<close>. In mock mode a read drains the
  level by the time since the last read; in real mode it converts a voltage. The lock only
  makes each operation atomic, which every definition here is.
\<close>

record battery =
  mock :: bool
  level :: rat
  drain_rate :: rat
  drain_paused :: bool
  last_read :: rat
  adc_present :: bool

text \<open>
  \<open>hw\<close> says whether the GPIO libraries import and the converter initialises; when they do
  not, the monitor falls back to mock mode.
\<close>

definition init_battery :: "bool \<Rightarrow> rat \<Rightarrow> rat \<Rightarrow> bool \<Rightarrow> world \<Rightarrow> battery \<times> world" where
  "init_battery mk initial_level rate hw w =
     (let (now, w) = monotonic w
      in (\<lparr>mock = mk \<or> \<not> hw, level = initial_level, drain_rate = rate, drain_paused = False,
           last_read = now, adc_present = (\<not> mk \<and> hw)\<rparr>, w))"

definition read_mock :: "battery \<Rightarrow> world \<Rightarrow> int \<times> battery \<times> world" where
  "read_mock b w =
     (let (now, w) = monotonic w;
          elapsed = now - last_read b;
          b = b\<lparr>last_read := now\<rparr>;
          b = (if drain_paused b then b
               else b\<lparr>level := max 0 (level b - drain_rate b * elapsed)\<rparr>)
      in (py_int (level b), b, w))"

definition voltage_pct :: "rat \<Rightarrow> int" where
  "voltage_pct v = max 0 (min 100 (py_int ((v - 3) / (42 / 10 - 3) * 100)))"

definition read_real :: "battery \<Rightarrow> world \<Rightarrow> int \<times> battery \<times> world" where
  "read_real b w =
     (if \<not> adc_present b then (0, b, w)
      else (let (v, w) = adc_voltage w in (voltage_pct v, b, w)))"

definition read_level :: "battery \<Rightarrow> world \<Rightarrow> int \<times> battery \<times> world" where
  "read_level b w = (if mock b then read_mock b w else read_real b w)"

definition set_mock_level :: "rat \<Rightarrow> battery \<Rightarrow> world \<Rightarrow> battery \<times> world" where
  "set_mock_level lv b w =
     (if \<not> mock b then (b, w)
      else (let (now, w) = monotonic w
            in (b\<lparr>level := max 0 (min 100 lv), last_read := now\<rparr>, w)))"

definition set_mock_drain_rate :: "rat \<Rightarrow> battery \<Rightarrow> world \<Rightarrow> battery \<times> world" where
  "set_mock_drain_rate rate b w =
     (if \<not> mock b then (b, w)
      else (let (now, w) = monotonic w
            in (b\<lparr>drain_rate := max 0 rate, last_read := now\<rparr>, w)))"

definition set_mock_drain_paused :: "bool \<Rightarrow> battery \<Rightarrow> world \<Rightarrow> battery \<times> world" where
  "set_mock_drain_paused paused b w =
     (if \<not> mock b then (b, w)
      else (let (now, w) = monotonic w
            in (b\<lparr>drain_paused := paused, last_read := now\<rparr>, w)))"



section \<open>Readings stay in range\<close>

text \<open>Several readings in a row.\<close>

fun reads :: "('s \<Rightarrow> int \<times> 's) \<Rightarrow> nat \<Rightarrow> 's \<Rightarrow> int list \<times> 's" where
  "reads f 0 s = ([], s)"
| "reads f (Suc n) s = (let (l, s') = f s; (ls, s'') = reads f n s' in (l # ls, s''))"

text \<open>
  What a user of the monitor relies on: a reading is a percentage, and reading keeps the
  sensor readable.
\<close>

locale level_sensor =
  fixes read :: "'s \<Rightarrow> int \<times> 's"
    and sound :: "'s \<Rightarrow> bool"
  assumes read_range: "sound s \<Longrightarrow> fst (read s) \<in> {0..100}"
    and read_sound: "sound s \<Longrightarrow> sound (snd (read s))"
begin

lemma reads_range: "sound s \<Longrightarrow> set (fst (reads read n s)) \<subseteq> {0..100} \<and> sound (snd (reads read n s))"
proof (induction n arbitrary: s)
  case 0
  then show ?case by simp
next
  case (Suc n)
  obtain l s' where l: "read s = (l, s')" by (cases "read s")
  obtain ls s'' where ls: "reads read n s' = (ls, s'')" by (cases "reads read n s'")
  have "l \<in> {0..100}" "sound s'"
    using read_range [OF Suc.prems] read_sound [OF Suc.prems] l by simp_all
  then show ?case using Suc.IH [of s'] l ls by simp
qed

end

text \<open>
  A mock battery is sound between 0 and 100 percent, draining and never read in the
  future; a real one always is.
\<close>

definition battery_sound :: "battery \<Rightarrow> world \<Rightarrow> bool" where
  "battery_sound b w \<longleftrightarrow> steady w \<and>
     (mock b \<longrightarrow> 0 \<le> level b \<and> level b \<le> 100 \<and> 0 \<le> drain_rate b \<and>
        last_read b \<le> mono_tape w (mono_pos w))"

lemma steady_env [simp]: "steady (w\<lparr>mono_pos := n\<rparr>) = steady w" "steady (w\<lparr>adc_pos := n\<rparr>) = steady w"
  by (simp_all add: steady_def)

lemma steadyD: "steady w \<Longrightarrow> i \<le> j \<Longrightarrow> mono_tape w i \<le> mono_tape w j"
  by (simp add: steady_def)

lemma voltage_range: "0 \<le> voltage_pct v" "voltage_pct v \<le> 100"
  by (simp_all add: voltage_pct_def)

lemma drained_range:
  assumes "0 \<le> l" and "l \<le> 100" and "0 \<le> r" and "0 \<le> (t :: rat)"
  shows "max 0 (l - r * t) \<in> {0..100}"
proof -
  have "l - r * t \<le> l" using assms(3,4) by simp
  then show ?thesis using assms(2) by simp
qed

lemma read_mock_sound:
  assumes "battery_sound b w" and "mock b" and "read_mock b w = (l, b', w')"
  shows "l \<in> {0..100}" and "battery_sound b' w'"
proof -
  let ?now = "mono_tape w (mono_pos w)"
  have s: "steady w" "0 \<le> level b" "level b \<le> 100" "0 \<le> drain_rate b" "last_read b \<le> ?now"
    using assms(1,2) by (simp_all add: battery_sound_def)
  have d: "max 0 (level b - drain_rate b * (?now - last_read b)) \<in> {0..100}"
    using s by (intro drained_range) simp_all
  have pct: "py_int x \<in> {0..100}" if "x \<in> {0..100}" for x
    using that py_int_nonneg py_int_le [of x 100] by simp
  have l: "l = py_int (level b')" and lv: "level b' \<in> {0..100}"
    using assms(3) s d by (auto simp: read_mock_def monotonic_def Let_def split: if_splits)
  show "l \<in> {0..100}" unfolding l by (rule pct [OF lv])
  have "last_read b' = ?now" "drain_rate b' = drain_rate b" "w' = w\<lparr>mono_pos := Suc (mono_pos w)\<rparr>"
    using assms(3) by (auto simp: read_mock_def monotonic_def Let_def)
  then show "battery_sound b' w'"
    using s lv steadyD [OF s(1), of "mono_pos w" "Suc (mono_pos w)"]
    by (simp add: battery_sound_def)
qed

lemma read_level_sound:
  assumes "battery_sound b w" and "read_level b w = (l, b', w')"
  shows "l \<in> {0..100}" and "battery_sound b' w'"
proof -
  have "l \<in> {0..100} \<and> battery_sound b' w'"
  proof (cases "mock b")
    case True
    then show ?thesis
      using read_mock_sound [OF assms(1) True] assms(2) by (simp add: read_level_def)
  next
    case False
    then show ?thesis
      using assms voltage_range
      by (auto simp: read_level_def read_real_def adc_voltage_def battery_sound_def Let_def
          split: if_splits)
  qed
  then show "l \<in> {0..100}" and "battery_sound b' w'" by simp_all
qed

abbreviation sound_pair :: "battery \<times> world \<Rightarrow> bool" where
  "sound_pair x \<equiv> battery_sound (fst x) (snd x)"

definition read_pair :: "battery \<times> world \<Rightarrow> int \<times> battery \<times> world" where
  "read_pair x = read_level (fst x) (snd x)"

lemma read_pair_sound:
  assumes "sound_pair x"
  shows "fst (read_pair x) \<in> {0..100}" and "sound_pair (snd (read_pair x))"
  using read_level_sound [OF assms, of "fst (read_pair x)" "fst (snd (read_pair x))"
      "snd (snd (read_pair x))"]
  by (simp_all add: read_pair_def)

interpretation monitor: level_sensor read_pair sound_pair
  by unfold_locales (rule read_pair_sound, assumption)+

lemma set_mock_sound:
  assumes "battery_sound b w"
  shows "sound_pair (set_mock_level lv b w)"
    and "sound_pair (set_mock_drain_rate rate b w)"
    and "sound_pair (set_mock_drain_paused paused b w)"
proof -
  have "mono_tape w (mono_pos w) \<le> mono_tape w (Suc (mono_pos w))"
    using assms by (intro steadyD) (simp_all add: battery_sound_def)
  with assms show "sound_pair (set_mock_level lv b w)"
    and "sound_pair (set_mock_drain_rate rate b w)"
    and "sound_pair (set_mock_drain_paused paused b w)"
    by (simp_all add: set_mock_level_def set_mock_drain_rate_def set_mock_drain_paused_def
        monotonic_def battery_sound_def Let_def)
qed


section \<open>Properties\<close>

text \<open>The operations of the monitor, each under its lock.\<close>

datatype battery_op = Read | SetLevel rat | SetRate rat | SetPaused bool

fun battery_do :: "battery_op \<Rightarrow> battery \<times> world \<Rightarrow> battery \<times> world" where
  "battery_do Read x = snd (read_pair x)"
| "battery_do (SetLevel l) x = set_mock_level l (fst x) (snd x)"
| "battery_do (SetRate r) x = set_mock_drain_rate r (fst x) (snd x)"
| "battery_do (SetPaused p) x = set_mock_drain_paused p (fst x) (snd x)"

lemma battery_do_sound: "sound_pair x \<Longrightarrow> sound_pair (battery_do op x)"
  by (cases op) (simp_all add: read_pair_sound set_mock_sound)

lemma battery_fold_sound: "sound_pair x \<Longrightarrow> sound_pair (fold battery_do ops x)"
  by (induction ops arbitrary: x) (simp_all add: battery_do_sound)

lemma init_battery_sound:
  assumes "steady w" and "0 \<le> initial" and "initial \<le> 100" and "0 \<le> rate"
  shows "sound_pair (init_battery mk initial rate hw w)"
proof -
  have "mono_tape w (mono_pos w) \<le> mono_tape w (Suc (mono_pos w))"
    using assms(1) by (rule steadyD) simp
  then show ?thesis
    using assms by (simp add: init_battery_def monotonic_def battery_sound_def)
qed

text \<open>C40. Whatever sequence of reads and demo commands a monitor serves, started at a level
  between 0 and 100 with a drain rate that is not negative, any number of further reads all
  give percentages.\<close>

theorem battery_readings_in_range:
  assumes "steady w" and "0 \<le> initial" and "initial \<le> 100" and "0 \<le> rate"
  shows "set (fst (reads read_pair n (fold battery_do ops (init_battery mk initial rate hw w))))
    \<subseteq> {0..100}"
  using monitor.reads_range [OF battery_fold_sound [OF init_battery_sound [OF assms]]] by blast

definition second_hand :: world where
  "second_hand = \<lparr>mono_tape = of_nat, mono_pos = 0, wall_tape = of_nat, wall_pos = 0,
     rand_tape = (\<lambda>_. 1 / 2), rand_pos = 0, adc_tape = (\<lambda>_. 4), adc_pos = 0\<rparr>"

lemma steady_second_hand: "steady second_hand"
  by (simp add: steady_def second_hand_def)

theorem battery_readings_in_range_witness:
  "set (fst (reads read_pair 3 (fold battery_do [Read, SetLevel 120, Read, SetRate 70]
      (init_battery True 100 (1 / 2) False second_hand)))) \<subseteq> {0..100}"
  by (rule battery_readings_in_range) (simp_all add: steady_second_hand)

text \<open>Mock draining does not depend on how often it is read: two reads in a row leave the
  level that the second alone would have left.\<close>

theorem drain_is_additive:
  assumes "mock b" and "0 \<le> drain_rate b"
    and "last_read b \<le> mono_tape w (mono_pos w)"
    and "mono_tape w (mono_pos w) \<le> mono_tape w (Suc (mono_pos w))"
  shows "level (fst (battery_do Read (battery_do Read (b, w)))) =
         level (fst (battery_do Read (b, w\<lparr>mono_pos := Suc (mono_pos w)\<rparr>)))"
proof -
  let ?t1 = "mono_tape w (mono_pos w)" and ?t2 = "mono_tape w (Suc (mono_pos w))"
  have "drain_rate b * (?t2 - last_read b) =
      drain_rate b * (?t1 - last_read b) + drain_rate b * (?t2 - ?t1)"
    by (simp add: algebra_simps)
  moreover have "0 \<le> drain_rate b * (?t2 - ?t1)" "0 \<le> drain_rate b * (?t1 - last_read b)"
    using assms(2-4) by simp_all
  ultimately have "max 0 (max 0 (level b - drain_rate b * (?t1 - last_read b)) -
      drain_rate b * (?t2 - ?t1)) = max 0 (level b - drain_rate b * (?t2 - last_read b))"
    by (simp add: max_def)
  then show ?thesis
    using assms(1) by (simp add: read_pair_def read_level_def read_mock_def monotonic_def Let_def)
qed

theorem drain_is_additive_witness:
  "level (fst (battery_do Read (battery_do Read
      (\<lparr>mock = True, level = 50, drain_rate = 30, drain_paused = False, last_read = 0,
         adc_present = False\<rparr>, second_hand\<lparr>mono_pos := 1\<rparr>)))) =
   level (fst (battery_do Read
      (\<lparr>mock = True, level = 50, drain_rate = 30, drain_paused = False, last_read = 0,
         adc_present = False\<rparr>, second_hand\<lparr>mono_pos := 2\<rparr>)))"
  using drain_is_additive [of "\<lparr>mock = True, level = 50, drain_rate = 30, drain_paused = False,
      last_read = 0, adc_present = False\<rparr>" "second_hand\<lparr>mono_pos := 1\<rparr>"]
  by (simp add: second_hand_def numeral_2_eq_2)

text \<open>A monitor started out of range is another matter: its first level is taken as it is.\<close>

theorem initial_level_unclamped:
  "case init_battery True 150 0 False second_hand of (b, w) \<Rightarrow> fst (read_level b w) = 150"
  by code_simp

end
