(* ===== verification/Coordinator.thy ===== *)
theory Coordinator
  imports Wire Battery
begin

text \<open>
  The state of the coordinator process of \<open>rpi/coordinator/echo_node.py\<close> and the small
  operations its handlers share: counted messaging, election deadlines, the log's last
  index and term, stepping down, status.
\<close>

datatype node_state = Follower | Candidate | Leader | Observer | LocalLeader

datatype protocol = Raft | Echo | Echod

definition parse_protocol :: "string \<Rightarrow> protocol option" where
  "parse_protocol p =
     (if p = ''raft'' then Some Raft
      else if p = ''echo'' then Some Echo
      else if p = ''echod'' then Some Echod
      else None)"

text \<open>What \<open>_publish_status\<close> puts on the status topic.\<close>

record status =
  st_protocol :: protocol
  st_state :: node_state
  st_term :: int
  st_battery :: int
  st_log_length :: nat
  st_commit_index :: nat
  st_voted_for :: "string option"
  st_current_leader :: "string option"
  st_partition_epoch :: int
  st_peers :: "string list"
  st_leaves :: "string list"
  st_messages_sent :: nat
  st_messages_received :: nat
  st_sent_by_type :: "(string, nat) dict"
  st_recv_by_type :: "(string, nat) dict"
  st_consensus_rounds :: nat
  st_avg_latency_ms :: rat
  st_leader_changes :: nat

text \<open>
  One record field per attribute of the class. \<open>outbox\<close> holds what was handed to the
  transport, oldest first, under the recipient (\<open>''*''\<close> for a broadcast); \<open>published\<close> is
  the retained status; \<open>demo_enabled\<close> is the environment variable \<open>ECHO_DEMO\<close>.
\<close>

record coordinator =
  protocol :: protocol
  node_id :: string
  peers :: "string list"
  battery :: battery
  tie_break_s :: rat
  state :: node_state
  current_term :: int
  voted_for :: "string option"
  log :: "log_entry list"
  commit_index :: nat
  votes :: "(string, int) dict"
  election_deadline :: rat
  next_index :: "(string, int) dict"
  match_index :: "(string, int) dict"
  last_ping_time :: rat
  leaves :: "string list"
  last_sensor :: "(string, rat) dict"
  current_leader_id :: "string option"
  pending_triggers :: "(json \<times> string) list"
  partition_epoch :: int
  batch_buffer :: "json list"
  batch_deadline :: "rat option"
  ping_interval_s :: rat
  last_consensus_activity :: rat
  last_leaf_keepalive :: rat
  peer_batteries :: "(string, rat) dict"
  handoff_sent :: bool
  total_messages_sent :: nat
  total_messages_received :: nat
  messages_sent_by_type :: "(string, nat) dict"
  messages_recv_by_type :: "(string, nat) dict"
  leader_changes :: nat
  pending_latency :: "(int, rat) dict"
  latencies :: "rat list"
  blocked_senders :: "string set"
  recent_reconciles :: "json list"
  running :: bool
  inbox :: "(string \<times> payload) list option"
  outbox :: "(string \<times> payload) list"
  published :: "status option"
  demo_enabled :: bool
  env :: world


section \<open>Reading the environment\<close>

definition now_s :: "coordinator \<Rightarrow> rat \<times> coordinator" where
  "now_s s = (let (t, w) = monotonic (env s) in (t, s\<lparr>env := w\<rparr>))"

definition battery_level :: "coordinator \<Rightarrow> int \<times> coordinator" where
  "battery_level s =
     (let (l, b, w) = read_level (battery s) (env s) in (l, s\<lparr>battery := b, env := w\<rparr>))"


section \<open>Counted messaging\<close>

definition send :: "string \<Rightarrow> payload \<Rightarrow> coordinator \<Rightarrow> coordinator" where
  "send recipient p s =
     s\<lparr>outbox := outbox s @ [(recipient, p)],
       total_messages_sent := total_messages_sent s + 1,
       messages_sent_by_type := bump (msg_type p) (messages_sent_by_type s)\<rparr>"

definition broadcast :: "payload \<Rightarrow> coordinator \<Rightarrow> coordinator" where
  "broadcast p s =
     s\<lparr>outbox := outbox s @ [(''*'', p)],
       total_messages_sent := total_messages_sent s + 1,
       messages_sent_by_type := bump (msg_type p) (messages_sent_by_type s)\<rparr>"

text \<open>\<open>for peer in self.peers: self._send(peer, ...)\<close>, one payload for all.\<close>

definition send_all :: "string list \<Rightarrow> payload \<Rightarrow> coordinator \<Rightarrow> coordinator" where
  "send_all ps p s = fold (\<lambda>r. send r p) ps s"


section \<open>Election deadlines\<close>

text \<open>
  In echoD the battery is read first; the clock is read last in every mode.
\<close>

definition echod_timeout :: "int \<Rightarrow> rat \<Rightarrow> rat" where
  "echod_timeout lvl tie =
     (let spread = ECHOD_ELECTION_TIMEOUT_MAX - ECHOD_ELECTION_TIMEOUT_MIN
      in ECHOD_ELECTION_TIMEOUT_MIN + (1 - of_int lvl / 100) * spread + tie)"

definition new_election_deadline :: "coordinator \<Rightarrow> rat \<times> coordinator" where
  "new_election_deadline s =
     (if protocol s = Echod
      then (let (lvl, s) = battery_level s;
                (t, s) = now_s s
            in (t + echod_timeout lvl (tie_break_s s), s))
      else (let (timeout, w) = uniform ELECTION_TIMEOUT_MIN ELECTION_TIMEOUT_MAX (env s);
                (t, s) = now_s (s\<lparr>env := w\<rparr>)
            in (t + timeout, s)))"

definition reset_election_timer :: "coordinator \<Rightarrow> coordinator" where
  "reset_election_timer s =
     (let (d, s) = new_election_deadline s in s\<lparr>election_deadline := d\<rparr>)"

text \<open>\<open>zlib.crc32(node_id.encode()) % int(ELECTION_TIE_BREAK_S * 1000) / 1000.0\<close>\<close>

definition tie_break :: "string \<Rightarrow> rat" where
  "tie_break nid =
     of_int (crc32 nid mod py_int (ELECTION_TIE_BREAK_S * 1000)) / 1000"


section \<open>Construction\<close>

text \<open>
  The constructor. The first election deadline is computed when protocol, battery and tie
  break are set and the clock is read once more for the echoD activity stamp. The fields
  \<open>_loop\<close> and \<open>_inbox\<close> are set together by \<open>run\<close>: no inbox yet.
\<close>

definition blank :: "protocol \<Rightarrow> string \<Rightarrow> string list \<Rightarrow> battery \<Rightarrow> bool \<Rightarrow> world \<Rightarrow> coordinator" where
  "blank proto nid ps b demo w =
     \<lparr>protocol = proto, node_id = nid, peers = filter (\<lambda>p. p \<noteq> nid) ps, battery = b,
      tie_break_s = tie_break nid, state = Follower, current_term = 0, voted_for = None,
      log = [], commit_index = 0, votes = [], election_deadline = 0, next_index = [],
      match_index = [], last_ping_time = 0, leaves = [], last_sensor = [],
      current_leader_id = None, pending_triggers = [], partition_epoch = 0,
      batch_buffer = [], batch_deadline = None, ping_interval_s = LIVENESS_PING_INTERVAL,
      last_consensus_activity = 0, last_leaf_keepalive = 0, peer_batteries = [],
      handoff_sent = False, total_messages_sent = 0, total_messages_received = 0,
      messages_sent_by_type = [], messages_recv_by_type = [], leader_changes = 0,
      pending_latency = [], latencies = [], blocked_senders = {}, recent_reconciles = [],
      running = False, inbox = None, outbox = [], published = None, demo_enabled = demo,
      env = w\<rparr>"

definition init_coordinator ::
    "string \<Rightarrow> string \<Rightarrow> string list \<Rightarrow> battery \<Rightarrow> bool \<Rightarrow> world \<Rightarrow> coordinator result" where
  "init_coordinator proto nid ps b demo w =
     (case parse_protocol proto of
        None \<Rightarrow> Inl ValueError
      | Some pr \<Rightarrow>
          (let s = reset_election_timer (blank pr nid ps b demo w);
               (t, s) = now_s s
           in Inr (s\<lparr>last_consensus_activity := t\<rparr>)))"


section \<open>Log helpers\<close>

definition last_log_index :: "coordinator \<Rightarrow> int" where
  "last_log_index s = int (length (log s))"

definition last_log_term :: "coordinator \<Rightarrow> int" where
  "last_log_term s = (if log s = [] then 0 else le_term (last (log s)))"

definition log_is_up_to_date :: "coordinator \<Rightarrow> int \<Rightarrow> int \<Rightarrow> bool" where
  "log_is_up_to_date s last_index last_term =
     (if last_term \<noteq> last_log_term s then last_term > last_log_term s
      else last_index \<ge> last_log_index s)"


section \<open>Roles\<close>

text \<open>The two states in which a node acts as a leader, and the three that step down.\<close>

definition leading :: "coordinator \<Rightarrow> bool" where
  "leading s \<longleftrightarrow> state s = Leader \<or> state s = LocalLeader"

definition step_down :: "int \<Rightarrow> coordinator \<Rightarrow> coordinator" where
  "step_down new_term s =
     (let s = s\<lparr>current_term := new_term, voted_for := None\<rparr>;
          s = (if state s \<in> {Candidate, Leader, LocalLeader} then s\<lparr>state := Follower\<rparr> else s)
      in if state s \<noteq> Observer then reset_election_timer s else s)"

text \<open>Energy gating: not in Raft mode.\<close>

definition check_battery :: "coordinator \<Rightarrow> coordinator" where
  "check_battery s =
     (if protocol s = Raft then s
      else (let (lvl, s) = battery_level s
            in if lvl < T_LOW \<and> state s \<noteq> Observer
               then s\<lparr>state := Observer, voted_for := None\<rparr>
               else if lvl \<ge> T_RESTORE \<and> state s = Observer
               then s\<lparr>state := Follower\<rparr>
               else s))"

definition publish_status :: "coordinator \<Rightarrow> coordinator" where
  "publish_status s =
     (let avg = (if latencies s = [] then 0
                 else sum_list (latencies s) / of_nat (length (latencies s)) * 1000);
          (lvl, s) = battery_level s
      in s\<lparr>published := Some
           \<lparr>st_protocol = protocol s, st_state = state s, st_term = current_term s,
            st_battery = lvl, st_log_length = length (log s),
            st_commit_index = commit_index s, st_voted_for = voted_for s,
            st_current_leader = current_leader_id s, st_partition_epoch = partition_epoch s,
            st_peers = peers s, st_leaves = leaves s,
            st_messages_sent = total_messages_sent s,
            st_messages_received = total_messages_received s,
            st_sent_by_type = messages_sent_by_type s,
            st_recv_by_type = messages_recv_by_type s,
            st_consensus_rounds = length (latencies s),
            st_avg_latency_ms = py_round avg 3,
            st_leader_changes = leader_changes s\<rparr>\<rparr>)"

definition enter_provisional_mode :: "coordinator \<Rightarrow> coordinator" where
  "enter_provisional_mode s =
     (let s = s\<lparr>partition_epoch := partition_epoch s + 1\<rparr>
      in if state s = Leader then s\<lparr>state := LocalLeader\<rparr> else s)"

definition exit_provisional_mode :: "coordinator \<Rightarrow> coordinator" where
  "exit_provisional_mode s =
     (let s = (if state s = LocalLeader then s\<lparr>state := Follower\<rparr> else s)
      in s\<lparr>partition_epoch := 0\<rparr>)"

end
