(* ===== verification/Replication.thy ===== *)
theory Replication
  imports Coordinator
begin

text \<open>
  Log replication of \<open>rpi/coordinator/echo_node.py\<close>: proposing an entry, the
  AppendEntries exchange with its conflict handling, the commit rule of the leader, and the
  hand-back of truncated provisional commands.
\<close>

section \<open>Leader side: proposing\<close>

text \<open>
  \<open>next_index.get(peer, 1) - 1\<close> can be past the end of the leader's own log, where the
  previous term is sent as 0 and no entries are.
\<close>

definition prev_index :: "coordinator \<Rightarrow> string \<Rightarrow> int" where
  "prev_index s peer = dget_or (next_index s) peer 1 - 1"

definition term_before :: "log_entry list \<Rightarrow> int \<Rightarrow> int" where
  "term_before l i = (if 0 < i \<and> i \<le> int (length l) then le_term (l ! nat (i - 1)) else 0)"

definition append_message :: "coordinator \<Rightarrow> string \<Rightarrow> payload" where
  "append_message s peer =
     (let prev_idx = prev_index s peer
      in AppendEntries (current_term s) (Some (node_id s)) prev_idx
           (term_before (log s) prev_idx) (Some (py_from (log s) prev_idx))
           (Some (int (commit_index s))) ''delta'' (partition_epoch s))"

definition send_append_entries :: "string \<Rightarrow> coordinator \<Rightarrow> coordinator" where
  "send_append_entries peer s = send peer (append_message s peer) s"

definition send_heartbeats :: "coordinator \<Rightarrow> coordinator" where
  "send_heartbeats s = fold send_append_entries (peers s) s"

definition new_entry :: "json \<Rightarrow> string \<Rightarrow> coordinator \<Rightarrow> log_entry \<times> coordinator" where
  "new_entry command trigger s =
     (let (ts, w) = wall_time (env s)
      in (\<lparr>le_index = last_log_index s + 1, le_term = current_term s, le_command = command,
           le_trigger_type = trigger, le_partition_epoch = partition_epoch s,
           le_timestamp = ts\<rparr>, s\<lparr>env := w\<rparr>))"

definition replicate_entry :: "json \<Rightarrow> string \<Rightarrow> coordinator \<Rightarrow> coordinator" where
  "replicate_entry command trigger s =
     (let (e, s) = new_entry command trigger s;
          s = s\<lparr>log := log s @ [e]\<rparr>;
          (t, s) = now_s s;
          s = s\<lparr>pending_latency := dput (le_index e) t (pending_latency s)\<rparr>
      in fold send_append_entries (peers s) s)"


section \<open>Follower side: AppendEntries\<close>

definition append_response :: "bool \<Rightarrow> int \<Rightarrow> string \<Rightarrow> coordinator \<Rightarrow> coordinator" where
  "append_response ok match sender s =
     (let (lvl, s) = battery_level s
      in send sender
           (AppendResponse (current_term s) ok (node_id s) match (Some (of_int lvl))) s)"

definition reject_append :: "string \<Rightarrow> coordinator \<Rightarrow> coordinator" where
  "reject_append sender s = append_response False 0 sender s"

definition replay_provisional :: "log_entry list \<Rightarrow> coordinator \<Rightarrow> coordinator" where
  "replay_provisional truncated s =
     (let commands = map le_command (filter (\<lambda>e. le_partition_epoch e \<noteq> 0) truncated)
      in if commands = [] \<or> protocol s = Raft then s
         else (case current_leader_id s of
             None \<Rightarrow> s
           | Some leader_id \<Rightarrow>
               if leader_id = node_id s then s
               else send leader_id
                 (ReconcileBatch (current_term s) (node_id s) (Some commands)) s))"

text \<open>
  The body of the loop over \<open>p["entries"]\<close>. An entry whose index is below 1 indexes the
  log from its end, and raises on a log too short for that.
\<close>

definition append_entry :: "log_entry \<Rightarrow> coordinator \<Rightarrow> coordinator result" where
  "append_entry e s =
     (if le_index e \<le> int (length (log s))
      then (case py_nth (log s) (le_index e - 1) of
          None \<Rightarrow> Inl IndexError
        | Some x \<Rightarrow>
            if le_term x \<noteq> le_term e
            then (let truncated = py_from (log s) (le_index e - 1)
                  in Inr (replay_provisional truncated
                       (s\<lparr>log := py_upto (log s) (le_index e - 1) @ [e]\<rparr>)))
            else Inr s)
      else Inr (s\<lparr>log := log s @ [e]\<rparr>))"

fun append_loop :: "log_entry list \<Rightarrow> coordinator \<Rightarrow> coordinator result" where
  "append_loop [] s = Inr s"
| "append_loop (e # es) s = bind (append_entry e s) (append_loop es)"

text \<open>The consistency check on the entry before the new ones.\<close>

definition prev_matches :: "log_entry list \<Rightarrow> int \<Rightarrow> int \<Rightarrow> bool" where
  "prev_matches l prev_idx prev_term \<longleftrightarrow>
     (prev_idx > 0 \<longrightarrow>
        prev_idx \<le> int (length l) \<and> le_term (l ! nat (prev_idx - 1)) = prev_term)"

definition advance_follower_commit :: "int \<Rightarrow> coordinator \<Rightarrow> coordinator" where
  "advance_follower_commit leader_commit s =
     (if leader_commit > int (commit_index s)
      then s\<lparr>commit_index := nat (min leader_commit (int (length (log s))))\<rparr>
      else s)"

definition handle_append_entries :: "string \<Rightarrow> payload \<Rightarrow> coordinator \<Rightarrow> coordinator result" where
  "handle_append_entries sender p s =
     (let s = (if ae_term p > current_term s then step_down (ae_term p) s else s)
      in if ae_term p < current_term s then Inr (append_response False 0 sender s)
      else
       (let s = reset_election_timer s;
            s = s\<lparr>current_leader_id := Some (py_get (ae_leader_id p) sender)\<rparr>;
            s = (if state s = Candidate then s\<lparr>state := Follower\<rparr> else s)
        in if \<not> prev_matches (log s) (ae_prev_log_index p) (ae_prev_log_term p)
           then Inr (reject_append sender s)
           else bind (append_loop (py_get (ae_entries p) []) s) (\<lambda>s.
             let s = advance_follower_commit (py_get (ae_leader_commit p) 0) s
             in Inr (append_response True (int (length (log s))) sender s))))"


section \<open>Leader side: responses and the commit rule\<close>

definition replication_count :: "coordinator \<Rightarrow> nat \<Rightarrow> nat" where
  "replication_count s n =
     1 + length (filter (\<lambda>peer. dget_or (match_index s) peer 0 \<ge> int n) (peers s))"

definition committable :: "coordinator \<Rightarrow> nat \<Rightarrow> bool" where
  "committable s n \<longleftrightarrow>
     le_term (log s ! (n - 1)) = current_term s \<and>
     replication_count s n > (length (peers s) + 1) div 2"

text \<open>
  The latencies of the indices up to \<open>n\<close> move, in index order, from the pending dict to the
  list.
\<close>

definition record_latencies :: "nat \<Rightarrow> rat \<Rightarrow> coordinator \<Rightarrow> coordinator" where
  "record_latencies n t s =
     fold (\<lambda>idx s.
         if idx \<le> int n
         then s\<lparr>latencies := latencies s @ [t - dget_or (pending_latency s) idx 0],
                pending_latency := AList.delete idx (pending_latency s)\<rparr>
         else s)
       (sort (keys (pending_latency s))) s"

text \<open>
  \<open>for n in range(len(log), commit_index, -1)\<close>: from the top down to one above the commit
  index, the first committable index wins.
\<close>

fun scan_commit :: "coordinator \<Rightarrow> nat list \<Rightarrow> coordinator" where
  "scan_commit s [] = s"
| "scan_commit s (n # ns) =
     (if committable s n
      then (let (t, s) = now_s (s\<lparr>commit_index := n\<rparr>) in record_latencies n t s)
      else scan_commit s ns)"

definition commit_range :: "coordinator \<Rightarrow> nat list" where
  "commit_range s = rev [Suc (commit_index s)..<Suc (length (log s))]"

definition try_advance_commit :: "coordinator \<Rightarrow> coordinator" where
  "try_advance_commit s = scan_commit s (commit_range s)"

definition handle_append_response :: "string \<Rightarrow> payload \<Rightarrow> coordinator \<Rightarrow> coordinator" where
  "handle_append_response sender p s =
     (if ar_term p > current_term s then step_down (ar_term p) s
      else
       (let s = (case ar_responder_battery p of
                   None \<Rightarrow> s
                 | Some b \<Rightarrow> s\<lparr>peer_batteries := dput sender b (peer_batteries s)\<rparr>)
        in if state s \<noteq> Leader then s
           else if ar_success p
           then try_advance_commit
                  (s\<lparr>next_index := dput sender (ar_match_index p + 1) (next_index s),
                     match_index := dput sender (ar_match_index p) (match_index s)\<rparr>)
           else s\<lparr>next_index :=
                  dput sender (max 1 (dget_or (next_index s) sender 1 - 1)) (next_index s)\<rparr>))"

end
