(* ===== verification/Triggers.thy ===== *)
theory Triggers
  imports Replication
begin

text \<open>
  The traffic of \<open>rpi/coordinator/echo_node.py\<close> outside the election: liveness pings with
  adaptive back-off, leaf registration, sensor reports with the delta filter, batching, the
  replay of buffered triggers and of reconciled commands, and the directed hand-off.
\<close>

section \<open>Liveness\<close>

definition ping :: "coordinator \<Rightarrow> payload" where
  "ping s = LivenessPing (current_term s) (Some (node_id s))"

definition next_ping_interval :: "coordinator \<Rightarrow> rat" where
  "next_ping_interval s =
     (if last_consensus_activity s \<ge> last_ping_time s then LIVENESS_PING_INTERVAL
      else min (ping_interval_s s * LIVENESS_BACKOFF_FACTOR) ECHOD_PING_MAX_INTERVAL)"

definition send_liveness_ping :: "coordinator \<Rightarrow> coordinator" where
  "send_liveness_ping s =
     (if protocol s = Echod
      then (let s = send_all (peers s) (ping s) s
            in s\<lparr>ping_interval_s := next_ping_interval s\<rparr>)
      else broadcast (ping s) s)"

definition send_leaf_keepalives :: "coordinator \<Rightarrow> coordinator" where
  "send_leaf_keepalives s = send_all (leaves s) (ping s) s"

definition handle_liveness_ping :: "string \<Rightarrow> payload \<Rightarrow> coordinator \<Rightarrow> coordinator" where
  "handle_liveness_ping sender p s =
     (if lp_term p \<ge> current_term s
      then (let s = (if lp_term p > current_term s then step_down (lp_term p) s else s)
            in reset_election_timer
                 (s\<lparr>current_leader_id := Some (py_get (lp_leader_id p) sender)\<rparr>))
      else s)"

definition handle_leaf_register :: "string \<Rightarrow> payload \<Rightarrow> coordinator \<Rightarrow> coordinator" where
  "handle_leaf_register sender p s =
     (let s = s\<lparr>leaves := py_add (lr_leaf_id p) (leaves s)\<rparr>
      in send sender (LeafRegisterResponse True (node_id s) (current_term s)) s)"


section \<open>Sensor reports\<close>

definition reading :: "string \<Rightarrow> rat \<Rightarrow> string \<Rightarrow> json" where
  "reading sensor value leaf =
     JObj [(''sensor'', JStr sensor), (''value'', JFloat value), (''leaf'', JStr leaf)]"

definition batch :: "json list \<Rightarrow> json" where
  "batch commands =
     JObj [(''batch'', JList commands), (''count'', JInt (int (length commands)))]"

text \<open>The delta filter: relative deviation below the threshold, guarded against a zero base.\<close>

definition below_threshold :: "rat \<Rightarrow> rat \<Rightarrow> bool" where
  "below_threshold prev value \<longleftrightarrow>
     \<bar>value - prev\<bar> / max \<bar>prev\<bar> (1 / 10 ^ 9) < DELTA_THRESHOLD"

definition filtered :: "coordinator \<Rightarrow> string \<Rightarrow> rat \<Rightarrow> bool" where
  "filtered s key value =
     (case dget (last_sensor s) key of None \<Rightarrow> False | Some prev \<Rightarrow> below_threshold prev value)"

definition flush_batch :: "coordinator \<Rightarrow> coordinator" where
  "flush_batch s =
     (if batch_buffer s = [] then s\<lparr>batch_deadline := None\<rparr>
      else
       (let commands = batch_buffer s;
            s = s\<lparr>batch_buffer := [], batch_deadline := None\<rparr>;
            command = (if length commands = 1 then hd commands else batch commands);
            (t, s) = now_s s
        in replicate_entry command ''delta'' (s\<lparr>last_consensus_activity := t\<rparr>)))"

definition buffer_command :: "json \<Rightarrow> coordinator \<Rightarrow> coordinator" where
  "buffer_command command s =
     (let s = s\<lparr>batch_buffer := batch_buffer s @ [command]\<rparr>;
          s = (if batch_deadline s = None
               then (let (t, s) = now_s s in s\<lparr>batch_deadline := Some (t + BATCH_WINDOW_S)\<rparr>)
               else s)
      in if length (batch_buffer s) \<ge> MAX_BATCH_SIZE then flush_batch s else s)"

definition sensor_key :: "string \<Rightarrow> string \<Rightarrow> string" where
  "sensor_key leaf sensor = leaf @ '':'' @ sensor"

definition handle_sensor_data :: "string \<Rightarrow> payload \<Rightarrow> coordinator \<Rightarrow> coordinator" where
  "handle_sensor_data sender p s =
     (let command = reading (sd_sensor_type p) (sd_value p) (sd_leaf_id p)
      in if \<not> leading s
         then (case current_leader_id s of
             Some leader_id \<Rightarrow>
               if leader_id \<noteq> node_id s then send leader_id p s
               else s\<lparr>pending_triggers := pending_triggers s @ [(command, ''delta'')]\<rparr>
           | None \<Rightarrow> s\<lparr>pending_triggers := pending_triggers s @ [(command, ''delta'')]\<rparr>)
         else if protocol s = Raft then replicate_entry command ''event'' s
         else
          (let key = sensor_key (sd_leaf_id p) (sd_sensor_type p)
           in if filtered s key (sd_value p) then s
              else
               (let s = s\<lparr>last_sensor := dput key (sd_value p) (last_sensor s)\<rparr>
                in if protocol s = Echod then buffer_command command s
                   else replicate_entry command ''delta'' s)))"


section \<open>Replays\<close>

definition replicate_each :: "(json \<times> string) list \<Rightarrow> coordinator \<Rightarrow> coordinator" where
  "replicate_each cs s = fold (\<lambda>(c, t). replicate_entry c t) cs s"

definition flush_pending_triggers :: "coordinator \<Rightarrow> coordinator" where
  "flush_pending_triggers s =
     (if pending_triggers s = [] then s
      else
       (let pending = pending_triggers s;
            s = s\<lparr>pending_triggers := []\<rparr>;
            (t, s) = now_s s;
            s = s\<lparr>last_consensus_activity := t\<rparr>
        in if protocol s = Echod \<and> length pending > 1
           then replicate_entry (batch (map fst pending)) (snd (hd pending)) s
           else replicate_each pending s))"

text \<open>
  \<open>_recent_reconciles\<close> is a list of keys: a command whose key is in it, or was added by
  this same message, is skipped.
\<close>

fun fresh_commands :: "json list \<Rightarrow> json list \<Rightarrow> json list \<times> json list" where
  "fresh_commands recent [] = ([], recent)"
| "fresh_commands recent (c # cs) =
     (if canon c \<in> set recent then fresh_commands recent cs
      else (let (fresh, recent') = fresh_commands (recent @ [canon c]) cs
            in (c # fresh, recent')))"

definition trim_reconciles :: "json list \<Rightarrow> json list" where
  "trim_reconciles recent = (if length recent > 200 then drop 100 recent else recent)"

definition handle_reconcile_batch :: "string \<Rightarrow> payload \<Rightarrow> coordinator \<Rightarrow> coordinator" where
  "handle_reconcile_batch sender p s =
     (if \<not> leading s then s
      else if py_get (rb_commands p) [] = [] then s
      else
       (let (fresh, recent) = fresh_commands (recent_reconciles s) (py_get (rb_commands p) []);
            s = s\<lparr>recent_reconciles := trim_reconciles recent\<rparr>
        in if fresh = [] then s
           else
            (let (t, s) = now_s s;
                 s = s\<lparr>last_consensus_activity := t\<rparr>
             in if protocol s = Echod \<and> length fresh > 1
                then replicate_entry (batch fresh) ''reconcile'' s
                else replicate_each (map (\<lambda>c. (c, ''reconcile'')) fresh) s)))"


section \<open>Hand-off\<close>

text \<open>\<open>candidates.sort(key=lambda nb: (-nb[1], nb[0]))\<close>\<close>

definition handoff_candidates :: "coordinator \<Rightarrow> (string \<times> rat) list" where
  "handoff_candidates s =
     sort_key (\<lambda>(p, b). (- b, p))
       (map (\<lambda>peer. (peer, dget_or (peer_batteries s) peer 100)) (peers s))"

definition initiate_handoff :: "coordinator \<Rightarrow> coordinator" where
  "initiate_handoff s =
     (let s = s\<lparr>handoff_sent := True\<rparr>;
          (own, s) = battery_level s
      in case handoff_candidates s of
           [] \<Rightarrow> s
         | (successor, successor_battery) # _ \<Rightarrow>
             if successor_battery \<le> of_int own then s
             else (let s = send successor
                         (LeadershipHandoff (current_term s) (Some (node_id s))) s
                   in reset_election_timer (s\<lparr>state := Follower\<rparr>)))"

end
