(* ===== verification/Election.thy ===== *)
theory Election
  imports Triggers
begin

text \<open>
  Leader election of \<open>rpi/coordinator/echo_node.py\<close>: campaigning, granting and counting
  votes, promotion, and the nominated successor of a hand-off.
\<close>

definition vote_request :: "int \<Rightarrow> coordinator \<Rightarrow> payload" where
  "vote_request lvl s =
     RequestVote (current_term s) (node_id s) (last_log_index s) (last_log_term s) lvl"

definition start_election :: "coordinator \<Rightarrow> coordinator" where
  "start_election s =
     (if state s = Observer then s
      else
       (let s = s\<lparr>current_term := current_term s + 1, state := Candidate,
                  voted_for := Some (node_id s), current_leader_id := None\<rparr>;
            (lvl, s) = battery_level s;
            s = reset_election_timer (s\<lparr>votes := [(node_id s, lvl)]\<rparr>)
        in send_all (peers s) (vote_request lvl s) s))"

definition grants_vote :: "payload \<Rightarrow> coordinator \<Rightarrow> bool" where
  "grants_vote p s \<longleftrightarrow>
     rv_term p = current_term s \<and>
     state s \<noteq> Observer \<and>
     (protocol s = Raft \<or> rv_battery_level p \<ge> T_LOW) \<and>
     (voted_for s = None \<or> voted_for s = Some (rv_candidate_id p)) \<and>
     log_is_up_to_date s (rv_last_log_index p) (rv_last_log_term p)"

definition handle_request_vote :: "string \<Rightarrow> payload \<Rightarrow> coordinator \<Rightarrow> coordinator" where
  "handle_request_vote sender p s =
     (let s = (if rv_term p > current_term s then step_down (rv_term p) s else s);
          grant = grants_vote p s;
          s = (if grant then reset_election_timer (s\<lparr>voted_for := Some (rv_candidate_id p)\<rparr>)
               else s);
          (lvl, s) = battery_level s
      in send sender (VoteResponse (current_term s) grant (node_id s) lvl) s)"

text \<open>
  The two clock reads of the promotion are separate: the activity stamp comes before the
  ping stamp.
\<close>

definition become_leader :: "coordinator \<Rightarrow> coordinator" where
  "become_leader s =
     (let s = s\<lparr>state := Leader, leader_changes := leader_changes s + 1,
                current_leader_id := Some (node_id s)\<rparr>;
          s = fold (\<lambda>peer s.
                s\<lparr>next_index := dput peer (last_log_index s + 1) (next_index s),
                  match_index := dput peer 0 (match_index s)\<rparr>) (peers s) s;
          s = s\<lparr>handoff_sent := False, ping_interval_s := LIVENESS_PING_INTERVAL\<rparr>;
          (t, s) = now_s s;
          s = s\<lparr>last_consensus_activity := t\<rparr>;
          (t, s) = now_s s;
          s = s\<lparr>last_ping_time := t\<rparr>;
          s = (if protocol s = Raft then send_heartbeats s else send_liveness_ping s)
      in flush_pending_triggers s)"

definition majority :: "coordinator \<Rightarrow> nat \<Rightarrow> bool" where
  "majority s n \<longleftrightarrow> n > (length (peers s) + 1) div 2"

definition handle_vote_response :: "string \<Rightarrow> payload \<Rightarrow> coordinator \<Rightarrow> coordinator" where
  "handle_vote_response sender p s =
     (if vr_term p > current_term s then step_down (vr_term p) s
      else if state s \<noteq> Candidate \<or> vr_term p \<noteq> current_term s then s
      else
       (let s = (if vr_vote_granted p
                 then s\<lparr>votes := dput sender (vr_voter_battery p) (votes s)\<rparr> else s)
        in if majority s (length (votes s)) then become_leader s else s))"

definition handle_leadership_handoff :: "string \<Rightarrow> payload \<Rightarrow> coordinator \<Rightarrow> coordinator" where
  "handle_leadership_handoff sender p s =
     (if protocol s \<noteq> Echod \<or> state s = Observer then s
      else if lh_term p < current_term s then s
      else start_election
             (if lh_term p > current_term s then step_down (lh_term p) s else s))"

end
