(* ===== verification/MainLoop.thy ===== *)
theory MainLoop
  imports Election
begin

text \<open>
  The control messages, the dispatcher and the event loop of
  \<open>rpi/coordinator/echo_node.py\<close>. An iteration of the loop drains the inbox, checks the
  battery, ticks the timers and publishes the status; messages arrive between iterations.
\<close>

section \<open>Partition and demo control\<close>

text \<open>
  The split of a partition message. The node's own side is the last group it is named in;
  the members of every other group are blocked, never the node itself when it has a side.
\<close>

definition my_group :: "string \<Rightarrow> string list list \<Rightarrow> string set option" where
  "my_group nid groups =
     fold (\<lambda>g mine. if nid \<in> set g then Some (set g) else mine) groups None"

definition blocked_by_groups :: "string \<Rightarrow> string list list \<Rightarrow> string set" where
  "blocked_by_groups nid groups =
     (let mine = my_group nid groups;
          blocked = fold (\<lambda>g b. if Some (set g) \<noteq> mine then b \<union> set g else b) groups {}
      in if mine \<noteq> None then blocked - {nid} else blocked)"

definition handle_partition_control :: "string \<Rightarrow> payload \<Rightarrow> coordinator \<Rightarrow> coordinator" where
  "handle_partition_control sender p s =
     (if pc_action p = Some ''partition''
      then (let s = s\<lparr>blocked_senders :=
                  (case pc_groups p of
                     Some groups \<Rightarrow> blocked_by_groups (node_id s) groups
                   | None \<Rightarrow> set (py_get (pc_blocked_senders p) []))\<rparr>
            in if protocol s \<noteq> Raft then enter_provisional_mode s else s)
      else if pc_action p = Some ''heal''
      then (let s = s\<lparr>blocked_senders := {}\<rparr>
            in if protocol s \<noteq> Raft then exit_provisional_mode s else s)
      else s)"

definition with_battery ::
    "(battery \<Rightarrow> world \<Rightarrow> battery \<times> world) \<Rightarrow> coordinator \<Rightarrow> coordinator" where
  "with_battery f s = (let (b, w) = f (battery s) (env s) in s\<lparr>battery := b, env := w\<rparr>)"

definition handle_demo_control :: "string \<Rightarrow> payload \<Rightarrow> coordinator \<Rightarrow> coordinator" where
  "handle_demo_control sender p s =
     (if \<not> demo_enabled s then s
      else if \<not> mock (battery s) then s
      else if dc_action p = Some ''set_battery''
      then publish_status (check_battery
             (with_battery (set_mock_level (py_get (dc_level p) 100)) s))
      else if dc_action p = Some ''set_drain_rate''
      then publish_status (check_battery
             (with_battery (set_mock_drain_rate (py_get (dc_rate p) (1 / 2))) s))
      else if dc_action p = Some ''set_drain_paused''
      then publish_status (check_battery
             (with_battery (set_mock_drain_paused (py_get (dc_paused p) False)) s))
      else s)"


section \<open>Dispatch\<close>

text \<open>
  The MQTT thread's side: a blocked sender's message is dropped, partition control is never
  blocked, and nothing is queued before the loop runs.
\<close>

definition dispatch :: "string \<Rightarrow> payload \<Rightarrow> coordinator \<Rightarrow> coordinator" where
  "dispatch sender p s =
     (if msg_type p \<noteq> ''partition_control'' \<and> sender \<in> blocked_senders s then s
      else (case inbox s of
          None \<Rightarrow> s
        | Some q \<Rightarrow> s\<lparr>inbox := Some (q @ [(sender, p)])\<rparr>))"

text \<open>The handler table; the types it lacks are logged and ignored.\<close>

definition handle :: "string \<Rightarrow> payload \<Rightarrow> coordinator \<Rightarrow> coordinator result" where
  "handle sender p s =
     (case p of
        RequestVote _ _ _ _ _ \<Rightarrow> Inr (handle_request_vote sender p s)
      | VoteResponse _ _ _ _ \<Rightarrow> Inr (handle_vote_response sender p s)
      | AppendEntries _ _ _ _ _ _ _ _ \<Rightarrow> handle_append_entries sender p s
      | AppendResponse _ _ _ _ _ \<Rightarrow> Inr (handle_append_response sender p s)
      | LivenessPing _ _ \<Rightarrow> Inr (handle_liveness_ping sender p s)
      | LeafRegister _ \<Rightarrow> Inr (handle_leaf_register sender p s)
      | SensorData _ _ _ _ \<Rightarrow> Inr (handle_sensor_data sender p s)
      | LeadershipHandoff _ _ \<Rightarrow> Inr (handle_leadership_handoff sender p s)
      | ReconcileBatch _ _ _ \<Rightarrow> Inr (handle_reconcile_batch sender p s)
      | PartitionControl _ _ _ \<Rightarrow> Inr (handle_partition_control sender p s)
      | DemoControl _ _ _ _ \<Rightarrow> Inr (handle_demo_control sender p s)
      | LeafRegisterResponse _ _ _ \<Rightarrow> Inr s
      | OtherMessage _ \<Rightarrow> Inr s)"

definition count_received :: "payload \<Rightarrow> coordinator \<Rightarrow> coordinator" where
  "count_received p s =
     s\<lparr>total_messages_received := total_messages_received s + 1,
       messages_recv_by_type := bump (msg_type p) (messages_recv_by_type s)\<rparr>"

definition receive :: "string \<Rightarrow> payload \<Rightarrow> coordinator \<Rightarrow> coordinator result" where
  "receive sender p s = handle sender p (count_received p s)"

text \<open>
  Draining takes the messages one by one until the queue is empty; the handlers do not
  queue. An exception leaves the loop, and with it the process.
\<close>

fun drain :: "(string \<times> payload) list \<Rightarrow> coordinator \<Rightarrow> coordinator result" where
  "drain [] s = Inr s"
| "drain ((sender, p) # q) s = bind (receive sender p (s\<lparr>inbox := Some q\<rparr>)) (drain q)"

definition drain_inbox :: "coordinator \<Rightarrow> coordinator result" where
  "drain_inbox s = (case inbox s of None \<Rightarrow> Inr s | Some q \<Rightarrow> drain q s)"


section \<open>The tick\<close>

definition tick_raft :: "rat \<Rightarrow> coordinator \<Rightarrow> coordinator" where
  "tick_raft now s =
     (if now - last_ping_time s \<ge> RAFT_HEARTBEAT_INTERVAL
      then (send_heartbeats s)\<lparr>last_ping_time := now\<rparr> else s)"

definition tick_echo :: "rat \<Rightarrow> coordinator \<Rightarrow> coordinator" where
  "tick_echo now s =
     (if now - last_ping_time s \<ge> LIVENESS_PING_INTERVAL
      then (send_liveness_ping s)\<lparr>last_ping_time := now\<rparr> else s)"

definition batch_due :: "rat \<Rightarrow> coordinator \<Rightarrow> bool" where
  "batch_due now s = (case batch_deadline s of None \<Rightarrow> False | Some d \<Rightarrow> now \<ge> d)"

text \<open>
  The battery is read before \<open>_handoff_sent\<close> is looked at, as \<open>and\<close> evaluates.
\<close>

definition tick_echod :: "rat \<Rightarrow> coordinator \<Rightarrow> coordinator" where
  "tick_echod now s =
     (let s = (if batch_due now s then flush_batch s else s);
          s = (if now - last_ping_time s \<ge> ping_interval_s s
               then (send_liveness_ping s)\<lparr>last_ping_time := now\<rparr> else s);
          (lvl, s) = battery_level s
      in if lvl < T_HANDOFF \<and> \<not> handoff_sent s then initiate_handoff s else s)"

definition keepalive_due :: "rat \<Rightarrow> coordinator \<Rightarrow> bool" where
  "keepalive_due now s \<longleftrightarrow>
     protocol s = Echod \<and> leaves s \<noteq> [] \<and>
     now - last_leaf_keepalive s \<ge> LEAF_KEEPALIVE_INTERVAL"

definition tick :: "coordinator \<Rightarrow> coordinator" where
  "tick s =
     (let (now, s) = now_s s
      in if state s = Observer then s
         else
          (let s = (if leading s
                    then (case protocol s of
                        Raft \<Rightarrow> tick_raft now s
                      | Echod \<Rightarrow> tick_echod now s
                      | Echo \<Rightarrow> tick_echo now s)
                    else if now \<ge> election_deadline s then start_election s
                    else s)
           in if keepalive_due now s
              then (send_leaf_keepalives s)\<lparr>last_leaf_keepalive := now\<rparr>
              else s))"


section \<open>The loop\<close>

definition run_start :: "coordinator \<Rightarrow> coordinator" where
  "run_start s = snd (battery_level (s\<lparr>running := True, inbox := Some []\<rparr>))"

definition stop :: "coordinator \<Rightarrow> coordinator" where
  "stop s = s\<lparr>running := False\<rparr>"

definition run_iteration :: "coordinator \<Rightarrow> coordinator result" where
  "run_iteration s =
     bind (drain_inbox s) (\<lambda>s. Inr (publish_status (tick (check_battery s))))"

end
