(* ===== verification/Frames.thy ===== *)
theory Frames
  imports MainLoop
begin

text \<open>
  Normal forms of the shared operations of a coordinator. Each is rewritten to one record
  update, with the values it reads from the environment named by a projection, so that the
  simplifier computes any field after any sequence of operations.
\<close>

section \<open>Reading the environment\<close>

definition lvl_of :: "coordinator \<Rightarrow> int" where
  "lvl_of s = fst (read_level (battery s) (env s))"

definition bat_of :: "coordinator \<Rightarrow> battery" where
  "bat_of s = fst (snd (read_level (battery s) (env s)))"

definition env_of :: "coordinator \<Rightarrow> world" where
  "env_of s = snd (snd (read_level (battery s) (env s)))"

definition time_of :: "coordinator \<Rightarrow> rat" where
  "time_of s = fst (monotonic (env s))"

definition tick_env :: "coordinator \<Rightarrow> world" where
  "tick_env s = snd (monotonic (env s))"

lemma battery_level_nf:
  "battery_level s = (lvl_of s, s\<lparr>battery := bat_of s, env := env_of s\<rparr>)"
  by (simp add: battery_level_def lvl_of_def bat_of_def env_of_def split: prod.split)

lemma now_s_nf: "now_s s = (time_of s, s\<lparr>env := tick_env s\<rparr>)"
  by (simp add: now_s_def time_of_def tick_env_def split: prod.split)

definition deadline_of :: "coordinator \<Rightarrow> rat" where
  "deadline_of s = fst (new_election_deadline s)"

definition deadline_bat :: "coordinator \<Rightarrow> battery" where
  "deadline_bat s = battery (snd (new_election_deadline s))"

definition deadline_env :: "coordinator \<Rightarrow> world" where
  "deadline_env s = env (snd (new_election_deadline s))"

lemma reset_election_timer_nf:
  "reset_election_timer s =
     s\<lparr>election_deadline := deadline_of s, battery := deadline_bat s, env := deadline_env s\<rparr>"
  by (simp add: reset_election_timer_def deadline_of_def deadline_bat_def deadline_env_def
      new_election_deadline_def battery_level_nf now_s_nf split: prod.split)

lemmas env_nf = battery_level_nf now_s_nf reset_election_timer_nf


section \<open>Messaging\<close>

lemma send_nf [unfold_op]: "send r p s =
  s\<lparr>outbox := outbox s @ [(r, p)], total_messages_sent := total_messages_sent s + 1,
    messages_sent_by_type := bump (msg_type p) (messages_sent_by_type s)\<rparr>"
  by (rule send_def)

lemma send_all_Nil [simp]: "send_all [] p s = s"
  by (simp add: send_all_def)

lemma send_all_Cons [simp]: "send_all (r # rs) p s = send_all rs p (send r p s)"
  by (simp add: send_all_def)

definition bumps :: "nat \<Rightarrow> string \<Rightarrow> (string, nat) dict \<Rightarrow> (string, nat) dict" where
  "bumps n k d = (bump k ^^ n) d"

lemma send_all_nf: "send_all rs p s =
  s\<lparr>outbox := outbox s @ map (\<lambda>r. (r, p)) rs,
    total_messages_sent := total_messages_sent s + length rs,
    messages_sent_by_type := bumps (length rs) (msg_type p) (messages_sent_by_type s)\<rparr>"
  by (induction rs arbitrary: s) (simp_all add: send_def bumps_def funpow_swap1)

lemma append_message_cong:
  assumes "next_index s = next_index s'" and "current_term s = current_term s'"
    and "node_id s = node_id s'" and "log s = log s'" and "commit_index s = commit_index s'"
    and "partition_epoch s = partition_epoch s'"
  shows "append_message s = append_message s'"
  using assms by (simp add: fun_eq_iff append_message_def prev_index_def)

lemma append_message_upd [simp]:
  "append_message (s\<lparr>env := w\<rparr>) = append_message s"
  "append_message (s\<lparr>env := w, log := es\<rparr>) = append_message (s\<lparr>log := es\<rparr>)"
  "append_message (s\<lparr>battery := b\<rparr>) = append_message s"
  "append_message (s\<lparr>outbox := ob\<rparr>) = append_message s"
  "append_message (s\<lparr>total_messages_sent := n\<rparr>) = append_message s"
  "append_message (s\<lparr>messages_sent_by_type := d\<rparr>) = append_message s"
  "append_message (s\<lparr>pending_latency := l\<rparr>) = append_message s"
  "append_message (s\<lparr>last_consensus_activity := t\<rparr>) = append_message s"
  "append_message (s\<lparr>batch_buffer := bb\<rparr>) = append_message s"
  "append_message (s\<lparr>batch_deadline := bd\<rparr>) = append_message s"
  "append_message (s\<lparr>pending_triggers := pt\<rparr>) = append_message s"
  by (simp_all add: fun_eq_iff append_message_def prev_index_def)

lemma append_message_send [simp]: "append_message (send r p s) = append_message s"
  by (simp add: send_def)

lemma append_all_nf: "fold send_append_entries ps s =
  s\<lparr>outbox := outbox s @ map (\<lambda>r. (r, append_message s r)) ps,
    total_messages_sent := total_messages_sent s + length ps,
    messages_sent_by_type := bumps (length ps) ''append_entries'' (messages_sent_by_type s)\<rparr>"
proof (induction ps arbitrary: s)
  case Nil
  then show ?case by (simp add: bumps_def)
next
  case (Cons r ps)
  have "msg_type (append_message s r) = ''append_entries''"
    by (simp add: append_message_def Let_def)
  moreover have "fold send_append_entries (r # ps) s =
      fold send_append_entries ps (send r (append_message s r) s)"
    by (simp add: send_append_entries_def)
  ultimately show ?case
    by (simp only: Cons.IH) (simp add: send_def bumps_def funpow_swap1)
qed

lemmas messaging_nf = send_def broadcast_def send_all_nf append_all_nf


section \<open>Proposing\<close>

text \<open>The entry a proposal appends.\<close>

definition entry_of :: "json \<Rightarrow> string \<Rightarrow> coordinator \<Rightarrow> log_entry" where
  "entry_of c t s =
     \<lparr>le_index = last_log_index s + 1, le_term = current_term s, le_command = c,
      le_trigger_type = t, le_partition_epoch = partition_epoch s,
      le_timestamp = fst (wall_time (env s))\<rparr>"

definition wall_env :: "coordinator \<Rightarrow> world" where
  "wall_env s = snd (wall_time (env s))"

lemma new_entry_nf: "new_entry c t s = (entry_of c t s, s\<lparr>env := wall_env s\<rparr>)"
  by (simp add: new_entry_def entry_of_def wall_env_def split: prod.split)

lemma entry_of_simps [simp]:
  "le_index (entry_of c t s) = last_log_index s + 1"
  "le_term (entry_of c t s) = current_term s"
  "le_command (entry_of c t s) = c"
  "le_trigger_type (entry_of c t s) = t"
  "le_partition_epoch (entry_of c t s) = partition_epoch s"
  by (simp_all add: entry_of_def)

lemma replicate_entry_frame [frame]:
  "protocol (replicate_entry c t s) = protocol s"
  "node_id (replicate_entry c t s) = node_id s"
  "peers (replicate_entry c t s) = peers s"
  "state (replicate_entry c t s) = state s"
  "current_term (replicate_entry c t s) = current_term s"
  "voted_for (replicate_entry c t s) = voted_for s"
  "votes (replicate_entry c t s) = votes s"
  "log (replicate_entry c t s) = log s @ [entry_of c t s]"
  "commit_index (replicate_entry c t s) = commit_index s"
  "next_index (replicate_entry c t s) = next_index s"
  "match_index (replicate_entry c t s) = match_index s"
  "partition_epoch (replicate_entry c t s) = partition_epoch s"
  "pending_triggers (replicate_entry c t s) = pending_triggers s"
  "batch_buffer (replicate_entry c t s) = batch_buffer s"
  "batch_deadline (replicate_entry c t s) = batch_deadline s"
  "last_sensor (replicate_entry c t s) = last_sensor s"
  "current_leader_id (replicate_entry c t s) = current_leader_id s"
  "leaves (replicate_entry c t s) = leaves s"
  "handoff_sent (replicate_entry c t s) = handoff_sent s"
  "recent_reconciles (replicate_entry c t s) = recent_reconciles s"
  "blocked_senders (replicate_entry c t s) = blocked_senders s"
  "inbox (replicate_entry c t s) = inbox s"
  "leader_changes (replicate_entry c t s) = leader_changes s"
  "peer_batteries (replicate_entry c t s) = peer_batteries s"
  "battery (replicate_entry c t s) = battery s"
  by (simp_all add: replicate_entry_def new_entry_nf now_s_nf append_all_nf Let_def)

lemma replicate_entry_outbox:
  "outbox (replicate_entry c t s) =
     outbox s @ map (\<lambda>r. (r, append_message (s\<lparr>log := log s @ [entry_of c t s]\<rparr>) r)) (peers s)"
  by (simp add: replicate_entry_def new_entry_nf now_s_nf append_all_nf Let_def)

end
