(* ===== verification/Handlers.thy ===== *)
theory Handlers
  imports Frames
begin

text \<open>
  What all handlers share. Everything a coordinator does is a sequence of a few primitive
  moves: updates that touch neither log nor messages, a counted send, a proposed entry, a
  committed index, and, in AppendEntries only, a replaced log. A relation that contains the
  moves and composes therefore contains every handler and every part of the loop; the locale
  proves that once, and each law of the whole node is an interpretation of it.
\<close>

section \<open>Soft updates\<close>

text \<open>
  Log, commit index, messages and identity stay; the term may rise, and the next indices
  stay positive if they were.
\<close>

definition nexts_ok :: "coordinator \<Rightarrow> bool" where
  "nexts_ok s \<longleftrightarrow> (\<forall>v \<in> set (map snd (next_index s)). 1 \<le> v)"

definition soft :: "coordinator \<Rightarrow> coordinator \<Rightarrow> bool" where
  "soft s s' \<longleftrightarrow>
     protocol s' = protocol s \<and> node_id s' = node_id s \<and> peers s' = peers s \<and>
     demo_enabled s' = demo_enabled s \<and> tie_break_s s' = tie_break_s s \<and>
     inbox s' = inbox s \<and> log s' = log s \<and> commit_index s' = commit_index s \<and> outbox s' = outbox s \<and>
     total_messages_sent s' = total_messages_sent s \<and>
     messages_sent_by_type s' = messages_sent_by_type s \<and>
     current_term s \<le> current_term s' \<and> (nexts_ok s \<longrightarrow> nexts_ok s')"

lemma all_dput: "\<forall>x \<in> set d. P (snd x) \<Longrightarrow> P v \<Longrightarrow> \<forall>x \<in> set (dput k v d). P (snd x)"
  by (induction d) auto

lemma nexts_dput:
  "\<forall>x \<in> set d. 1 \<le> snd x \<Longrightarrow> (1 :: int) \<le> v \<Longrightarrow> \<forall>x \<in> set (dput k v d). 1 \<le> snd x"
  by (rule all_dput)

lemma soft_refl [simp]: "soft s s"
  by (simp add: soft_def nexts_ok_def)

lemma soft_trans [trans]: "soft s s1 \<Longrightarrow> soft s1 s2 \<Longrightarrow> soft s s2"
  by (auto simp: soft_def nexts_ok_def)

lemma soft_timer: "soft s (reset_election_timer s)"
  by (simp add: soft_def nexts_ok_def reset_election_timer_nf)

lemma soft_step_down: "current_term s \<le> t \<Longrightarrow> soft s (step_down t s)"
  by (simp add: soft_def nexts_ok_def step_down_def reset_election_timer_nf Let_def)

lemma soft_maybe_step_down: "soft s (if t > current_term s then step_down t s else s)"
  by (simp add: soft_step_down)

lemma soft_check_battery: "soft s (check_battery s)"
  by (simp add: soft_def nexts_ok_def check_battery_def battery_level_nf)

lemma soft_publish: "soft s (publish_status s)"
  by (simp add: soft_def nexts_ok_def publish_status_def battery_level_nf Let_def)

lemma soft_count: "soft s (count_received p s)"
  by (simp add: soft_def nexts_ok_def count_received_def)

lemma soft_provisional: "soft s (enter_provisional_mode s)" "soft s (exit_provisional_mode s)"
  by (simp_all add: soft_def nexts_ok_def enter_provisional_mode_def exit_provisional_mode_def Let_def)

lemma soft_stop: "soft s (stop s)"
  by (simp add: soft_def nexts_ok_def stop_def)

lemma soft_fold: "(\<And>x s. soft s (f x s)) \<Longrightarrow> soft s (fold f xs s)"
proof (induction xs arbitrary: s)
  case Nil
  then show ?case by simp
next
  case (Cons x xs)
  then show ?case using soft_trans [of s "f x s"] by simp
qed

lemma soft_record_latencies: "soft s (record_latencies n t s)"
  unfolding record_latencies_def by (rule soft_fold) (simp add: soft_def nexts_ok_def)

lemma soft_partition_control: "soft s (handle_partition_control sender p s)"
proof -
  have "soft s (s\<lparr>blocked_senders := b\<rparr>)" for b by (simp add: soft_def nexts_ok_def)
  then show ?thesis
    by (auto simp: handle_partition_control_def Let_def soft_def nexts_ok_def enter_provisional_mode_def
        exit_provisional_mode_def)
qed

lemma soft_with_battery: "soft s (with_battery f s)"
  by (simp add: soft_def nexts_ok_def with_battery_def split: prod.split)

lemma soft_demo_control: "soft s (handle_demo_control sender p s)"
  using soft_trans [OF soft_with_battery soft_trans [OF soft_check_battery soft_publish]]
  by (simp add: handle_demo_control_def)

definition acceptable :: "(int \<Rightarrow> bool) \<Rightarrow> payload \<Rightarrow> bool" where
  "acceptable sane p \<longleftrightarrow> (case p of AppendResponse _ _ _ m _ \<Rightarrow> sane m | _ \<Rightarrow> True)"

definition is_append :: "payload \<Rightarrow> bool" where
  "is_append p \<longleftrightarrow> (case p of AppendEntries _ _ _ _ _ _ _ _ \<Rightarrow> True | _ \<Rightarrow> False)"


text \<open>
  Messages any handler may send as they are: AppendEntries are built by
  \<open>send_append_entries\<close> only, and an acknowledged index is never negative.
\<close>

definition ordinary :: "payload \<Rightarrow> bool" where
  "ordinary p \<longleftrightarrow> (case p of AppendEntries _ _ _ _ _ _ _ _ \<Rightarrow> False
     | AppendResponse _ _ _ m _ \<Rightarrow> 0 \<le> m | _ \<Rightarrow> True)"

lemma ordinary_simps [simp]:
  "ordinary (RequestVote t n i j l)" "ordinary (VoteResponse t b n l)"
  "\<not> ordinary (AppendEntries t lead i j es c g ep)"
  "ordinary (AppendResponse t b n m r) \<longleftrightarrow> 0 \<le> m" "ordinary (LivenessPing t lead)"
  "ordinary (LeafRegister n)" "ordinary (LeafRegisterResponse b n t)"
  "ordinary (SensorData n ty v st)" "ordinary (LeadershipHandoff t lead)"
  "ordinary (ReconcileBatch t n cs)"
  by (simp_all add: ordinary_def)


section \<open>Relations closed under the primitive moves\<close>

locale move_rel =
  fixes R :: "coordinator \<Rightarrow> coordinator \<Rightarrow> bool"
  assumes R_trans: "R s s1 \<Longrightarrow> R s1 s2 \<Longrightarrow> R s s2"
    and R_soft: "soft s s1 \<Longrightarrow> R s s1"
    and R_send: "ordinary p \<Longrightarrow> R s (send r p s)"
begin

lemma R_refl: "R s s"
  by (rule R_soft) simp

lemma R_soft_first: "soft s s1 \<Longrightarrow> R s1 s2 \<Longrightarrow> R s s2"
  by (rule R_trans [OF R_soft])

lemma R_then_soft: "R s s1 \<Longrightarrow> soft s1 s2 \<Longrightarrow> R s s2"
  by (rule R_trans [OF _ R_soft])

lemma R_fold: "(\<And>x s. R s (f x s)) \<Longrightarrow> R s (fold f xs s)"
proof (induction xs arbitrary: s)
  case Nil
  then show ?case by (simp add: R_refl)
next
  case (Cons x xs)
  then show ?case using R_trans [of s "f x s"] by simp
qed

lemma R_broadcast: "ordinary p \<Longrightarrow> R s (broadcast p s)"
  using R_send [of p s "''*''"] by (simp add: broadcast_def send_def)

lemma R_send_all: "ordinary p \<Longrightarrow> R s (send_all rs p s)"
  unfolding send_all_def by (rule R_fold) (rule R_send)

end

text \<open>
  The handlers other than AppendEntries also propose, commit and take acknowledgements; the
  relation may ask something of the acknowledged index.
\<close>

locale handler_rel = move_rel +
  fixes sane :: "int \<Rightarrow> bool"
  assumes R_send_append: "R s (send_append_entries peer s)"
    and R_propose: "R s (s\<lparr>log := log s @ [entry_of c t s]\<rparr>)"
    and R_commit: "committable s n \<Longrightarrow> commit_index s < n \<Longrightarrow> n \<le> length (log s) \<Longrightarrow>
      R s (s\<lparr>commit_index := n\<rparr>)"
    and R_ack: "sane m \<Longrightarrow> R s (s\<lparr>next_index := dput peer (m + 1) (next_index s),
      match_index := dput peer m (match_index s)\<rparr>)"
begin

lemma R_append_all: "R s (fold send_append_entries ps s)"
  by (rule R_fold) (rule R_send_append)

lemma R_heartbeats: "R s (send_heartbeats s)"
  by (simp add: send_heartbeats_def R_append_all)

lemma R_replicate: "R s (replicate_entry c t s)"
proof -
  define s1 where "s1 = s\<lparr>log := log s @ [entry_of c t s]\<rparr>"
  define s2 where "s2 = (s\<lparr>env := wall_env s, log := log s @ [entry_of c t s]\<rparr>)"
  define s3 where "s3 = s2\<lparr>env := tick_env s2,
       pending_latency := dput (le_index (entry_of c t s)) (time_of s2) (pending_latency s2)\<rparr>"
  have "soft s1 s3" by (simp add: s1_def s3_def s2_def soft_def nexts_ok_def)
  moreover have "R s s1" unfolding s1_def by (rule R_propose)
  moreover have "replicate_entry c t s = fold send_append_entries (peers s3) s3"
    by (simp add: replicate_entry_def new_entry_nf now_s_nf Let_def s3_def s2_def)
  ultimately show ?thesis
    using R_trans [OF R_then_soft R_append_all] by metis
qed

lemma R_replicate_each: "R s (replicate_each cs s)"
  unfolding replicate_each_def by (rule R_fold) (simp add: R_replicate split: prod.split)

lemma R_ping: "R s (send_liveness_ping s)"
proof -
  have "R s (s1\<lparr>ping_interval_s := t\<rparr>)" if "R s s1" for s1 t
    using that by (rule R_then_soft) (simp add: soft_def nexts_ok_def)
  then show ?thesis
    by (simp add: send_liveness_ping_def Let_def R_broadcast R_send_all ping_def)
qed

lemma R_keepalives: "R s (send_leaf_keepalives s)"
  by (simp add: send_leaf_keepalives_def R_send_all ping_def)

lemma R_flush_batch: "R s (flush_batch s)"
proof (cases "batch_buffer s = []")
  case True
  then show ?thesis by (simp add: flush_batch_def R_soft soft_def nexts_ok_def)
next
  case False
  define s1 where "s1 = s\<lparr>batch_buffer := [], batch_deadline := None\<rparr>"
  define s2 where "s2 = s1\<lparr>env := tick_env s1, last_consensus_activity := time_of s1\<rparr>"
  have "soft s s2" by (simp add: s2_def s1_def soft_def nexts_ok_def)
  then have "R s (replicate_entry c ''delta'' s2)" for c
    by (rule R_soft_first) (rule R_replicate)
  moreover have "flush_batch s = replicate_entry
      (if length (batch_buffer s) = 1 then hd (batch_buffer s) else batch (batch_buffer s))
      ''delta'' s2"
    using False by (simp add: flush_batch_def now_s_nf Let_def s2_def s1_def)
  ultimately show ?thesis by simp
qed

lemma R_buffer_command: "R s (buffer_command c s)"
proof -
  define s1 where "s1 = s\<lparr>batch_buffer := batch_buffer s @ [c]\<rparr>"
  define s2 where "s2 = (if batch_deadline s1 = None
      then s1\<lparr>env := tick_env s1, batch_deadline := Some (time_of s1 + BATCH_WINDOW_S)\<rparr>
      else s1)"
  have "soft s s2" by (simp add: s2_def s1_def soft_def nexts_ok_def)
  moreover have "buffer_command c s =
      (if length (batch_buffer s2) \<ge> MAX_BATCH_SIZE then flush_batch s2 else s2)"
    by (simp add: buffer_command_def now_s_nf Let_def s2_def s1_def)
  ultimately show ?thesis using R_soft_first [OF _ R_flush_batch] R_soft by simp
qed

lemma R_sensor_data:
  assumes "ordinary p"
  shows "R s (handle_sensor_data sender p s)"
proof -
  have soft: "soft s (s\<lparr>last_sensor := d\<rparr>)" "soft s (s\<lparr>pending_triggers := ts\<rparr>)" for d ts
    by (simp_all add: soft_def nexts_ok_def)
  have *: "R s (buffer_command c (s\<lparr>last_sensor := d\<rparr>))"
    "R s (replicate_entry c t (s\<lparr>last_sensor := d\<rparr>))" for c d t
    by (rule R_soft_first [OF soft(1)], rule R_buffer_command)
      (rule R_soft_first [OF soft(1)], rule R_replicate)
  show ?thesis
    by (simp add: handle_sensor_data_def Let_def * R_send [OF assms] R_replicate R_refl R_soft [OF soft(2)]
        split: option.split)
qed

lemma R_flush_pending: "R s (flush_pending_triggers s)"
proof -
  define s1 where "s1 = s\<lparr>pending_triggers := []\<rparr>"
  define s2 where "s2 = s1\<lparr>env := tick_env s1, last_consensus_activity := time_of s1\<rparr>"
  have "soft s s2" by (simp add: s2_def s1_def soft_def nexts_ok_def)
  then have "R s (replicate_entry c t s2)" "R s (replicate_each cs s2)" for c t cs
    by (blast intro: R_soft_first R_replicate R_replicate_each)+
  then show ?thesis
    by (simp add: flush_pending_triggers_def now_s_nf Let_def s2_def s1_def R_refl)
qed

lemma R_reconcile_batch: "R s (handle_reconcile_batch sender p s)"
proof -
  obtain fresh recent where f: "fresh_commands (recent_reconciles s) (py_get (rb_commands p) []) =
      (fresh, recent)"
    by fastforce
  define s1 where "s1 = s\<lparr>recent_reconciles := trim_reconciles recent\<rparr>"
  define s2 where "s2 = s1\<lparr>env := tick_env s1, last_consensus_activity := time_of s1\<rparr>"
  have "soft s s1" "soft s s2" by (simp_all add: s2_def s1_def soft_def nexts_ok_def)
  then have "R s s1" "R s (replicate_entry c t s2)" "R s (replicate_each cs s2)" for c t cs
    by (blast intro: R_soft R_soft_first R_replicate R_replicate_each)+
  then show ?thesis
    by (simp add: handle_reconcile_batch_def f Let_def now_s_nf R_refl s1_def s2_def)
qed

lemma R_initiate_handoff: "R s (initiate_handoff s)"
proof -
  define s1 where "s1 = s\<lparr>handoff_sent := True\<rparr>"
  define s2 where "s2 = s1\<lparr>battery := bat_of s1, env := env_of s1\<rparr>"
  have s2: "soft s s2" by (simp add: s2_def s1_def soft_def nexts_ok_def)
  have "soft s3 (reset_election_timer (s3\<lparr>state := Follower\<rparr>))" for s3
    by (rule soft_trans [OF _ soft_timer]) (simp add: soft_def nexts_ok_def)
  then have "R s (reset_election_timer ((send r m s2)\<lparr>state := Follower\<rparr>))" if "ordinary m" for r m
    using R_soft_first [OF s2 R_then_soft [OF R_send [OF that]]] by blast
  then show ?thesis
    using R_soft [OF s2]
    by (simp add: initiate_handoff_def battery_level_nf Let_def s2_def s1_def
        split: list.split prod.split)
qed

lemma R_start_election: "R s (start_election s)"
proof (cases "state s = Observer")
  case True
  then show ?thesis by (simp add: start_election_def R_refl)
next
  case False
  define s1 where "s1 = s\<lparr>current_term := current_term s + 1, state := Candidate,
                  voted_for := Some (node_id s), current_leader_id := None\<rparr>"
  define s2 where "s2 = s1\<lparr>battery := bat_of s1, env := env_of s1, votes := [(node_id s, lvl_of s1)]\<rparr>"
  have "soft s s2" by (simp add: s2_def s1_def soft_def nexts_ok_def)
  then have "soft s (reset_election_timer s2)" using soft_timer by (rule soft_trans)
  then have "R s (send_all ps m (reset_election_timer s2))" if "ordinary m" for ps m
    using that by (blast intro: R_soft_first R_send_all)
  then show ?thesis
    using False
    by (simp add: start_election_def battery_level_nf Let_def s2_def s1_def vote_request_def)
qed

lemma R_leadership_handoff: "R s (handle_leadership_handoff sender p s)"
  by (simp add: handle_leadership_handoff_def R_refl R_start_election
      R_soft_first [OF soft_step_down R_start_election])

lemma R_leaf_register: "R s (handle_leaf_register sender p s)"
proof -
  have "soft s (s\<lparr>leaves := ls\<rparr>)" for ls by (simp add: soft_def nexts_ok_def)
  then show ?thesis
    by (simp add: handle_leaf_register_def Let_def R_soft_first [OF _ R_send])
qed

lemma R_liveness: "R s (handle_liveness_ping sender p s)"
proof -
  have "soft s1 (s1\<lparr>current_leader_id := l\<rparr>)" for s1 :: coordinator and l
    by (simp add: soft_def nexts_ok_def)
  then have "soft s (reset_election_timer
      ((if lp_term p > current_term s then step_down (lp_term p) s else s)
         \<lparr>current_leader_id := l\<rparr>))" for l
    by (blast intro: soft_trans [OF soft_maybe_step_down] soft_trans [OF _ soft_timer])
  then show ?thesis
    by (simp add: handle_liveness_ping_def Let_def R_refl R_soft)
qed

lemma R_request_vote: "R s (handle_request_vote sender p s)"
proof -
  define s1 where "s1 = (if rv_term p > current_term s then step_down (rv_term p) s else s)"
  define s2 where "s2 = (if grants_vote p s1
      then reset_election_timer (s1\<lparr>voted_for := Some (rv_candidate_id p)\<rparr>) else s1)"
  have "soft s s1" unfolding s1_def by (rule soft_maybe_step_down)
  moreover have "soft s1 (s1\<lparr>voted_for := v\<rparr>)" for v by (simp add: soft_def nexts_ok_def)
  then have "soft s1 s2" by (simp add: s2_def soft_trans [OF _ soft_timer])
  moreover have "soft s2 (s2\<lparr>battery := bat_of s2, env := env_of s2\<rparr>)" by (simp add: soft_def nexts_ok_def)
  ultimately have "soft s (s2\<lparr>battery := bat_of s2, env := env_of s2\<rparr>)"
    by (blast intro: soft_trans)
  then have "R s (send r (VoteResponse t g n l) (s2\<lparr>battery := bat_of s2, env := env_of s2\<rparr>))"
    for r t g n l
    by (rule R_soft_first) (simp add: R_send)
  then show ?thesis
    by (simp only: handle_request_vote_def Let_def s1_def [symmetric] s2_def [symmetric]
        battery_level_nf prod.case)
qed

lemma R_become_leader: "R s (become_leader s)"
proof -
  let ?f = "\<lambda>peer s. s\<lparr>next_index := dput peer (last_log_index s + 1) (next_index s),
                  match_index := dput peer 0 (match_index s)\<rparr>"
  define s1 where "s1 = s\<lparr>state := Leader, leader_changes := leader_changes s + 1,
                current_leader_id := Some (node_id s)\<rparr>"
  define s2 where "s2 = fold ?f (peers s1) s1"
  define s3 where "s3 = s2\<lparr>handoff_sent := False, ping_interval_s := LIVENESS_PING_INTERVAL\<rparr>"
  define s4 where "s4 = s3\<lparr>env := tick_env s3, last_consensus_activity := time_of s3\<rparr>"
  define s5 where "s5 = s4\<lparr>env := tick_env s4, last_ping_time := time_of s4\<rparr>"
  have "R s s1" by (rule R_soft) (simp add: s1_def soft_def nexts_ok_def)
  moreover have "R s1 s2"
    unfolding s2_def
    by (rule R_fold, rule R_soft) (simp add: soft_def nexts_ok_def last_log_index_def, intro impI nexts_dput,
        simp_all)
  moreover have "R s2 s5"
    by (rule R_soft) (simp add: s5_def s4_def s3_def soft_def nexts_ok_def)
  moreover have "R s5 (if protocol s5 = Raft then send_heartbeats s5 else send_liveness_ping s5)"
    by (simp add: R_heartbeats R_ping)
  ultimately have "R s (flush_pending_triggers
      (if protocol s5 = Raft then send_heartbeats s5 else send_liveness_ping s5))"
    by (blast intro: R_trans R_flush_pending)
  then show ?thesis
    by (simp only: become_leader_def now_s_nf Let_def prod.case s1_def s2_def s3_def s4_def
        s5_def)
qed

lemma R_vote_response: "R s (handle_vote_response sender p s)"
proof -
  have "soft s (s\<lparr>votes := v\<rparr>)" for v by (simp add: soft_def nexts_ok_def)
  then show ?thesis
    by (simp add: handle_vote_response_def Let_def R_soft soft_step_down R_refl R_become_leader
        R_soft_first [OF _ R_become_leader])
qed

lemma R_scan_commit:
  "\<forall>n \<in> set ns. commit_index s < n \<and> n \<le> length (log s) \<Longrightarrow> R s (scan_commit s ns)"
proof (induction ns)
  case Nil
  then show ?case by (simp add: R_refl)
next
  case (Cons n ns)
  show ?case
  proof (cases "committable s n")
    case True
    define s1 where "s1 = s\<lparr>commit_index := n\<rparr>"
    have "R s s1" using True Cons.prems by (simp add: s1_def R_commit)
    moreover have "soft s1 (s1\<lparr>env := tick_env s1\<rparr>)" by (simp add: soft_def nexts_ok_def)
    ultimately have "R s (record_latencies n (time_of s1) (s1\<lparr>env := tick_env s1\<rparr>))"
      using soft_record_latencies by (blast intro: R_then_soft soft_trans)
    with True show ?thesis by (simp add: now_s_nf s1_def)
  next
    case False
    with Cons show ?thesis by simp
  qed
qed

lemma R_append_response:
  assumes "sane (ar_match_index p)"
  shows "R s (handle_append_response sender p s)"
proof (cases "ar_term p > current_term s")
  case True
  then show ?thesis by (simp add: handle_append_response_def R_soft soft_step_down)
next
  case False
  define s1 where "s1 = (case ar_responder_battery p of
      None \<Rightarrow> s | Some b \<Rightarrow> s\<lparr>peer_batteries := dput sender b (peer_batteries s)\<rparr>)"
  have s1: "soft s s1" by (auto simp: s1_def soft_def nexts_ok_def split: option.split)
  define s2 where "s2 = s1\<lparr>next_index := dput sender (ar_match_index p + 1) (next_index s1),
                     match_index := dput sender (ar_match_index p) (match_index s1)\<rparr>"
  have "R s s2"
    unfolding s2_def using assms by (intro R_soft_first [OF s1] R_ack)
  moreover have "R s2 (try_advance_commit s2)"
    unfolding try_advance_commit_def commit_range_def by (rule R_scan_commit) auto
  ultimately have "R s (try_advance_commit s2)" by (rule R_trans)
  moreover have "soft s (s1\<lparr>next_index := dput sender (max 1 v) (next_index s1)\<rparr>)" for v
    using s1 by (rule soft_trans) (simp add: soft_def nexts_ok_def, intro impI nexts_dput, simp_all)
  moreover have "handle_append_response sender p s =
      (if state s1 \<noteq> Leader then s1
       else if ar_success p then try_advance_commit s2
       else s1\<lparr>next_index :=
              dput sender (max 1 (dget_or (next_index s1) sender 1 - 1)) (next_index s1)\<rparr>)"
    using False
    by (simp only: handle_append_response_def s1_def [symmetric] s2_def [symmetric] Let_def if_False)
  ultimately show ?thesis using R_soft s1 by simp
qed

lemma R_tick: "R s (tick s)"
proof -
  have stamped: "R s (s1\<lparr>last_ping_time := t\<rparr>)" "R s (s1\<lparr>last_leaf_keepalive := t\<rparr>)"
    if "R s s1" for s s1 t
    by (rule R_then_soft [OF that], simp add: soft_def nexts_ok_def)+
  have echod: "R s (tick_echod now s)" for s now
  proof -
    define s1 where "s1 = (if batch_due now s then flush_batch s else s)"
    define s2 where "s2 = (if now - last_ping_time s1 \<ge> ping_interval_s s1
                 then (send_liveness_ping s1)\<lparr>last_ping_time := now\<rparr> else s1)"
    define s3 where "s3 = s2\<lparr>battery := bat_of s2, env := env_of s2\<rparr>"
    have "R s s1" by (simp add: s1_def R_flush_batch R_refl)
    moreover have "R s1 s2" by (simp add: s2_def R_refl stamped [OF R_ping])
    moreover have "R s2 s3" by (rule R_soft) (simp add: s3_def soft_def nexts_ok_def)
    ultimately have "R s s3" by (blast intro: R_trans)
    moreover have "tick_echod now s =
        (if lvl_of s2 < T_HANDOFF \<and> \<not> handoff_sent s3 then initiate_handoff s3 else s3)"
      by (simp add: tick_echod_def Let_def s1_def [symmetric] s2_def [symmetric]
          battery_level_nf s3_def)
    ultimately show ?thesis using R_trans R_initiate_handoff by simp
  qed
  define s1 where "s1 = s\<lparr>env := tick_env s\<rparr>"
  define s2 where "s2 = (if leading s1
                    then (case protocol s1 of
                        Raft \<Rightarrow> tick_raft (time_of s) s1
                      | Echod \<Rightarrow> tick_echod (time_of s) s1
                      | Echo \<Rightarrow> tick_echo (time_of s) s1)
                    else if time_of s \<ge> election_deadline s1 then start_election s1
                    else s1)"
  have "R s1 s2"
    by (auto simp: s2_def tick_raft_def tick_echo_def R_refl R_start_election echod
        stamped [OF R_ping] stamped [OF R_heartbeats] split: protocol.split)
  moreover have "soft s s1" by (simp add: s1_def soft_def nexts_ok_def)
  ultimately have "R s s1" "R s s2" by (simp_all add: R_soft R_soft_first)
  moreover have "tick s = (if state s1 = Observer then s1
      else if keepalive_due (time_of s) s2
      then (send_leaf_keepalives s2)\<lparr>last_leaf_keepalive := time_of s\<rparr> else s2)"
    by (simp only: tick_def now_s_nf Let_def prod.case s1_def s2_def)
  ultimately show ?thesis using R_trans [OF _ stamped(2) [OF R_keepalives]] by simp
qed

lemma R_handle:
  assumes "handle sender p s = Inr s'" and "\<not> is_append p" and "acceptable sane p"
  shows "R s s'"
proof -
  note rules = R_refl R_request_vote R_vote_response R_append_response R_liveness
    R_leaf_register R_sensor_data R_leadership_handoff R_reconcile_batch
    R_soft [OF soft_partition_control] R_soft [OF soft_demo_control]
  show ?thesis
    using assms by (cases p) (auto simp: handle_def is_append_def acceptable_def
        intro: rules)
qed

lemma R_receive:
  assumes "receive sender p s = Inr s'" and "\<not> is_append p" and "acceptable sane p"
  shows "R s s'"
  using R_soft_first [OF soft_count R_handle] assms by (simp add: receive_def)

end

text \<open>AppendEntries needs free hands on log and commit index instead.\<close>

locale append_rel = move_rel +
  assumes R_set_log: "R s (s\<lparr>log := l\<rparr>)"
    and R_set_commit: "R s (s\<lparr>commit_index := n\<rparr>)"
begin

lemma R_replay: "R s (replay_provisional es s)"
  by (simp add: replay_provisional_def Let_def R_refl R_send split: option.split)

lemma R_append_entry: "append_entry e s = Inr s' \<Longrightarrow> R s s'"
  using R_trans [OF R_set_log R_replay] R_set_log R_refl
  by (auto simp: append_entry_def Let_def split: if_splits option.splits)

lemma R_append_loop: "append_loop es s = Inr s' \<Longrightarrow> R s s'"
proof (induction es arbitrary: s)
  case Nil
  then show ?case by (simp add: R_refl)
next
  case (Cons e es)
  then obtain s1 where "append_entry e s = Inr s1" "append_loop es s1 = Inr s'"
    by (auto simp: bind_Inr_iff)
  then show ?case using Cons.IH R_append_entry R_trans by blast
qed

lemma R_respond:
  assumes "0 \<le> m"
  shows "R s (append_response ok m r s)"
proof -
  have "soft s (s\<lparr>battery := bat_of s, env := env_of s\<rparr>)" by (simp add: soft_def nexts_ok_def)
  then show ?thesis
    by (simp add: append_response_def battery_level_nf R_soft_first [OF _ R_send] assms)
qed

lemma R_append_entries:
  assumes "handle_append_entries sender p s = Inr s'"
  shows "R s s'"
proof -
  define s1 where "s1 = (if ae_term p > current_term s then step_down (ae_term p) s else s)"
  define s2 where "s2 = (reset_election_timer s1)
      \<lparr>current_leader_id := Some (py_get (ae_leader_id p) sender)\<rparr>"
  define s3 where "s3 = (if state s2 = Candidate then s2\<lparr>state := Follower\<rparr> else s2)"
  have s1: "soft s s1" unfolding s1_def by (rule soft_maybe_step_down)
  have "soft s1 s2" unfolding s2_def by (rule soft_trans [OF soft_timer]) (simp add: soft_def nexts_ok_def)
  moreover have "soft s2 s3" by (simp add: s3_def soft_def nexts_ok_def)
  ultimately have s3: "soft s s3" using s1 by (blast intro: soft_trans)
  have "R s (append_response ok 0 r s1)" "R s (append_response ok 0 r s3)" for ok r
    by (rule R_soft_first [OF s1 R_respond], simp) (rule R_soft_first [OF s3 R_respond], simp)
  moreover have "R s (append_response ok (int n) r (advance_follower_commit c s4))"
    if "append_loop es s3 = Inr s4" for ok n r c es s4
  proof -
    have "R s4 (advance_follower_commit c s4)"
      by (simp add: advance_follower_commit_def R_set_commit R_refl)
    with R_soft_first [OF s3 R_append_loop [OF that]]
    have "R s (advance_follower_commit c s4)" by (rule R_trans)
    then show ?thesis by (rule R_trans) (simp add: R_respond)
  qed
  moreover have "(if ae_term p < current_term s1 then Inr (append_response False 0 sender s1)
      else if \<not> prev_matches (log s3) (ae_prev_log_index p) (ae_prev_log_term p)
      then Inr (reject_append sender s3)
      else bind (append_loop (py_get (ae_entries p) []) s3) (\<lambda>s.
        Inr (append_response True
          (int (length (log (advance_follower_commit (py_get (ae_leader_commit p) 0) s)))) sender
          (advance_follower_commit (py_get (ae_leader_commit p) 0) s)))) = Inr s'"
    using assms
    by (simp only: handle_append_entries_def s1_def [symmetric] s2_def [symmetric]
        s3_def [symmetric] Let_def)
  ultimately show ?thesis
    by (auto simp: reject_append_def bind_Inr_iff split: if_splits)
qed

end

text \<open>A relation closed under both contains everything a coordinator does.\<close>

locale node_rel = handler_rel R "\<lambda>_. True" + append_rel R
  for R :: "coordinator \<Rightarrow> coordinator \<Rightarrow> bool" +
  assumes R_inbox: "R s (s\<lparr>inbox := q\<rparr>)"
begin

lemma R_receive_any:
  assumes "receive sender p s = Inr s'"
  shows "R s s'"
proof (cases "is_append p")
  case True
  then have "handle_append_entries sender p (count_received p s) = Inr s'"
    using assms by (cases p) (auto simp: receive_def handle_def is_append_def)
  then show ?thesis using R_append_entries R_soft_first [OF soft_count] by blast
next
  case False
  with assms show ?thesis
    by (rule R_receive) (simp add: acceptable_def split: payload.split)
qed

lemma R_drain: "drain q s = Inr s' \<Longrightarrow> R s s'"
proof (induction q arbitrary: s)
  case Nil
  then show ?case by (simp add: R_refl)
next
  case (Cons m q)
  obtain f p where m: "m = (f, p)" by (cases m)
  obtain s1 where s1: "receive f p (s\<lparr>inbox := Some q\<rparr>) = Inr s1" "drain q s1 = Inr s'"
    using Cons.prems m by (auto simp: bind_Inr_iff)
  have "R s s1" using R_inbox R_receive_any [OF s1(1)] by (rule R_trans)
  then show ?case using Cons.IH [OF s1(2)] by (rule R_trans)
qed

lemma R_iteration:
  assumes "run_iteration s = Inr s'"
  shows "R s s'"
proof -
  obtain s1 where s1: "drain_inbox s = Inr s1"
    and s': "s' = publish_status (tick (check_battery s1))"
    using assms by (auto simp: run_iteration_def bind_Inr_iff)
  have "R s s1" using s1 R_drain R_refl by (auto simp: drain_inbox_def split: option.splits)
  moreover have "R s1 (tick (check_battery s1))"
    by (rule R_soft_first [OF soft_check_battery R_tick])
  ultimately show ?thesis
    unfolding s' by (blast intro: R_trans R_then_soft soft_publish)
qed

end

end
