(* ===== verification/FollowerLog.thy ===== *)
theory FollowerLog
  imports Frames
begin

text \<open>
  The follower's side of log replication against a reference: what an accepted
  AppendEntries leaves of the log, when it raises, and what a rejected one leaves alone.
\<close>

section \<open>The reference: splicing entries into a log\<close>

text \<open>
  Entries go in from position \<open>k\<close>. While the log holds an entry of the same term there,
  that entry stays; at the first position where it does not, the rest of the log gives way
  to the rest of the entries.
\<close>

fun graft :: "log_entry list \<Rightarrow> nat \<Rightarrow> log_entry list \<Rightarrow> log_entry list" where
  "graft l k [] = l"
| "graft l k (e # es) =
     (if k < length l \<and> le_term (l ! k) = le_term e then graft l (Suc k) es
      else take k l @ e # es)"

lemma graft_end: "graft l (length l) es = l @ es"
  by (cases es) simp_all

lemma graft_prefix: "k \<le> length l \<Longrightarrow> take k (graft l k es) = take k l"
proof (induction es arbitrary: k)
  case Nil
  then show ?case by simp
next
  case (Cons e es)
  show ?case
  proof (cases "k < length l \<and> le_term (l ! k) = le_term e")
    case True
    then have "take k (take (Suc k) (graft l (Suc k) es)) = take k (take (Suc k) l)"
      using Cons.IH [of "Suc k"] by simp
    then show ?thesis using True by (simp add: min_def)
  next
    case False
    then show ?thesis using Cons.prems by auto
  qed
qed

lemma graft_length: "k \<le> length l \<Longrightarrow> k + length es \<le> length (graft l k es)"
  by (induction l k es rule: graft.induct) auto

lemma graft_nth: "j < k \<Longrightarrow> k \<le> length l \<Longrightarrow> graft l k es ! j = l ! j"
  by (metis nth_take graft_prefix)

text \<open>After the graft the log has the entries' terms at their positions.\<close>

lemma graft_terms:
  "k \<le> length l \<Longrightarrow> j < length es \<Longrightarrow> le_term (graft l k es ! (k + j)) = le_term (es ! j)"
proof (induction l k es arbitrary: j rule: graft.induct)
  case (1 l k)
  then show ?case by simp
next
  case (2 l k e es)
  show ?case
  proof (cases "k < length l \<and> le_term (l ! k) = le_term e")
    case True
    show ?thesis
    proof (cases j)
      case 0
      then show ?thesis using True graft_nth [of k "Suc k" l es] by simp
    next
      case (Suc j')
      then show ?thesis using True 2 by simp
    qed
  next
    case False
    then show ?thesis using "2.prems" by (auto simp: nth_append)
  qed
qed

lemma graft_same:
  assumes "k + length es \<le> length l" and "\<forall>j < length es. le_term (l ! (k + j)) = le_term (es ! j)"
  shows "graft l k es = l"
  using assms
proof (induction es arbitrary: k)
  case Nil
  then show ?case by simp
next
  case (Cons e es)
  have "le_term (l ! k) = le_term e" using Cons.prems(2) by (metis Nat.add_0_right length_greater_0_conv list.discI nth_Cons_0)
  moreover have "\<forall>j < length es. le_term (l ! (Suc k + j)) = le_term (es ! j)"
    using Cons.prems(2) by (metis Suc_less_eq add_Suc add_Suc_right length_Cons nth_Cons_Suc)
  ultimately show ?case using Cons.IH [of "Suc k"] Cons.prems(1) by simp
qed

lemma graft_idem: "k \<le> length l \<Longrightarrow> graft (graft l k es) k es = graft l k es"
  by (rule graft_same) (simp_all add: graft_length graft_terms)


section \<open>Numbered logs\<close>

text \<open>Entry \<open>k\<close> of a log has index \<open>k + 1\<close>; a batch starts after \<open>k\<close>.\<close>

definition numbered :: "nat \<Rightarrow> log_entry list \<Rightarrow> bool" where
  "numbered k es \<longleftrightarrow> (\<forall>j < length es. le_index (es ! j) = int (k + j + 1))"

lemma numbered_Nil [simp]: "numbered k []"
  by (simp add: numbered_def)

lemma numbered_Cons [simp]:
  "numbered k (e # es) \<longleftrightarrow> le_index e = int (k + 1) \<and> numbered (Suc k) es"
  by (auto simp: numbered_def less_Suc_eq_0_disj)

lemma numbered_append [simp]:
  "numbered k (es @ fs) \<longleftrightarrow> numbered k es \<and> numbered (k + length es) fs"
  by (induction es arbitrary: k) auto

lemma numbered_take: "numbered k es \<Longrightarrow> numbered k (take n es)"
  by (simp add: numbered_def)

lemma numbered_drop: "numbered k es \<Longrightarrow> numbered (k + n) (drop n es)"
  by (simp add: numbered_def algebra_simps)

lemma numbered_graft:
  "numbered 0 l \<Longrightarrow> k \<le> length l \<Longrightarrow> numbered k es \<Longrightarrow> numbered 0 (graft l k es)"
proof (induction es arbitrary: k)
  case Nil
  then show ?case by simp
next
  case (Cons e es)
  then show ?case
    using numbered_take [OF Cons.prems(1), of k] by (auto simp: min_def)
qed


section \<open>The loop computes the graft\<close>

lemma replay_provisional_log [simp]:
  "log (replay_provisional es s) = log s"
  "commit_index (replay_provisional es s) = commit_index s"
  "current_term (replay_provisional es s) = current_term s"
  "current_leader_id (replay_provisional es s) = current_leader_id s"
  by (simp_all add: replay_provisional_def send_def split: option.split)

lemma append_entry_log:
  assumes "le_index e = int (k + 1)" and "k \<le> length (log s)"
  obtains s' where "append_entry e s = Inr s'" and "log s' = graft (log s) k [e]"
    and "commit_index s' = commit_index s" and "current_term s' = current_term s"
    and "current_leader_id s' = current_leader_id s"
proof (cases "k < length (log s)")
  case True
  then have "py_nth (log s) (le_index e - 1) = Some (log s ! k)"
    using assms(1) by simp
  moreover have "py_upto (log s) (int k) = take k (log s)"
    by (simp add: py_upto_nonneg)
  ultimately have "append_entry e s = Inr (if le_term (log s ! k) \<noteq> le_term e
      then replay_provisional (py_from (log s) (int k)) (s\<lparr>log := take k (log s) @ [e]\<rparr>)
      else s)"
    using True assms(1) by (simp add: append_entry_def Let_def)
  then show ?thesis by (rule that) (use True in auto)
next
  case False
  then show ?thesis
    using assms that by (auto simp: append_entry_def)
qed

lemma graft_Cons:
  assumes "k \<le> length l" and "numbered k (e # es)"
  shows "graft (graft l k [e]) (Suc k) es = graft l k (e # es)"
proof (cases "k < length l \<and> le_term (l ! k) = le_term e")
  case False
  then have "graft l k [e] = take k l @ [e]" by auto
  moreover have "length (take k l @ [e]) = Suc k" using assms(1) by simp
  ultimately have "graft (graft l k [e]) (Suc k) es = (take k l @ [e]) @ es"
    using graft_end by metis
  then show ?thesis using False by auto
qed simp

lemma append_loop_graft:
  assumes "numbered k es" and "k \<le> length (log s)"
  shows "\<exists>s'. append_loop es s = Inr s' \<and> log s' = graft (log s) k es \<and>
     commit_index s' = commit_index s \<and> current_term s' = current_term s \<and>
     current_leader_id s' = current_leader_id s"
  using assms
proof (induction es arbitrary: k s)
  case Nil
  then show ?case by simp
next
  case (Cons e es)
  obtain s1 where s1: "append_entry e s = Inr s1" "log s1 = graft (log s) k [e]"
    "commit_index s1 = commit_index s" "current_term s1 = current_term s"
    "current_leader_id s1 = current_leader_id s"
    using append_entry_log [of e k s] Cons.prems by auto
  have "Suc k \<le> length (log s1)"
    using graft_length [OF Cons.prems(2), of "[e]"] s1(2) by simp
  then obtain s' where s': "append_loop es s1 = Inr s'" "log s' = graft (log s1) (Suc k) es"
    "commit_index s' = commit_index s1" "current_term s' = current_term s1"
    "current_leader_id s' = current_leader_id s1"
    using Cons.IH [of "Suc k" s1] Cons.prems(1) by auto
  have "log s' = graft (log s) k (e # es)"
    unfolding s'(2) s1(2) by (rule graft_Cons [OF Cons.prems(2,1)])
  with s1 s' show ?case by simp
qed


section \<open>The whole handler\<close>

text \<open>The state in which the handler compares and appends: after the term and the timer.\<close>

definition heard :: "string \<Rightarrow> payload \<Rightarrow> coordinator \<Rightarrow> coordinator" where
  "heard sender p s =
     (let s = (if ae_term p > current_term s then step_down (ae_term p) s else s);
          s = reset_election_timer s;
          s = s\<lparr>current_leader_id := Some (py_get (ae_leader_id p) sender)\<rparr>
      in if state s = Candidate then s\<lparr>state := Follower\<rparr> else s)"

lemma heard_frame:
  "log (heard sender p s) = log s"
  "commit_index (heard sender p s) = commit_index s"
  "current_term (heard sender p s) = max (ae_term p) (current_term s)"
  "current_leader_id (heard sender p s) = Some (py_get (ae_leader_id p) sender)"
  by (simp_all add: heard_def step_down_def reset_election_timer_nf Let_def max_def)

lemma handle_append_entries_heard:
  assumes "current_term s \<le> ae_term p"
  shows "handle_append_entries sender p s =
    (let s1 = heard sender p s
     in if \<not> prev_matches (log s1) (ae_prev_log_index p) (ae_prev_log_term p)
        then Inr (reject_append sender s1)
        else bind (append_loop (py_get (ae_entries p) []) s1) (\<lambda>s.
          let s = advance_follower_commit (py_get (ae_leader_commit p) 0) s
          in Inr (append_response True (int (length (log s))) sender s)))"
proof -
  have "\<not> ae_term p < current_term (step_down (ae_term p) s)"
    by (simp add: step_down_def reset_election_timer_nf Let_def)
  then show ?thesis
    using assms by (simp add: handle_append_entries_def heard_def Let_def)
qed

lemma append_response_frame:
  "log (append_response ok m r s) = log s"
  "commit_index (append_response ok m r s) = commit_index s"
  "current_term (append_response ok m r s) = current_term s"
  "current_leader_id (append_response ok m r s) = current_leader_id s"
  "state (append_response ok m r s) = state s"
  "voted_for (append_response ok m r s) = voted_for s"
  "election_deadline (append_response ok m r s) = election_deadline s"
  "outbox (append_response ok m r s) =
     outbox s @ [(r, AppendResponse (current_term s) ok (node_id s) m (Some (of_int (lvl_of s))))]"
  by (simp_all add: append_response_def battery_level_nf send_def)

text \<open>A message a leader of this program sends: its entries follow its previous index.\<close>

definition well_sent :: "payload \<Rightarrow> bool" where
  "well_sent p \<longleftrightarrow> 0 \<le> ae_prev_log_index p \<and>
     numbered (nat (ae_prev_log_index p)) (py_get (ae_entries p) [])"

lemma accepted_append:
  assumes "current_term s \<le> ae_term p" and "well_sent p"
    and "prev_matches (log s) (ae_prev_log_index p) (ae_prev_log_term p)"
  shows "\<exists>s'. handle_append_entries sender p s = Inr s' \<and>
     log s' = graft (log s) (nat (ae_prev_log_index p)) (py_get (ae_entries p) []) \<and>
     current_term s' = ae_term p \<and>
     current_leader_id s' = Some (py_get (ae_leader_id p) sender) \<and>
     commit_index s' =
       (if py_get (ae_leader_commit p) 0 > int (commit_index s)
        then nat (min (py_get (ae_leader_commit p) 0) (int (length (log s'))))
        else commit_index s) \<and>
     (\<exists>b. last (outbox s') =
        (sender, AppendResponse (ae_term p) True (node_id s') (int (length (log s'))) b))"
proof -
  let ?k = "nat (ae_prev_log_index p)" and ?es = "py_get (ae_entries p) []"
  let ?c = "py_get (ae_leader_commit p) 0" and ?h = "heard sender p s"
  have "?k \<le> length (log ?h)"
    using assms(3) by (auto simp: prev_matches_def heard_frame)
  then obtain s1 where s1: "append_loop ?es ?h = Inr s1" "log s1 = graft (log ?h) ?k ?es"
    "commit_index s1 = commit_index ?h" "current_term s1 = current_term ?h"
    "current_leader_id s1 = current_leader_id ?h"
    using append_loop_graft assms(2) unfolding well_sent_def by blast
  let ?s2 = "advance_follower_commit ?c s1"
  have res: "handle_append_entries sender p s =
      Inr (append_response True (int (length (log ?s2))) sender ?s2)"
    using assms(1,3) s1(1) by (simp add: handle_append_entries_heard heard_frame Let_def)
  have id: "node_id (append_response ok m r s) = node_id s" for ok m r s
    by (simp add: append_response_def battery_level_nf send_def)
  have adv: "log ?s2 = log s1" "current_term ?s2 = current_term s1"
    "current_leader_id ?s2 = current_leader_id s1"
    "commit_index ?s2 = (if ?c > int (commit_index s1)
       then nat (min ?c (int (length (log s1)))) else commit_index s1)"
    by (simp_all add: advance_follower_commit_def)
  show ?thesis
    using assms(1) s1 adv by (simp add: res append_response_frame heard_frame max_def id)
qed


lemma rejected_append:
  assumes "current_term s \<le> ae_term p"
    and "\<not> prev_matches (log s) (ae_prev_log_index p) (ae_prev_log_term p)"
  shows "handle_append_entries sender p s = Inr (reject_append sender (heard sender p s))"
  using assms by (simp add: handle_append_entries_heard heard_frame Let_def)

lemma stale_append:
  assumes "ae_term p < current_term s"
  shows "handle_append_entries sender p s = Inr (append_response False 0 sender s)"
  using assms by (simp add: handle_append_entries_def Let_def)


section \<open>Properties\<close>

text \<open>C6. An accepted AppendEntries leaves exactly the reference log: entries whose terms agree
  stay, from the first disagreement on the message's entries replace the tail. The commit
  index follows the leader's, capped by the log, and the acknowledgement reports the length of
  the whole resulting log.\<close>

theorem append_entries_correct:
  assumes "current_term s \<le> ae_term p" and "well_sent p"
    and "prev_matches (log s) (ae_prev_log_index p) (ae_prev_log_term p)"
  shows "\<exists>s' b. handle_append_entries sender p s = Inr s' \<and>
     log s' = graft (log s) (nat (ae_prev_log_index p)) (py_get (ae_entries p) []) \<and>
     current_term s' = ae_term p \<and>
     current_leader_id s' = Some (py_get (ae_leader_id p) sender) \<and>
     commit_index s' =
       (if py_get (ae_leader_commit p) 0 > int (commit_index s)
        then nat (min (py_get (ae_leader_commit p) 0) (int (length (log s'))))
        else commit_index s) \<and>
     last (outbox s') =
        (sender, AppendResponse (ae_term p) True (node_id s') (int (length (log s'))) b)"
  using accepted_append [OF assms, of sender] by blast

definition entry_at :: "int \<Rightarrow> int \<Rightarrow> log_entry" where
  "entry_at i t = \<lparr>le_index = i, le_term = t, le_command = JNull, le_trigger_type = ''delta'',
     le_partition_epoch = 0, le_timestamp = 0\<rparr>"

definition follower_with :: "log_entry list \<Rightarrow> coordinator" where
  "follower_with l = (blank Raft ''b'' [''a'', ''c''] \<lparr>mock = True, level = 100, drain_rate = 0,
     drain_paused = False, last_read = 0, adc_present = False\<rparr> True second_hand)
     \<lparr>log := l, current_term := 2\<rparr>"

definition append_at :: "int \<Rightarrow> int \<Rightarrow> log_entry list \<Rightarrow> payload" where
  "append_at prev pterm es =
     AppendEntries 3 (Some ''a'') prev pterm (Some es) (Some 2) ''delta'' 0"

lemma entry_at_sel [simp]: "le_index (entry_at i t) = i" "le_term (entry_at i t) = t"
  by (simp_all add: entry_at_def)

lemma follower_with_sel [simp]: "log (follower_with l) = l" "current_term (follower_with l) = 2"
  "commit_index (follower_with l) = 0"
  by (simp_all add: follower_with_def blank_def)

theorem append_entries_correct_witness:
  "\<exists>s'. handle_append_entries ''a'' (append_at 1 1 [entry_at 2 3])
      (follower_with [entry_at 1 1, entry_at 2 2, entry_at 3 2]) = Inr s' \<and>
    log s' = [entry_at 1 1, entry_at 2 3] \<and> commit_index s' = 2"
proof -
  let ?s = "follower_with [entry_at 1 1, entry_at 2 2, entry_at 3 2]"
  have "current_term ?s \<le> ae_term (append_at 1 1 [entry_at 2 3])"
    "well_sent (append_at 1 1 [entry_at 2 3])"
    "prev_matches (log ?s) (ae_prev_log_index (append_at 1 1 [entry_at 2 3]))
       (ae_prev_log_term (append_at 1 1 [entry_at 2 3]))"
    by (simp_all add: append_at_def well_sent_def prev_matches_def)
  from append_entries_correct [OF this, of "''a''"] show ?thesis
    by (auto simp: append_at_def)
qed

text \<open>C15. Receiving the same AppendEntries again changes nothing of the log, and the entries
  before the message's previous index are never touched.\<close>

theorem append_entries_idempotent:
  assumes "current_term s \<le> ae_term p" and "well_sent p"
    and "handle_append_entries sender p s = Inr s1"
    and "handle_append_entries sender p s1 = Inr s2"
  shows "log s2 = log s1 \<and>
    take (nat (ae_prev_log_index p)) (log s1) = take (nat (ae_prev_log_index p)) (log s)"
proof -
  let ?k = "nat (ae_prev_log_index p)" and ?es = "py_get (ae_entries p) []"
  show ?thesis
  proof (cases "prev_matches (log s) (ae_prev_log_index p) (ae_prev_log_term p)")
    case True
    then have k: "?k \<le> length (log s)" by (auto simp: prev_matches_def)
    have s1: "log s1 = graft (log s) ?k ?es" "current_term s1 = ae_term p"
      using accepted_append [OF assms(1,2) True, of sender] assms(3) by auto
    have same: "take ?k (log s1) = take ?k (log s)"
      using s1 graft_prefix [OF k] by simp
    have len: "?k \<le> length (log s1)" using s1 graft_length [OF k, of ?es] by simp
    have "log s1 ! (?k - 1) = log s ! (?k - 1)" if "0 < ?k"
      using that same k len by (metis diff_less nth_take zero_less_one)
    then have "prev_matches (log s1) (ae_prev_log_index p) (ae_prev_log_term p)"
      using True len by (auto simp: prev_matches_def nat_diff_distrib)
    then have "log s2 = graft (log s1) ?k ?es"
      using accepted_append [of s1 p sender] assms(2,4) s1(2) by auto
    then show ?thesis using same s1(1) graft_idem [OF k] by simp
  next
    case False
    then have s1: "log s1 = log s" "current_term s1 = ae_term p"
      using rejected_append [OF assms(1) False, of sender] assms(1,3)
      by (auto simp: reject_append_def append_response_frame heard_frame)
    then have "log s2 = log s1"
      using rejected_append [of s1 p sender] False assms(4)
      by (auto simp: reject_append_def append_response_frame heard_frame)
    with s1 show ?thesis by simp
  qed
qed

theorem append_entries_idempotent_witness:
  "\<exists>s1 s2. handle_append_entries ''a'' (append_at 1 1 [entry_at 2 3])
      (follower_with [entry_at 1 1, entry_at 2 2]) = Inr s1 \<and>
    handle_append_entries ''a'' (append_at 1 1 [entry_at 2 3]) s1 = Inr s2 \<and>
    log s2 = log s1 \<and> log s1 = [entry_at 1 1, entry_at 2 3]"
proof -
  let ?s = "follower_with [entry_at 1 1, entry_at 2 2]" and ?p = "append_at 1 1 [entry_at 2 3]"
  have pre: "current_term ?s \<le> ae_term ?p" "well_sent ?p"
    by (simp_all add: append_at_def well_sent_def)
  have "prev_matches (log ?s) (ae_prev_log_index ?p) (ae_prev_log_term ?p)"
    by (simp add: append_at_def prev_matches_def)
  then obtain s1 where s1: "handle_append_entries ''a'' ?p ?s = Inr s1"
    "log s1 = [entry_at 1 1, entry_at 2 3]" "current_term s1 = 3"
    using accepted_append [OF pre, of "''a''"] by (auto simp: append_at_def)
  then have "current_term s1 \<le> ae_term ?p" by (simp add: append_at_def)
  moreover have "prev_matches (log s1) (ae_prev_log_index ?p) (ae_prev_log_term ?p)"
    by (simp add: s1 append_at_def prev_matches_def)
  ultimately obtain s2 where "handle_append_entries ''a'' ?p s1 = Inr s2"
    using accepted_append [of s1 ?p "''a''"] pre(2) by blast
  then show ?thesis using append_entries_idempotent [OF pre s1(1)] s1 by blast
qed

text \<open>C16. A refused AppendEntries leaves log and commit index alone and answers false with match
  index 0: a stale term changes nothing else of the election state either, and a failed
  consistency check still adopts the sender's term and leader.\<close>

theorem append_entries_refused:
  assumes "ae_term p < current_term s \<or>
    \<not> prev_matches (log s) (ae_prev_log_index p) (ae_prev_log_term p)"
  shows "\<exists>s' b. handle_append_entries sender p s = Inr s' \<and>
    log s' = log s \<and> commit_index s' = commit_index s \<and>
    current_term s' = max (ae_term p) (current_term s) \<and>
    last (outbox s') = (sender, AppendResponse (current_term s') False (node_id s') 0 b) \<and>
    (ae_term p < current_term s \<longrightarrow> state s' = state s \<and> voted_for s' = voted_for s \<and>
       current_leader_id s' = current_leader_id s \<and>
       election_deadline s' = election_deadline s) \<and>
    (current_term s \<le> ae_term p \<longrightarrow>
       current_leader_id s' = Some (py_get (ae_leader_id p) sender))"
proof (cases "ae_term p < current_term s")
  case True
  have "node_id (append_response ok m r s) = node_id s" for ok m r s
    by (simp add: append_response_def battery_level_nf send_def)
  then show ?thesis
    using True by (simp add: stale_append [OF True] append_response_frame)
next
  case False
  have "node_id (append_response ok m r s) = node_id s" for ok m r s
    by (simp add: append_response_def battery_level_nf send_def)
  then show ?thesis
    using False assms rejected_append [of s p sender]
    by (simp add: reject_append_def append_response_frame heard_frame)
qed

theorem append_entries_refused_witness:
  "\<exists>s'. handle_append_entries ''a'' (append_at 5 1 []) (follower_with [entry_at 1 1]) = Inr s' \<and>
     log s' = [entry_at 1 1] \<and> current_term s' = 3"
proof -
  have "\<not> prev_matches (log (follower_with [entry_at 1 1]))
      (ae_prev_log_index (append_at 5 1 [])) (ae_prev_log_term (append_at 5 1 []))"
    by (simp add: append_at_def prev_matches_def)
  then show ?thesis
    using append_entries_refused [of "append_at 5 1 []" "follower_with [entry_at 1 1]" "''a''"]
    by (auto simp: append_at_def)
qed

text \<open>Bad input is not checked: an entry whose index is below 1 and points before the start
  of the log raises IndexError out of the handler, and no other entry does.\<close>

theorem append_entry_raises:
  "case append_entry e s of
     Inl x \<Rightarrow> x = IndexError \<and> le_index e < 1 - int (length (log s))
   | Inr _ \<Rightarrow> le_index e \<ge> 1 - int (length (log s))"
  by (auto simp: append_entry_def py_nth_def Let_def split: if_splits)

end
