(* ===== verification/ElectionSpec.thy ===== *)
theory ElectionSpec
  imports Prelude
begin

text \<open>
  The contract of a leader election, apart from any message format: every member has a
  term, at most one vote in it, a role and a tally; votes that were ever cast and terms
  that were ever won are recorded. A member that loses the memory of its vote is muted, and
  may speak again only in a term it has not voted in. Whatever the members do, one term is
  won by one member at most. The concrete coordinators are shown to refine this machine.
\<close>

section \<open>The abstract election\<close>

datatype role = Idle | Campaigning | Elected | Muted

record 'id ballot =
  b_term :: int
  b_vote :: "'id option"
  b_role :: role
  b_tally :: "'id set"

record 'id poll =
  member :: "'id \<Rightarrow> 'id ballot"
  cast :: "('id \<times> int \<times> 'id) set"
  won :: "(int \<times> 'id) set"

text \<open>Learning of a higher term: the vote is free again and any office is left.\<close>

definition relearn :: "int \<Rightarrow> 'id ballot \<Rightarrow> 'id ballot" where
  "relearn t b = b\<lparr>b_term := t, b_vote := None,
     b_role := (if b_role b = Muted then Muted else Idle)\<rparr>"

inductive poll_step :: "('id set \<Rightarrow> bool) \<Rightarrow> 'id poll \<Rightarrow> 'id poll \<Rightarrow> bool"
  for quorum where
  learn: "b_term (member p v) < t \<Longrightarrow>
     poll_step quorum p (p\<lparr>member := (member p)(v := relearn t (member p v))\<rparr>)"
| campaign: "b_term (member p v) < t \<Longrightarrow>
     poll_step quorum p
       (p\<lparr>member := (member p)(v := \<lparr>b_term = t, b_vote = Some v, b_role = Campaigning,
                                    b_tally = {v}\<rparr>),
          cast := insert (v, t, v) (cast p)\<rparr>)"
| grant: "b_role (member p v) \<noteq> Muted \<Longrightarrow> b_vote (member p v) \<in> {None, Some c} \<Longrightarrow>
     poll_step quorum p
       (p\<lparr>member := (member p)(v := (member p v)\<lparr>b_vote := Some c\<rparr>),
          cast := insert (v, b_term (member p v), c) (cast p)\<rparr>)"
| collect: "b_role (member p v) = Campaigning \<Longrightarrow>
     (u, b_term (member p v), v) \<in> cast p \<Longrightarrow>
     poll_step quorum p
       (p\<lparr>member := (member p)(v := (member p v)\<lparr>b_tally := insert u (b_tally (member p v))\<rparr>)\<rparr>)"
| win: "b_role (member p v) = Campaigning \<Longrightarrow> quorum (b_tally (member p v)) \<Longrightarrow>
     poll_step quorum p
       (p\<lparr>member := (member p)(v := (member p v)\<lparr>b_role := Elected\<rparr>),
          won := insert (b_term (member p v), v) (won p)\<rparr>)"
| resign: "b_role (member p v) \<in> {Campaigning, Elected} \<Longrightarrow>
     poll_step quorum p
       (p\<lparr>member := (member p)(v := (member p v)\<lparr>b_role := Idle\<rparr>)\<rparr>)"
| mute: "poll_step quorum p
       (p\<lparr>member := (member p)(v := (member p v)\<lparr>b_vote := None, b_role := Muted\<rparr>)\<rparr>)"
| unmute: "b_role (member p v) = Muted \<Longrightarrow>
     (\<forall>c. (v, b_term (member p v), c) \<notin> cast p) \<Longrightarrow>
     poll_step quorum p
       (p\<lparr>member := (member p)(v := (member p v)\<lparr>b_role := Idle\<rparr>)\<rparr>)"

text \<open>At the start nobody has voted; members may be at any term, muted or idle.\<close>

definition poll_start :: "'id poll \<Rightarrow> bool" where
  "poll_start p \<longleftrightarrow>
     (\<forall>v. b_role (member p v) \<in> {Idle, Muted}) \<and> cast p = {} \<and> won p = {}"

inductive poll_reach :: "('id set \<Rightarrow> bool) \<Rightarrow> 'id poll \<Rightarrow> bool" for quorum where
  start: "poll_start p \<Longrightarrow> poll_reach quorum p"
| step: "poll_reach quorum p \<Longrightarrow> poll_step quorum p q \<Longrightarrow> poll_reach quorum q"

lemma poll_reach_steps:
  "(poll_step quorum)\<^sup>*\<^sup>* p q \<Longrightarrow> poll_reach quorum p \<Longrightarrow> poll_reach quorum q"
  by (induction rule: rtranclp_induct) (auto intro: poll_reach.step)


section \<open>The invariant\<close>

text \<open>A cast vote is remembered by its voter until the term passes or the voter is muted.\<close>

definition votes_kept :: "'id poll \<Rightarrow> bool" where
  "votes_kept p \<longleftrightarrow> (\<forall>v t c. (v, t, c) \<in> cast p \<longrightarrow>
     t \<le> b_term (member p v) \<and>
     (t = b_term (member p v) \<longrightarrow>
        b_role (member p v) = Muted \<or> b_vote (member p v) = Some c))"

definition one_vote :: "'id poll \<Rightarrow> bool" where
  "one_vote p \<longleftrightarrow>
     (\<forall>v t c c'. (v, t, c) \<in> cast p \<longrightarrow> (v, t, c') \<in> cast p \<longrightarrow> c = c')"

definition tally_cast :: "'id poll \<Rightarrow> bool" where
  "tally_cast p \<longleftrightarrow> (\<forall>v. b_role (member p v) \<in> {Campaigning, Elected} \<longrightarrow>
     (\<forall>u \<in> b_tally (member p v). (u, b_term (member p v), v) \<in> cast p))"

definition won_backed :: "('id set \<Rightarrow> bool) \<Rightarrow> 'id poll \<Rightarrow> bool" where
  "won_backed quorum p \<longleftrightarrow> (\<forall>t v. (t, v) \<in> won p \<longrightarrow>
     (\<exists>A. quorum A \<and> (\<forall>u \<in> A. (u, t, v) \<in> cast p)))"

definition elected_won :: "'id poll \<Rightarrow> bool" where
  "elected_won p \<longleftrightarrow>
     (\<forall>v. b_role (member p v) = Elected \<longrightarrow> (b_term (member p v), v) \<in> won p)"

definition poll_inv :: "('id set \<Rightarrow> bool) \<Rightarrow> 'id poll \<Rightarrow> bool" where
  "poll_inv quorum p \<longleftrightarrow>
     votes_kept p \<and> one_vote p \<and> tally_cast p \<and> won_backed quorum p \<and> elected_won p"

lemmas poll_inv_defs =
  votes_kept_def one_vote_def tally_cast_def won_backed_def elected_won_def

lemma poll_inv_start:
  assumes "poll_start p"
  shows "poll_inv quorum p"
proof -
  have "b_role (member p v) \<noteq> Campaigning" "b_role (member p v) \<noteq> Elected" for v
    using assms by (metis poll_start_def insertE role.distinct singletonD)+
  then show ?thesis
    using assms by (auto simp: poll_inv_def poll_inv_defs poll_start_def)
qed

lemma votes_kept_step: "poll_step quorum p q \<Longrightarrow> votes_kept p \<Longrightarrow> votes_kept q"
proof (induction rule: poll_step.induct)
  case (learn p v t)
  then show ?case by (fastforce simp: votes_kept_def relearn_def)
next
  case (campaign p v t)
  then show ?case by (fastforce simp: votes_kept_def)
next
  case (grant p v c)
  then show ?case by (fastforce simp: votes_kept_def)
qed (fastforce simp: votes_kept_def)+

lemma one_vote_step:
  "poll_step quorum p q \<Longrightarrow> votes_kept p \<Longrightarrow> one_vote p \<Longrightarrow> one_vote q"
proof (induction rule: poll_step.induct)
  case (campaign p v t)
  then have "\<And>c. (v, t, c) \<notin> cast p" by (force simp: votes_kept_def)
  with campaign show ?case by (auto simp: one_vote_def)
next
  case (grant p v c)
  then have "\<And>c'. (v, b_term (member p v), c') \<in> cast p \<Longrightarrow> b_vote (member p v) = Some c'"
    by (meson votes_kept_def)
  then have "\<forall>c'. (v, b_term (member p v), c') \<in> cast p \<longrightarrow> c' = c"
    using grant(2) by fastforce
  with grant show ?case by (auto simp: one_vote_def)
qed (auto simp: one_vote_def)

lemma tally_cast_step: "poll_step quorum p q \<Longrightarrow> tally_cast p \<Longrightarrow> tally_cast q"
  by (induction rule: poll_step.induct) (auto simp: tally_cast_def relearn_def)

lemma won_backed_mono:
  "won_backed quorum p \<Longrightarrow> cast p \<subseteq> cast q \<Longrightarrow> won q = won p \<Longrightarrow> won_backed quorum q"
  by (fastforce simp: won_backed_def)

lemma won_backed_step:
  "poll_step quorum p q \<Longrightarrow> tally_cast p \<Longrightarrow> won_backed quorum p \<Longrightarrow> won_backed quorum q"
proof (induction rule: poll_step.induct)
  case (win p v)
  then have "\<forall>u \<in> b_tally (member p v). (u, b_term (member p v), v) \<in> cast p"
    by (auto simp: tally_cast_def)
  with win show ?case by (auto simp: won_backed_def)
qed (erule won_backed_mono, auto)+

lemma elected_won_step: "poll_step quorum p q \<Longrightarrow> elected_won p \<Longrightarrow> elected_won q"
  by (induction rule: poll_step.induct) (auto simp: elected_won_def relearn_def)

lemma poll_inv_step: "poll_step quorum p q \<Longrightarrow> poll_inv quorum p \<Longrightarrow> poll_inv quorum q"
  unfolding poll_inv_def
  by (blast intro: votes_kept_step one_vote_step tally_cast_step won_backed_step
      elected_won_step)

lemma poll_inv_reach: "poll_reach quorum p \<Longrightarrow> poll_inv quorum p"
  by (induction rule: poll_reach.induct) (blast intro: poll_inv_start poll_inv_step)+


text \<open>A winner stays in the term it won or moves past it, and campaigns in neither.\<close>

lemma won_past:
  assumes "poll_reach quorum p"
  shows "(t, v) \<in> won p \<Longrightarrow>
     t \<le> b_term (member p v) \<and> (t = b_term (member p v) \<longrightarrow> b_role (member p v) \<noteq> Campaigning)"
  using assms
proof (induction arbitrary: t v rule: poll_reach.induct)
  case (start p)
  then show ?case by (simp add: poll_start_def)
next
  case (step p q)
  note won = step.IH
  from step.hyps(2) show ?case
  proof cases
    case (learn u s)
    then show ?thesis using won [of t v] step.prems by (auto simp: relearn_def)
  next
    case (campaign u s)
    then show ?thesis using won [of t v] step.prems by auto
  next
    case (grant u c)
    then show ?thesis using won [of t v] step.prems by auto
  next
    case (collect u w)
    then show ?thesis using won [of t v] step.prems by auto
  next
    case (win u)
    then show ?thesis using won [of t v] step.prems by auto
  next
    case (resign u)
    then show ?thesis using won [of t v] step.prems by auto
  next
    case (mute u)
    then show ?thesis using won [of t v] step.prems by auto
  next
    case (unmute u)
    then show ?thesis using won [of t v] step.prems by auto
  qed
qed


section \<open>Quorums that meet give one winner per term\<close>

locale quorum_system =
  fixes quorum :: "'id set \<Rightarrow> bool"
  assumes quorum_meet: "quorum A \<Longrightarrow> quorum B \<Longrightarrow> A \<inter> B \<noteq> {}"
begin

lemma one_winner:
  assumes "poll_reach quorum p" and "(t, a) \<in> won p" and "(t, b) \<in> won p"
  shows "a = b"
proof -
  have inv: "one_vote p" "won_backed quorum p"
    using poll_inv_reach [OF assms(1)] by (simp_all add: poll_inv_def)
  obtain A where A: "quorum A" "\<forall>u \<in> A. (u, t, a) \<in> cast p"
    using inv(2) assms(2) unfolding won_backed_def by blast
  obtain B where B: "quorum B" "\<forall>u \<in> B. (u, t, b) \<in> cast p"
    using inv(2) assms(3) unfolding won_backed_def by blast
  obtain u where "u \<in> A \<inter> B"
    using quorum_meet [OF A(1) B(1)] by blast
  with A(2) B(2) inv(1) show ?thesis unfolding one_vote_def by blast
qed

lemma elected_unique:
  assumes "poll_reach quorum p"
    and "b_role (member p a) = Elected" and "b_role (member p b) = Elected"
    and "b_term (member p a) = b_term (member p b)"
  shows "a = b"
proof -
  have "elected_won p" using poll_inv_reach [OF assms(1)] by (simp add: poll_inv_def)
  then show ?thesis
    using one_winner [OF assms(1)] assms(2-4) by (metis elected_won_def)
qed

end

text \<open>The quorums of the code: strictly more than half of a finite membership.\<close>

definition majority_of :: "'id set \<Rightarrow> 'id set \<Rightarrow> bool" where
  "majority_of ids A \<longleftrightarrow> finite ids \<and> A \<subseteq> ids \<and> card A > card ids div 2"

lemma majorities_meet:
  assumes "majority_of ids A" and "majority_of ids B"
  shows "A \<inter> B \<noteq> {}"
proof
  assume empty: "A \<inter> B = {}"
  have fin: "finite A" "finite B" "finite ids"
    using assms by (auto simp: majority_of_def intro: finite_subset)
  have "card A + card B = card (A \<union> B)"
    using card_Un_disjoint [OF fin(1,2) empty] by simp
  also have "\<dots> \<le> card ids"
    using assms fin by (intro card_mono) (auto simp: majority_of_def)
  finally show False
    using assms by (auto simp: majority_of_def)
qed

interpretation maj: quorum_system "majority_of ids" for ids
  by unfold_locales (rule majorities_meet)

end
