(* ===== verification/Ballots.thy ===== *)
theory Ballots
  imports Frames ElectionSpec
begin

text \<open>
  What each handler does to a coordinator's ballot: its term, vote, state and tally, and to
  the messages an election rests on. Most operations are quiet: they leave the ballot alone
  and send no vote; only a leader sends AppendEntries.
\<close>

section \<open>Ballots and quiet operations\<close>

fun role_of :: "node_state \<Rightarrow> role" where
  "role_of Follower = Idle"
| "role_of Candidate = Campaigning"
| "role_of Leader = Elected"
| "role_of LocalLeader = Elected"
| "role_of Observer = Muted"

definition ballot_of :: "coordinator \<Rightarrow> string ballot" where
  "ballot_of s =
     \<lparr>b_term = current_term s, b_vote = voted_for s, b_role = role_of (state s),
      b_tally = set (keys (votes s))\<rparr>"

lemma role_of_eqs [simp]:
  "role_of x = Idle \<longleftrightarrow> x = Follower"
  "role_of x = Campaigning \<longleftrightarrow> x = Candidate"
  "role_of x = Elected \<longleftrightarrow> x = Leader \<or> x = LocalLeader"
  "role_of x = Muted \<longleftrightarrow> x = Observer"
  by (cases x; simp)+

lemma ballot_of_sel [simp]:
  "b_term (ballot_of s) = current_term s"
  "b_vote (ballot_of s) = voted_for s"
  "b_role (ballot_of s) = role_of (state s)"
  "b_tally (ballot_of s) = set (keys (votes s))"
  by (simp_all add: ballot_of_def)

text \<open>The messages a coordinator may send without voting.\<close>

fun harmless :: "coordinator \<Rightarrow> payload \<Rightarrow> bool" where
  "harmless s (RequestVote _ _ _ _ _) = False"
| "harmless s (VoteResponse _ granted _ _) = (\<not> granted)"
| "harmless s (AppendEntries t l _ _ _ _ _ _) =
     (leading s \<and> t = current_term s \<and> l = Some (node_id s))"
| "harmless s _ = True"

definition quiet :: "coordinator \<Rightarrow> coordinator \<Rightarrow> bool" where
  "quiet s s' \<longleftrightarrow>
     protocol s' = protocol s \<and> node_id s' = node_id s \<and> peers s' = peers s \<and>
     current_term s' = current_term s \<and> voted_for s' = voted_for s \<and>
     state s' = state s \<and> votes s' = votes s \<and> inbox s' = inbox s \<and>
     (\<exists>ms. outbox s' = outbox s @ ms \<and> (\<forall>(r, p) \<in> set ms. harmless s p))"

lemma harmless_cong:
  "state s' = state s \<Longrightarrow> current_term s' = current_term s \<Longrightarrow> node_id s' = node_id s \<Longrightarrow>
   harmless s' p = harmless s p"
  by (cases p) (simp_all add: leading_def)

lemma quiet_refl [intro]: "quiet s s"
  by (simp add: quiet_def)

lemma quiet_trans [trans]: "quiet s s' \<Longrightarrow> quiet s' s'' \<Longrightarrow> quiet s s''"
  unfolding quiet_def by (fastforce simp: harmless_cong [of s' s])

lemma quiet_leading: "quiet s s' \<Longrightarrow> leading s' = leading s"
  by (simp add: quiet_def leading_def)

lemma quiet_fold:
  assumes "\<And>x s. P s \<Longrightarrow> quiet s (f x s)" and "\<And>x s. P s \<Longrightarrow> P (f x s)" and "P s"
  shows "quiet s (fold f xs s)"
  using assms(3)
proof (induction xs arbitrary: s)
  case Nil
  then show ?case by (simp add: quiet_refl)
next
  case (Cons x xs)
  show ?case
    using quiet_trans [OF assms(1) [OF Cons.prems] Cons.IH [OF assms(2) [OF Cons.prems]]]
    by simp
qed

text \<open>Updates of fields that are no part of a ballot are quiet.\<close>

lemma quiet_upd [intro, simp]:
  "quiet s (s\<lparr>env := w\<rparr>)"
  "quiet s (s\<lparr>battery := b\<rparr>)"
  "quiet s (s\<lparr>election_deadline := d\<rparr>)"
  "quiet s (s\<lparr>current_leader_id := l\<rparr>)"
  "quiet s (s\<lparr>log := es\<rparr>)"
  "quiet s (s\<lparr>commit_index := n\<rparr>)"
  "quiet s (s\<lparr>published := st\<rparr>)"
  "quiet s (s\<lparr>blocked_senders := bs\<rparr>)"
  "quiet s (s\<lparr>leaves := ls\<rparr>)"
  "quiet s (s\<lparr>last_ping_time := t\<rparr>)"
  "quiet s (s\<lparr>last_leaf_keepalive := t\<rparr>)"
  "quiet s (s\<lparr>handoff_sent := h\<rparr>)"
  "quiet s (s\<lparr>peer_batteries := pb\<rparr>)"
  "quiet s (s\<lparr>running := r\<rparr>)"
  "quiet s (s\<lparr>pending_triggers := pt\<rparr>)"
  "quiet s (s\<lparr>recent_reconciles := rr\<rparr>)"
  "quiet s (s\<lparr>batch_deadline := bd\<rparr>)"
  "quiet s (s\<lparr>last_sensor := ls'\<rparr>)"
  "quiet s (s\<lparr>next_index := ni\<rparr>)"
  by (simp_all add: quiet_def)

lemma quiet_then: "quiet s s' \<Longrightarrow> quiet s' (f s') \<Longrightarrow> quiet s (f s')"
  by (rule quiet_trans)


section \<open>The shared operations are quiet\<close>

lemma quiet_timer: "quiet s (reset_election_timer s)"
  by (simp add: quiet_def reset_election_timer_nf)

lemma quiet_publish: "quiet s (publish_status s)"
  by (simp add: quiet_def publish_status_def battery_level_nf Let_def)

lemma quiet_count: "quiet s (count_received p s)"
  by (simp add: quiet_def count_received_def)

lemma quiet_send: "harmless s p \<Longrightarrow> quiet s (send r p s)"
  by (simp add: quiet_def send_def)

lemma quiet_send_all: "harmless s p \<Longrightarrow> quiet s (send_all rs p s)"
  by (simp add: quiet_def send_all_nf)

lemma quiet_ping: "quiet s (send_liveness_ping s)"
  by (auto simp: quiet_def send_liveness_ping_def broadcast_def ping_def send_all_nf Let_def)

lemma quiet_keepalives: "quiet s (send_leaf_keepalives s)"
  by (auto simp: quiet_def send_leaf_keepalives_def ping_def send_all_nf)

lemma harmless_append: "leading s \<Longrightarrow> harmless s (append_message s r)"
  by (simp add: append_message_def Let_def)

lemma quiet_heartbeats: "leading s \<Longrightarrow> quiet s (send_heartbeats s)"
  by (auto simp: quiet_def send_heartbeats_def append_all_nf harmless_append)

lemma quiet_replicate: "leading s \<Longrightarrow> quiet s (replicate_entry c t s)"
  by (auto simp: quiet_def frame replicate_entry_outbox append_message_def Let_def leading_def)

lemma quiet_replicate_each:
  assumes "leading s"
  shows "quiet s (replicate_each cs s)"
proof -
  have "leading (replicate_entry c t s)" if "leading s" for c t s
    using that by (simp add: leading_def frame)
  then show ?thesis
    unfolding replicate_each_def using assms
    by (intro quiet_fold [where P = leading]) (auto simp: quiet_replicate split: prod.split)
qed

lemma quiet_append_response: "quiet s (append_response ok m r s)"
  by (simp add: quiet_def append_response_def battery_level_nf send_def)

lemma quiet_flush_batch: "leading s \<Longrightarrow> quiet s (flush_batch s)"
proof (cases "batch_buffer s = []")
  case True
  then show ?thesis by (simp add: flush_batch_def)
next
  case False
  assume lead: "leading s"
  define s1 where "s1 = s\<lparr>batch_buffer := [], batch_deadline := None, env := tick_env
    (s\<lparr>batch_buffer := [], batch_deadline := None\<rparr>), last_consensus_activity :=
    time_of (s\<lparr>batch_buffer := [], batch_deadline := None\<rparr>)\<rparr>"
  have "quiet s s1" by (simp add: s1_def quiet_def)
  moreover have "leading s1" using lead by (simp add: s1_def leading_def)
  moreover have "\<exists>c. flush_batch s = replicate_entry c ''delta'' s1"
    using False by (auto simp: flush_batch_def now_s_nf Let_def s1_def)
  ultimately show ?thesis
    by (metis quiet_trans quiet_replicate)
qed

lemma quiet_buffer_command:
  assumes "leading s"
  shows "quiet s (buffer_command c s)"
proof -
  define s1 where "s1 = s\<lparr>batch_buffer := batch_buffer s @ [c]\<rparr>"
  define s2 where "s2 = (if batch_deadline s1 = None
    then s1\<lparr>env := tick_env s1, batch_deadline := Some (time_of s1 + BATCH_WINDOW_S)\<rparr> else s1)"
  have "quiet s s2" by (simp add: s2_def s1_def quiet_def)
  moreover have "leading s2" using assms by (simp add: s2_def s1_def leading_def)
  moreover have "buffer_command c s =
      (if length (batch_buffer s2) \<ge> MAX_BATCH_SIZE then flush_batch s2 else s2)"
    by (simp add: buffer_command_def s2_def s1_def now_s_nf Let_def)
  ultimately show ?thesis
    by (simp add: quiet_trans [OF _ quiet_flush_batch])
qed

lemma quiet_flush_pending:
  assumes "leading s"
  shows "quiet s (flush_pending_triggers s)"
proof (cases "pending_triggers s = []")
  case True
  then show ?thesis by (simp add: flush_pending_triggers_def quiet_refl)
next
  case False
  define s1 where "s1 = s\<lparr>pending_triggers := [], env := tick_env (s\<lparr>pending_triggers := []\<rparr>),
    last_consensus_activity := time_of (s\<lparr>pending_triggers := []\<rparr>)\<rparr>"
  have "quiet s s1" by (simp add: s1_def quiet_def)
  moreover have "leading s1" using assms by (simp add: s1_def leading_def)
  moreover have "flush_pending_triggers s =
      (if protocol s1 = Echod \<and> length (pending_triggers s) > 1
       then replicate_entry (batch (map fst (pending_triggers s)))
              (snd (hd (pending_triggers s))) s1
       else replicate_each (pending_triggers s) s1)"
    using False by (simp add: flush_pending_triggers_def now_s_nf Let_def s1_def)
  ultimately show ?thesis
    by (auto intro: quiet_trans quiet_replicate quiet_replicate_each)
qed



section \<open>The message handlers\<close>

lemma quiet_replay: "quiet s (replay_provisional es s)"
  by (auto simp: replay_provisional_def Let_def quiet_refl quiet_send split: option.split)

lemma quiet_append_entry: "append_entry e s = Inr s' \<Longrightarrow> quiet s s'"
  by (auto simp: append_entry_def Let_def quiet_refl
      intro: quiet_trans [OF quiet_upd(5) quiet_replay] split: if_splits option.splits)

lemma quiet_append_loop: "append_loop es s = Inr s' \<Longrightarrow> quiet s s'"
proof (induction es arbitrary: s)
  case Nil
  then show ?case by (simp add: quiet_refl)
next
  case (Cons e es)
  then obtain s1 where "append_entry e s = Inr s1" "append_loop es s1 = Inr s'"
    by (auto simp: bind_Inr_iff)
  then show ?case
    using quiet_trans [OF quiet_append_entry Cons.IH] by blast
qed

lemma record_latencies_frame:
  "quiet s (record_latencies n t s)"
  "commit_index (record_latencies n t s) = commit_index s"
  "log (record_latencies n t s) = log s"
  "match_index (record_latencies n t s) = match_index s"
  "next_index (record_latencies n t s) = next_index s"
proof -
  let ?f = "\<lambda>idx s. if idx \<le> int n
         then s\<lparr>latencies := latencies s @ [t - dget_or (pending_latency s) idx 0],
                pending_latency := AList.delete idx (pending_latency s)\<rparr>
         else s"
  have "quiet s (fold ?f xs s) \<and> commit_index (fold ?f xs s) = commit_index s \<and>
    log (fold ?f xs s) = log s \<and> match_index (fold ?f xs s) = match_index s \<and>
    next_index (fold ?f xs s) = next_index s" for xs
  proof (induction xs arbitrary: s)
    case Nil
    then show ?case by (simp add: quiet_refl)
  next
    case (Cons x xs)
    have "quiet s (?f x s)" by (simp add: quiet_def)
    then show ?case
      using Cons.IH [of "?f x s"] by (auto intro: quiet_trans)
  qed
  then show "quiet s (record_latencies n t s)"
    "commit_index (record_latencies n t s) = commit_index s"
    "log (record_latencies n t s) = log s"
    "match_index (record_latencies n t s) = match_index s"
    "next_index (record_latencies n t s) = next_index s"
    by (simp_all add: record_latencies_def)
qed

lemmas quiet_record_latencies = record_latencies_frame(1)
lemmas record_latencies_fields [frame] = record_latencies_frame(2-5)

lemma quiet_scan_commit: "quiet s (scan_commit s ns)"
proof (induction ns)
  case Nil
  then show ?case by (simp add: quiet_refl)
next
  case (Cons n ns)
  show ?case
  proof (cases "committable s n")
    case True
    let ?s1 = "s\<lparr>commit_index := n\<rparr>"
    have "quiet s (?s1\<lparr>env := tick_env ?s1\<rparr>)" by (simp add: quiet_def)
    also have "quiet (?s1\<lparr>env := tick_env ?s1\<rparr>)
        (record_latencies n (time_of ?s1) (?s1\<lparr>env := tick_env ?s1\<rparr>))"
      by (rule quiet_record_latencies)
    finally show ?thesis
      using True by (simp only: scan_commit.simps now_s_nf if_True Let_def prod.case)
  next
    case False
    with Cons show ?thesis by simp
  qed
qed

text \<open>\<open>_step_down\<close>: the ballot is that of the new term, the rest is quiet.\<close>

definition demoted :: "node_state \<Rightarrow> node_state" where
  "demoted x = (if x = Observer then Observer else Follower)"

definition in_term :: "int \<Rightarrow> coordinator \<Rightarrow> coordinator" where
  "in_term t s = s\<lparr>current_term := t, voted_for := None, state := demoted (state s)\<rparr>"

lemma quiet_step_down: "quiet (in_term t s) (step_down t s)"
proof -
  have "state s \<in> {Candidate, Leader, LocalLeader} \<Longrightarrow> demoted (state s) = Follower"
    and "state s \<notin> {Candidate, Leader, LocalLeader} \<Longrightarrow> demoted (state s) = state s"
    by (cases "state s"; simp add: demoted_def)+
  then show ?thesis
    by (auto simp: step_down_def in_term_def quiet_def reset_election_timer_nf Let_def)
qed

end
