(* ===== verification/Simulation.thy ===== *)
theory Simulation
  imports Ballots
begin

text \<open>
  One coordinator against the abstract election: every handler is a sequence of abstract
  steps of that member, and the messages it sends are justified by the abstract state they
  leave behind. \<open>may\<close> is the proof rule: it composes, so a handler is shown step by step.
\<close>

section \<open>Tracking one member\<close>

text \<open>The messages that claim a vote of their sender, and the term they claim it in.\<close>

fun ballot_term :: "payload \<Rightarrow> int option" where
  "ballot_term (RequestVote t _ _ _ _) = Some t"
| "ballot_term (VoteResponse t granted _ _) = (if granted then Some t else None)"
| "ballot_term _ = None"

fun justified :: "string \<Rightarrow> string poll \<Rightarrow> string \<times> payload \<Rightarrow> bool" where
  "justified i p (r, RequestVote t c _ _ _) = (c = i \<and> (i, t, i) \<in> cast p)"
| "justified i p (r, VoteResponse t granted _ _) =
     (granted \<longrightarrow> r \<noteq> ''*'' \<and> (i, t, r) \<in> cast p)"
| "justified i p (r, AppendEntries t l _ _ _ _ _ _) = ((t, i) \<in> won p \<and> l = Some i)"
| "justified i p (r, _) = True"

text \<open>
  The abstract state agrees with the coordinator, holds the casts the caller knows of, and,
  where \<open>fresh\<close> is demanded, no vote of the member in its current term.
\<close>

definition tracks ::
    "string set \<Rightarrow> string \<Rightarrow> (string \<times> int \<times> string) set \<Rightarrow> bool \<Rightarrow>
     string poll \<Rightarrow> coordinator \<Rightarrow> bool" where
  "tracks ids i known fresh p s \<longleftrightarrow>
     member p i = ballot_of s \<and> node_id s = i \<and> wf_dict (votes s) \<and> poll_reach (majority_of ids) p \<and>
     known \<subseteq> cast p \<and> i \<in> ids \<and> (\<forall>v t c. (v, t, c) \<in> cast p \<longrightarrow> v \<in> ids) \<and>
     (fresh \<longrightarrow> (\<forall>c. (i, current_term s, c) \<notin> cast p))"

definition evolves ::
    "string set \<Rightarrow> string \<Rightarrow> string poll \<Rightarrow> coordinator \<Rightarrow>
     string poll \<Rightarrow> coordinator \<Rightarrow> bool" where
  "evolves ids i p s p' s' \<longleftrightarrow>
     (poll_step (majority_of ids))\<^sup>*\<^sup>* p p' \<and> member p' = (member p)(i := ballot_of s') \<and>
     protocol s' = protocol s \<and> node_id s' = node_id s \<and> peers s' = peers s \<and>
     wf_dict (votes s') \<and> inbox s' = inbox s \<and>
     (protocol s = Raft \<and> state s \<noteq> Observer \<longrightarrow> state s' \<noteq> Observer) \<and>
     (\<exists>ms. outbox s' = outbox s @ ms \<and> (\<forall>m \<in> set ms. justified i p' m) \<and>
        (\<forall>v t c. (v, t, c) \<in> cast p' \<longrightarrow> (v, t, c) \<in> cast p \<or>
           v = i \<and> (\<exists>m \<in> set ms. ballot_term (snd m) = Some t)))"

definition may ::
    "string set \<Rightarrow> string \<Rightarrow> (string \<times> int \<times> string) set \<Rightarrow> bool \<Rightarrow>
     coordinator \<Rightarrow> coordinator \<Rightarrow> bool" where
  "may ids i known fresh s s' \<longleftrightarrow>
     (\<forall>p. tracks ids i known fresh p s \<longrightarrow> (\<exists>p'. evolves ids i p s p' s'))"

lemma steps_mono: "(poll_step (majority_of ids))\<^sup>*\<^sup>* p p' \<Longrightarrow> cast p \<subseteq> cast p' \<and> won p \<subseteq> won p'"
proof (induction rule: rtranclp_induct)
  case base
  then show ?case by simp
next
  case (step q r)
  from step.hyps(2) have "cast q \<subseteq> cast r \<and> won q \<subseteq> won r"
    by (cases rule: poll_step.cases) auto
  with step.IH show ?case by blast
qed

lemma justified_mono:
  "justified i p m \<Longrightarrow> cast p \<subseteq> cast p' \<Longrightarrow> won p \<subseteq> won p' \<Longrightarrow> justified i p' m"
  by (cases m; cases "snd m") auto

lemma evolves_trans:
  assumes "evolves ids i p s p1 s1" and "evolves ids i p1 s1 p2 s2"
  shows "evolves ids i p s p2 s2"
proof -
  obtain ms where ms: "outbox s1 = outbox s @ ms" "\<forall>m \<in> set ms. justified i p1 m"
    "\<forall>v t c. (v, t, c) \<in> cast p1 \<longrightarrow> (v, t, c) \<in> cast p \<or>
       v = i \<and> (\<exists>m \<in> set ms. ballot_term (snd m) = Some t)"
    using assms(1) by (auto simp: evolves_def)
  obtain ns where ns: "outbox s2 = outbox s1 @ ns" "\<forall>m \<in> set ns. justified i p2 m"
    "\<forall>v t c. (v, t, c) \<in> cast p2 \<longrightarrow> (v, t, c) \<in> cast p1 \<or>
       v = i \<and> (\<exists>m \<in> set ns. ballot_term (snd m) = Some t)"
    using assms(2) by (auto simp: evolves_def)
  have "(poll_step (majority_of ids))\<^sup>*\<^sup>* p1 p2" using assms(2) by (simp add: evolves_def)
  then have grow: "cast p1 \<subseteq> cast p2" "won p1 \<subseteq> won p2"
    using steps_mono by blast+
  have "\<forall>m \<in> set (ms @ ns). justified i p2 m"
    using ms(2) ns(2) grow by (auto intro: justified_mono)
  moreover have "\<forall>v t c. (v, t, c) \<in> cast p2 \<longrightarrow> (v, t, c) \<in> cast p \<or>
       v = i \<and> (\<exists>m \<in> set (ms @ ns). ballot_term (snd m) = Some t)"
    using ms(3) ns(3) by (metis UnCI set_append)
  moreover have "outbox s2 = outbox s @ ms @ ns"
    using ms(1) ns(1) by simp
  ultimately have out: "\<exists>os. outbox s2 = outbox s @ os \<and> (\<forall>m \<in> set os. justified i p2 m) \<and>
      (\<forall>v t c. (v, t, c) \<in> cast p2 \<longrightarrow> (v, t, c) \<in> cast p \<or>
         v = i \<and> (\<exists>m \<in> set os. ballot_term (snd m) = Some t))"
    by blast
  have "(poll_step (majority_of ids))\<^sup>*\<^sup>* p p2"
    using assms unfolding evolves_def by (blast intro: rtranclp_trans)
  moreover have "member p2 = (member p)(i := ballot_of s2)"
    "protocol s2 = protocol s" "node_id s2 = node_id s" "peers s2 = peers s"
    "wf_dict (votes s2)" "inbox s2 = inbox s"
    "protocol s = Raft \<and> state s \<noteq> Observer \<longrightarrow> state s2 \<noteq> Observer"
    using assms by (simp_all add: evolves_def)
  ultimately show ?thesis using out unfolding evolves_def by blast
qed

lemma tracks_evolves:
  assumes "tracks ids i known fresh p s" and "evolves ids i p s p' s'"
  shows "tracks ids i known False p' s'"
proof -
  have steps: "(poll_step (majority_of ids))\<^sup>*\<^sup>* p p'" using assms(2) by (simp add: evolves_def)
  then have "cast p \<subseteq> cast p'" by (simp add: steps_mono)
  moreover have "poll_reach (majority_of ids) p'"
    using poll_reach_steps [OF steps] assms(1) by (simp add: tracks_def)
  moreover have "\<forall>v t c. (v, t, c) \<in> cast p' \<longrightarrow> v \<in> ids"
    using assms unfolding tracks_def evolves_def by metis
  ultimately show ?thesis
    using assms by (auto simp: tracks_def evolves_def)
qed

lemma may_trans:
  assumes "may ids i known fresh s s1" and "may ids i known False s1 s2"
  shows "may ids i known fresh s s2"
  unfolding may_def
proof (intro allI impI)
  fix p
  assume p: "tracks ids i known fresh p s"
  then obtain p1 where p1: "evolves ids i p s p1 s1"
    using assms(1) by (auto simp: may_def)
  then obtain p2 where "evolves ids i p1 s1 p2 s2"
    using assms(2) tracks_evolves [OF p p1] by (auto simp: may_def)
  with p1 show "\<exists>p'. evolves ids i p s p' s2"
    by (blast intro: evolves_trans)
qed

lemma may_weaken: "may ids i known False s s' \<Longrightarrow> may ids i known fresh s s'"
  by (auto simp: may_def tracks_def)


section \<open>Quiet steps\<close>

lemma justified_harmless:
  assumes "harmless s m" and "leading s \<longrightarrow> (current_term s, i) \<in> won p" and "node_id s = i"
  shows "justified i p (r, m)"
  using assms by (cases m) auto

lemma tracks_elected:
  assumes "tracks ids i known fresh p s" and "leading s"
  shows "(current_term s, i) \<in> won p"
proof -
  have "elected_won p"
    using assms(1) poll_inv_reach by (auto simp: tracks_def poll_inv_def)
  moreover have "b_role (member p i) = Elected"
    using assms by (simp add: tracks_def leading_def)
  ultimately have "(b_term (member p i), i) \<in> won p"
    unfolding elected_won_def by blast
  then show ?thesis
    using assms(1) by (simp add: tracks_def)
qed

lemma evolves_quiet:
  assumes "tracks ids i known fresh p s" and "quiet s s'"
  shows "evolves ids i p s p s'"
proof -
  obtain ms where ms: "outbox s' = outbox s @ ms" "\<forall>(r, m) \<in> set ms. harmless s m"
    using assms(2) by (auto simp: quiet_def)
  have "\<forall>m \<in> set ms. justified i p m"
    using ms(2) tracks_elected [OF assms(1)] assms(1)
    by (auto simp: tracks_def intro: justified_harmless)
  moreover have "member p = (member p)(i := ballot_of s')"
    using assms by (auto simp: tracks_def quiet_def ballot_of_def)
  ultimately show ?thesis
    using assms ms(1) by (auto simp: evolves_def quiet_def tracks_def)
qed

lemma may_quiet: "quiet s s' \<Longrightarrow> may ids i known fresh s s'"
  by (auto simp: may_def intro: evolves_quiet)

lemma may_quiet_first:
  assumes "quiet s s1" and "may ids i known fresh s1 s2"
  shows "may ids i known fresh s s2"
  unfolding may_def
proof (intro allI impI)
  fix p
  assume p: "tracks ids i known fresh p s"
  then have "tracks ids i known fresh p s1"
    using assms(1) by (auto simp: tracks_def quiet_def ballot_of_def)
  then obtain p2 where "evolves ids i p s1 p2 s2"
    using assms(2) by (auto simp: may_def)
  then show "\<exists>p'. evolves ids i p s p' s2"
    by (blast intro: evolves_trans evolves_quiet [OF p assms(1)])
qed

lemma may_then_quiet:
  "may ids i known fresh s s1 \<Longrightarrow> quiet s1 s2 \<Longrightarrow> may ids i known fresh s s2"
  by (blast intro: may_trans may_quiet)


section \<open>Ballot moves\<close>

lemma evolves_step:
  assumes "poll_step (majority_of ids) p p'" and "cast p' = cast p"
    and "member p' = (member p)(i := ballot_of s')"
    and "protocol s' = protocol s" "node_id s' = node_id s" "peers s' = peers s"
    and "wf_dict (votes s')" and "outbox s' = outbox s" and "inbox s' = inbox s"
    and "protocol s = Raft \<and> state s \<noteq> Observer \<longrightarrow> state s' \<noteq> Observer"
  shows "evolves ids i p s p' s'"
  using assms by (auto simp: evolves_def)

lemma may_in_term: "current_term s < t \<Longrightarrow> may ids i known fresh s (in_term t s)"
  unfolding may_def
proof (intro allI impI)
  fix p
  assume t: "current_term s < t" and p: "tracks ids i known fresh p s"
  let ?p' = "p\<lparr>member := (member p)(i := relearn t (member p i))\<rparr>"
  have "poll_step (majority_of ids) p ?p'"
    using t p by (intro poll_step.learn) (simp add: tracks_def)
  moreover have "role_of (demoted (state s)) = (if role_of (state s) = Muted then Muted else Idle)"
    by (simp add: demoted_def)
  then have "member ?p' = (member p)(i := ballot_of (in_term t s))"
    using p by (auto simp: tracks_def relearn_def in_term_def ballot_of_def)
  ultimately show "\<exists>p'. evolves ids i p s p' (in_term t s)"
    using p by (intro exI [of _ ?p'] evolves_step) (auto simp: in_term_def tracks_def demoted_def split: if_splits)
qed

lemma may_step_down: "current_term s < t \<Longrightarrow> may ids i known fresh s (step_down t s)"
  by (rule may_then_quiet [OF may_in_term quiet_step_down])

lemma may_resign:
  assumes "state s \<in> {Candidate, Leader, LocalLeader}"
  shows "may ids i known fresh s (s\<lparr>state := Follower\<rparr>)"
  unfolding may_def
proof (intro allI impI)
  fix p
  assume p: "tracks ids i known fresh p s"
  let ?p' = "p\<lparr>member := (member p)(i := (member p i)\<lparr>b_role := Idle\<rparr>)\<rparr>"
  have "poll_step (majority_of ids) p ?p'"
    using assms p by (intro poll_step.resign) (auto simp: tracks_def)
  then show "\<exists>p'. evolves ids i p s p' (s\<lparr>state := Follower\<rparr>)"
    using p by (intro exI [of _ ?p'] evolves_step) (auto simp: ballot_of_def tracks_def)
qed

text \<open>Going local keeps the office.\<close>

lemma may_localise:
  assumes "state s = Leader"
  shows "may ids i known fresh s (s\<lparr>state := LocalLeader\<rparr>)"
  unfolding may_def
proof (intro allI impI)
  fix p
  assume p: "tracks ids i known fresh p s"
  have "ballot_of (s\<lparr>state := LocalLeader\<rparr>) = ballot_of s"
    using assms by (simp add: ballot_of_def)
  then have "evolves ids i p s p (s\<lparr>state := LocalLeader\<rparr>)"
    using p by (auto simp: evolves_def tracks_def)
  then show "\<exists>p'. evolves ids i p s p' (s\<lparr>state := LocalLeader\<rparr>)" by blast
qed

lemma may_mute:
  assumes "protocol s \<noteq> Raft"
  shows "may ids i known fresh s (s\<lparr>state := Observer, voted_for := None\<rparr>)"
  unfolding may_def
proof (intro allI impI)
  fix p
  assume p: "tracks ids i known fresh p s"
  let ?p' = "p\<lparr>member := (member p)(i := (member p i)\<lparr>b_vote := None, b_role := Muted\<rparr>)\<rparr>"
  have "poll_step (majority_of ids) p ?p'" by (rule poll_step.mute)
  then show "\<exists>p'. evolves ids i p s p' (s\<lparr>state := Observer, voted_for := None\<rparr>)"
    using p assms by (intro exI [of _ ?p'] evolves_step) (auto simp: ballot_of_def tracks_def)
qed

lemma may_unmute:
  assumes "state s = Observer"
  shows "may ids i known True s (s\<lparr>state := Follower\<rparr>)"
  unfolding may_def
proof (intro allI impI)
  fix p
  assume p: "tracks ids i known True p s"
  let ?p' = "p\<lparr>member := (member p)(i := (member p i)\<lparr>b_role := Idle\<rparr>)\<rparr>"
  have "poll_step (majority_of ids) p ?p'"
    using assms p by (intro poll_step.unmute) (auto simp: tracks_def)
  then show "\<exists>p'. evolves ids i p s p' (s\<lparr>state := Follower\<rparr>)"
    using p by (intro exI [of _ ?p'] evolves_step) (auto simp: ballot_of_def tracks_def)
qed

text \<open>A vote and the message that grants it are one move.\<close>

lemma may_grant:
  assumes "state s \<noteq> Observer" and "voted_for s = None \<or> voted_for s = Some c"
    and "c \<noteq> ''*''" and "s' = s\<lparr>voted_for := Some c, outbox := outbox s @
                  [(c, VoteResponse (current_term s) True v b)]\<rparr>"
  shows "may ids i known fresh s s'"
  unfolding may_def
proof (intro allI impI)
  fix p
  assume p: "tracks ids i known fresh p s"
  let ?p' = "p\<lparr>member := (member p)(i := (member p i)\<lparr>b_vote := Some c\<rparr>),
               cast := insert (i, b_term (member p i), c) (cast p)\<rparr>"
  have step: "poll_step (majority_of ids) p ?p'"
    using assms p by (intro poll_step.grant) (auto simp: tracks_def)
  have "member ?p' = (member p)(i := ballot_of s')"
    using p by (simp add: assms(4) ballot_of_def tracks_def)
  moreover have "justified i ?p' (c, VoteResponse (current_term s) True v b)"
    using p assms(3) by (simp add: tracks_def)
  moreover have "wf_dict (votes s')"
    using p by (simp add: assms(4) tracks_def)
  moreover have "\<forall>v t c'. (v, t, c') \<in> cast ?p' \<longrightarrow> (v, t, c') \<in> cast p \<or>
      v = i \<and> current_term s = t"
    using p by (auto simp: tracks_def)
  ultimately show "\<exists>p'. evolves ids i p s p' s'"
    unfolding evolves_def using step
    by (intro exI [of _ ?p'] conjI exI [of _ "[(c, VoteResponse (current_term s) True v b)]"])
      (auto simp: assms(4))
qed

text \<open>So are a candidacy and the requests that announce it.\<close>

lemma may_campaign:
  assumes "state s \<noteq> Observer" and "current_term s < t" and "rs \<noteq> []"
    and "s' = s\<lparr>current_term := t, state := Candidate, voted_for := Some i, votes := [(i, l)],
              outbox := outbox s @ map (\<lambda>r. (r, RequestVote t i a b c)) rs\<rparr>"
  shows "may ids i known fresh s s'"
  unfolding may_def
proof (intro allI impI)
  fix p
  assume p: "tracks ids i known fresh p s"
  let ?p' = "p\<lparr>member := (member p)(i := \<lparr>b_term = t, b_vote = Some i, b_role = Campaigning,
                                    b_tally = {i}\<rparr>),
          cast := insert (i, t, i) (cast p)\<rparr>"
  let ?ms = "map (\<lambda>r. (r, RequestVote t i a b c)) rs"
  have step: "poll_step (majority_of ids) p ?p'"
    using assms p by (intro poll_step.campaign) (auto simp: tracks_def)
  have "member ?p' = (member p)(i := ballot_of s')"
    by (simp add: assms(4) ballot_of_def keys_def)
  moreover have "\<exists>m \<in> set ?ms. ballot_term (snd m) = Some t"
    using assms(3) by (cases rs) auto
  moreover have "wf_dict (votes s')"
    by (simp add: assms(4))
  ultimately show "\<exists>p'. evolves ids i p s p' s'"
    unfolding evolves_def using step
    by (intro exI [of _ ?p'] conjI exI [of _ ?ms]) (auto simp: assms(4))
qed

lemma may_collect:
  assumes "state s = Candidate" and "(u, current_term s, i) \<in> known"
  shows "may ids i known fresh s (s\<lparr>votes := dput u l (votes s)\<rparr>)"
  unfolding may_def
proof (intro allI impI)
  fix p
  assume p: "tracks ids i known fresh p s"
  let ?p' = "p\<lparr>member := (member p)(i := (member p i)\<lparr>b_tally := insert u (b_tally (member p i))\<rparr>)\<rparr>"
  have "poll_step (majority_of ids) p ?p'"
    using assms p by (intro poll_step.collect) (auto simp: tracks_def)
  then show "\<exists>p'. evolves ids i p s p' (s\<lparr>votes := dput u l (votes s)\<rparr>)"
    using p by (intro exI [of _ ?p'] evolves_step) (auto simp: ballot_of_def tracks_def)
qed

text \<open>
  Winning: the tally is a quorum when it counts more than half of the members, since every
  vote in it was cast by one.
\<close>

lemma may_win:
  assumes "state s = Candidate" and "length (votes s) > card ids div 2"
    and "finite ids"
  shows "may ids i known fresh s (s\<lparr>state := Leader\<rparr>)"
  unfolding may_def
proof (intro allI impI)
  fix p
  assume p: "tracks ids i known fresh p s"
  let ?p' = "p\<lparr>member := (member p)(i := (member p i)\<lparr>b_role := Elected\<rparr>),
               won := insert (b_term (member p i), i) (won p)\<rparr>"
  have "tally_cast p"
    using p poll_inv_reach by (auto simp: tracks_def poll_inv_def)
  then have "\<forall>u \<in> set (keys (votes s)). (u, current_term s, i) \<in> cast p"
    using p assms(1) unfolding tally_cast_def tracks_def
    by (metis ballot_of_sel(1,3,4) insertI1 role_of.simps(2))
  then have "set (keys (votes s)) \<subseteq> ids"
    using p unfolding tracks_def by blast
  then have "majority_of ids (b_tally (member p i))"
    using assms(2,3) p by (simp add: majority_of_def tracks_def length_wf_dict)
  then have "poll_step (majority_of ids) p ?p'"
    using assms(1) p by (intro poll_step.win) (auto simp: tracks_def)
  then show "\<exists>p'. evolves ids i p s p' (s\<lparr>state := Leader\<rparr>)"
    using p by (intro exI [of _ ?p'] evolves_step) (auto simp: ballot_of_def tracks_def)
qed


section \<open>The handlers\<close>

lemma may_refl: "may ids i known fresh s s"
  by (simp add: may_quiet quiet_refl)

text \<open>Every handler that may learn of a higher term starts the same way.\<close>

lemma may_maybe_step_down:
  "may ids i known fresh s (if t > current_term s then step_down t s else s)"
  by (simp add: may_step_down may_refl)

lemma may_demote_candidate:
  "may ids i known fresh s (if state s = Candidate then s\<lparr>state := Follower\<rparr> else s)"
  by (simp add: may_resign may_refl)

lemma may_request_vote:
  assumes "rv_candidate_id p = sender" and "sender \<noteq> ''*''"
  shows "may ids i known False s (handle_request_vote sender p s)"
proof -
  define s1 where "s1 = (if rv_term p > current_term s then step_down (rv_term p) s else s)"
  have s1: "may ids i known False s s1"
    unfolding s1_def by (rule may_maybe_step_down)
  show ?thesis
  proof (cases "grants_vote p s1")
    case False
    then have "quiet s1 (handle_request_vote sender p s)"
      by (simp add: handle_request_vote_def s1_def [symmetric] battery_level_nf send_def
          quiet_def Let_def)
    then show ?thesis by (rule may_then_quiet [OF s1])
  next
    case True
    define s2 where "s2 = s1\<lparr>voted_for := Some sender\<rparr>"
    define s3 where "s3 = reset_election_timer s2"
    define m where "m = VoteResponse (current_term s1) True (node_id s1) (lvl_of s3)"
    define s4 where "s4 = s1\<lparr>voted_for := Some sender, outbox := outbox s1 @ [(sender, m)]\<rparr>"
    have "may ids i known False s1 s4"
      using True assms
      by (intro may_grant [where c = sender]) (auto simp: grants_vote_def s4_def m_def)
    moreover have "handle_request_vote sender p s =
        send sender m (s3\<lparr>battery := bat_of s3, env := env_of s3\<rparr>)"
      using True assms
      by (simp add: handle_request_vote_def s1_def [symmetric] s2_def [symmetric]
          s3_def [symmetric] battery_level_nf m_def Let_def)
        (simp add: s3_def s2_def reset_election_timer_nf)
    then have "quiet s4 (handle_request_vote sender p s)"
      by (simp add: s4_def quiet_def send_def)
        (simp add: s3_def s2_def reset_election_timer_nf)
    ultimately show ?thesis
      by (rule may_trans [OF s1 may_then_quiet])
  qed
qed

lemma quiet_become_leader: "quiet (s\<lparr>state := Leader\<rparr>) (become_leader s)"
proof -
  let ?f = "\<lambda>peer s. s\<lparr>next_index := dput peer (last_log_index s + 1) (next_index s),
                  match_index := dput peer 0 (match_index s)\<rparr>"
  define s1 where "s1 = s\<lparr>state := Leader, leader_changes := leader_changes s + 1,
                current_leader_id := Some (node_id s)\<rparr>"
  define s2 where "s2 = fold ?f (peers s1) s1"
  define s3 where "s3 = s2\<lparr>handoff_sent := False, ping_interval_s := LIVENESS_PING_INTERVAL\<rparr>"
  define s4 where "s4 = s3\<lparr>env := tick_env s3, last_consensus_activity := time_of s3\<rparr>"
  define s5 where "s5 = s4\<lparr>env := tick_env s4, last_ping_time := time_of s4\<rparr>"
  define s6 where "s6 = (if protocol s5 = Raft then send_heartbeats s5 else send_liveness_ping s5)"
  have "quiet (s\<lparr>state := Leader\<rparr>) s1" by (simp add: s1_def quiet_def)
  also have "quiet s1 s2"
    unfolding s2_def by (rule quiet_fold [where P = "\<lambda>_. True"]) (auto simp: quiet_def)
  also have "quiet s2 s5" by (simp add: s3_def s4_def s5_def quiet_def)
  finally have s5: "quiet (s\<lparr>state := Leader\<rparr>) s5" .
  then have "leading s5" using quiet_leading [OF s5] by (simp add: leading_def)
  then have "quiet s5 s6"
    by (simp add: s6_def quiet_heartbeats quiet_ping)
  with s5 have s6: "quiet (s\<lparr>state := Leader\<rparr>) s6" by (rule quiet_trans)
  then have "leading s6" using quiet_leading [OF s6] by (simp add: leading_def)
  then have "quiet s6 (flush_pending_triggers s6)" by (rule quiet_flush_pending)
  moreover have "become_leader s = flush_pending_triggers s6"
    by (simp only: become_leader_def now_s_nf Let_def prod.case s1_def s2_def s3_def s4_def
        s5_def s6_def)
  ultimately show ?thesis using s6 by (metis quiet_trans)
qed

lemma may_vote_response:
  assumes "vr_vote_granted p \<longrightarrow> (sender, vr_term p, i) \<in> known"
    and "finite ids" and "Suc (length (peers s)) = card ids"
  shows "may ids i known False s (handle_vote_response sender p s)"
proof (cases "vr_term p > current_term s \<or> state s \<noteq> Candidate \<or> vr_term p \<noteq> current_term s")
  case True
  then show ?thesis
    by (auto simp: handle_vote_response_def may_step_down may_refl)
next
  case False
  define s1 where "s1 = (if vr_vote_granted p
      then s\<lparr>votes := dput sender (vr_voter_battery p) (votes s)\<rparr> else s)"
  have s1: "may ids i known False s s1"
    using False assms(1) by (auto simp: s1_def may_refl intro!: may_collect)
  have res: "handle_vote_response sender p s =
      (if majority s1 (length (votes s1)) then become_leader s1 else s1)"
    using False by (simp add: handle_vote_response_def s1_def)
  show ?thesis
  proof (cases "majority s1 (length (votes s1))")
    case True
    have "state s1 = Candidate" using False by (simp add: s1_def)
    moreover have "length (votes s1) > card ids div 2"
      using True assms(3) by (auto simp: majority_def s1_def split: if_splits)
    ultimately have "may ids i known False s1 (s1\<lparr>state := Leader\<rparr>)"
      using assms(2) by (rule may_win)
    then have "may ids i known False s1 (become_leader s1)"
      by (rule may_then_quiet) (rule quiet_become_leader)
    with s1 True res show ?thesis by (simp add: may_trans [OF s1])
  next
    case False
    with s1 res show ?thesis by simp
  qed
qed

lemma may_append_entries:
  assumes "handle_append_entries sender p s = Inr s'"
  shows "may ids i known False s s'"
proof -
  define s1 where "s1 = (if ae_term p > current_term s then step_down (ae_term p) s else s)"
  have s1: "may ids i known False s s1"
    unfolding s1_def by (rule may_maybe_step_down)
  define s2 where "s2 = (reset_election_timer s1)
      \<lparr>current_leader_id := Some (py_get (ae_leader_id p) sender)\<rparr>"
  define s3 where "s3 = (if state s2 = Candidate then s2\<lparr>state := Follower\<rparr> else s2)"
  have s3: "may ids i known False s s3"
  proof -
    have "quiet s1 s2" by (simp add: s2_def reset_election_timer_nf quiet_def)
    then show ?thesis
      unfolding s3_def by (rule may_trans [OF may_then_quiet [OF s1] may_demote_candidate])
  qed
  have res: "(if ae_term p < current_term s1 then Inr (append_response False 0 sender s1)
      else if \<not> prev_matches (log s3) (ae_prev_log_index p) (ae_prev_log_term p)
      then Inr (reject_append sender s3)
      else bind (append_loop (py_get (ae_entries p) []) s3) (\<lambda>s.
        Inr (append_response True
          (int (length (log (advance_follower_commit (py_get (ae_leader_commit p) 0) s)))) sender
          (advance_follower_commit (py_get (ae_leader_commit p) 0) s)))) = Inr s'"
    using assms
    by (simp only: handle_append_entries_def s1_def [symmetric] s2_def [symmetric]
        s3_def [symmetric] Let_def)
  consider (stale) "s' = append_response False 0 sender s1"
    | (reject) "s' = reject_append sender s3"
    | (ok) s4 where "append_loop (py_get (ae_entries p) []) s3 = Inr s4"
        "\<exists>m s5. s5 = advance_follower_commit (py_get (ae_leader_commit p) 0) s4 \<and>
           s' = append_response True m sender s5"
    using res by (auto simp: bind_Inr_iff split: if_splits)
  then show ?thesis
  proof cases
    case stale
    then show ?thesis using may_then_quiet [OF s1 quiet_append_response] by simp
  next
    case reject
    then show ?thesis
      using may_then_quiet [OF s3 quiet_append_response] by (simp add: reject_append_def)
  next
    case ok
    have "quiet s3 s4" by (rule quiet_append_loop [OF ok(1)])
    also have "quiet s4 (advance_follower_commit (py_get (ae_leader_commit p) 0) s4)"
      by (simp add: advance_follower_commit_def quiet_refl)
    finally have "quiet s3 (advance_follower_commit (py_get (ae_leader_commit p) 0) s4)" .
    then have "quiet s3 s'"
      using ok(2) quiet_trans [OF _ quiet_append_response] by auto
    then show ?thesis by (rule may_then_quiet [OF s3])
  qed
qed


lemma may_append_response:
  "may ids i known False s (handle_append_response sender p s)"
proof (cases "ar_term p > current_term s")
  case True
  then show ?thesis by (simp add: handle_append_response_def may_step_down)
next
  case False
  define s1 where "s1 = (case ar_responder_battery p of
      None \<Rightarrow> s | Some b \<Rightarrow> s\<lparr>peer_batteries := dput sender b (peer_batteries s)\<rparr>)"
  have s1: "quiet s s1" by (auto simp: s1_def split: option.split)
  define s2 where "s2 = s1\<lparr>next_index := dput sender (ar_match_index p + 1) (next_index s1),
                     match_index := dput sender (ar_match_index p) (match_index s1)\<rparr>"
  have "quiet s1 s2" by (simp add: s2_def quiet_def)
  also have "quiet s2 (try_advance_commit s2)"
    by (simp add: try_advance_commit_def quiet_scan_commit)
  finally have "quiet s1 (try_advance_commit s2)" .
  moreover have "handle_append_response sender p s =
      (if state s1 \<noteq> Leader then s1
       else if ar_success p then try_advance_commit s2
       else s1\<lparr>next_index :=
              dput sender (max 1 (dget_or (next_index s1) sender 1 - 1)) (next_index s1)\<rparr>)"
    using False
    by (simp only: handle_append_response_def s1_def [symmetric] s2_def [symmetric] Let_def if_False)
  ultimately have "quiet s1 (handle_append_response sender p s)"
    by (auto simp: quiet_refl)
  with s1 show ?thesis by (blast intro: may_quiet quiet_trans)
qed

lemma may_liveness_ping: "may ids i known False s (handle_liveness_ping sender p s)"
proof (cases "lp_term p \<ge> current_term s")
  case True
  define s1 where "s1 = (if lp_term p > current_term s then step_down (lp_term p) s else s)"
  have "quiet s1 (s1\<lparr>current_leader_id := Some (py_get (lp_leader_id p) sender)\<rparr>)" by simp
  then have "quiet s1 (handle_liveness_ping sender p s)"
    using True by (simp add: handle_liveness_ping_def s1_def [symmetric] Let_def
        quiet_trans [OF _ quiet_timer])
  then show ?thesis
    using may_then_quiet [OF may_maybe_step_down] by (simp add: s1_def)
next
  case False
  then show ?thesis by (simp add: handle_liveness_ping_def may_refl)
qed

lemma quiet_leaf_register: "quiet s (handle_leaf_register sender p s)"
  by (simp add: handle_leaf_register_def quiet_def send_def Let_def)

lemma quiet_send_sensor:
  "p = SensorData a b c d \<Longrightarrow> quiet s (send r p s)"
  by (simp add: quiet_send)

lemma quiet_sensor_data:
  assumes "p = SensorData a b c d"
  shows "quiet s (handle_sensor_data sender p s)"
proof (cases "leading s")
  case False
  then show ?thesis
    using assms
    by (auto simp: handle_sensor_data_def Let_def quiet_send split: option.split)
next
  case True
  define s1 where "s1 = s\<lparr>last_sensor := dput (sensor_key a b) c (last_sensor s)\<rparr>"
  have s1: "quiet s s1" "leading s1"
    using True by (simp_all add: s1_def leading_def)
  have "quiet s (buffer_command x s1)" "quiet s (replicate_entry x t s1)" for x t
    using s1 by (auto intro: quiet_trans quiet_buffer_command quiet_replicate)
  then show ?thesis
    using True assms
    by (simp add: handle_sensor_data_def Let_def quiet_replicate quiet_refl s1_def [symmetric])
qed

lemma quiet_reconcile_batch: "quiet s (handle_reconcile_batch sender p s)"
proof (cases "leading s \<and> py_get (rb_commands p) [] \<noteq> []")
  case False
  then show ?thesis by (auto simp: handle_reconcile_batch_def quiet_refl)
next
  case True
  obtain fresh recent where f: "fresh_commands (recent_reconciles s) (py_get (rb_commands p) []) =
      (fresh, recent)"
    by fastforce
  define s1 where "s1 = s\<lparr>recent_reconciles := trim_reconciles recent\<rparr>"
  define s2 where "s2 = s1\<lparr>env := tick_env s1, last_consensus_activity := time_of s1\<rparr>"
  have s1: "quiet s s1" by (simp add: s1_def)
  have s2: "quiet s s2" "leading s2"
    using True by (simp_all add: s2_def s1_def quiet_def leading_def)
  have "quiet s (replicate_entry c t s2)" "quiet s (replicate_each cs s2)" for c t cs
    using s2 by (auto intro: quiet_trans quiet_replicate quiet_replicate_each)
  then show ?thesis
    using True s1
    by (simp add: handle_reconcile_batch_def f Let_def now_s_nf s1_def [symmetric]
        s2_def [symmetric])
qed

lemma may_start_election:
  assumes "peers s \<noteq> []" and "node_id s = i"
  shows "may ids i known False s (start_election s)"
proof (cases "state s = Observer")
  case True
  then show ?thesis by (simp add: start_election_def may_refl)
next
  case False
  define s1 where "s1 = s\<lparr>current_term := current_term s + 1, state := Candidate,
                  voted_for := Some (node_id s), current_leader_id := None\<rparr>"
  define s2 where "s2 = s1\<lparr>battery := bat_of s1, env := env_of s1, votes := [(i, lvl_of s1)]\<rparr>"
  define m where "m = vote_request (lvl_of s1) (reset_election_timer s2)"
  have m: "m = RequestVote (current_term s + 1) i (last_log_index s) (last_log_term s) (lvl_of s1)"
    using assms(2)
    by (simp add: m_def vote_request_def s2_def s1_def reset_election_timer_nf
        last_log_index_def last_log_term_def)
  define s3 where "s3 = s\<lparr>current_term := current_term s + 1, state := Candidate,
       voted_for := Some i, votes := [(i, lvl_of s1)],
       outbox := outbox s @ map (\<lambda>r. (r, m)) (peers s)\<rparr>"
  have "may ids i known False s s3"
    using False assms(1) by (intro may_campaign) (auto simp: s3_def m)
  moreover have "start_election s = send_all (peers s) m (reset_election_timer s2)"
    using False assms(2)
    by (simp add: start_election_def battery_level_nf Let_def s1_def [symmetric] s2_def m_def)
      (simp add: s1_def reset_election_timer_nf)
  then have "quiet s3 (start_election s)"
    using assms(2)
    by (simp add: quiet_def send_all_nf) (simp add: s3_def s2_def s1_def reset_election_timer_nf)
  ultimately show ?thesis by (rule may_then_quiet)
qed

lemma step_down_peers: "peers (step_down t s) = peers s" "node_id (step_down t s) = node_id s"
  by (simp_all add: step_down_def reset_election_timer_nf Let_def)

lemma may_leadership_handoff:
  assumes "peers s \<noteq> []" and "node_id s = i"
  shows "may ids i known False s (handle_leadership_handoff sender p s)"
proof (cases "protocol s \<noteq> Echod \<or> state s = Observer \<or> lh_term p < current_term s")
  case True
  then show ?thesis by (auto simp: handle_leadership_handoff_def may_refl)
next
  case False
  let ?s1 = "if lh_term p > current_term s then step_down (lh_term p) s else s"
  have "handle_leadership_handoff sender p s = start_election ?s1"
    using False by (simp add: handle_leadership_handoff_def)
  moreover have "may ids i known False ?s1 (start_election ?s1)"
    using assms by (intro may_start_election) (simp_all add: step_down_peers)
  ultimately show ?thesis
    using may_trans [OF may_maybe_step_down] by metis
qed

lemma may_partition_control: "may ids i known False s (handle_partition_control sender p s)"
proof -
  have enter: "may ids i known False s (enter_provisional_mode s)" for s
  proof -
    define s1 where "s1 = s\<lparr>partition_epoch := partition_epoch s + 1\<rparr>"
    have "enter_provisional_mode s = (if state s1 = Leader then s1\<lparr>state := LocalLeader\<rparr> else s1)"
      by (simp add: enter_provisional_mode_def s1_def)
    moreover have "quiet s s1" by (simp add: s1_def quiet_def)
    ultimately show ?thesis
      by (simp add: may_quiet may_quiet_first [OF _ may_localise])
  qed
  have exit: "may ids i known False s (exit_provisional_mode s)" for s
  proof (cases "state s = LocalLeader")
    case True
    have "quiet (s\<lparr>state := Follower\<rparr>) (s\<lparr>state := Follower, partition_epoch := 0\<rparr>)"
      by (simp add: quiet_def)
    with True show ?thesis
      by (simp add: exit_provisional_mode_def may_then_quiet [OF may_resign])
  next
    case False
    have "quiet s (s\<lparr>partition_epoch := 0\<rparr>)" by (simp add: quiet_def)
    with False show ?thesis by (simp add: exit_provisional_mode_def may_quiet)
  qed
  have blk: "quiet s (s\<lparr>blocked_senders := b\<rparr>)" for b by simp
  show ?thesis
    by (auto simp: handle_partition_control_def Let_def may_refl
        intro: may_quiet [OF blk] may_quiet_first [OF blk enter] may_quiet_first [OF blk exit])
qed


section \<open>Batteries, timers and whole receptions\<close>

text \<open>The one action that needs a fresh term: an observer that takes part again.\<close>

definition rejoins :: "coordinator \<Rightarrow> coordinator \<Rightarrow> bool" where
  "rejoins s s' \<longleftrightarrow> state s = Observer \<and> state s' \<noteq> Observer"

lemma may_check_battery:
  assumes "rejoins s (check_battery s) \<longrightarrow> fresh"
  shows "may ids i known fresh s (check_battery s)"
proof (cases "protocol s = Raft")
  case True
  then show ?thesis by (simp add: check_battery_def may_refl)
next
  case False
  define s1 where "s1 = s\<lparr>battery := bat_of s, env := env_of s\<rparr>"
  have s1: "quiet s s1" "protocol s1 \<noteq> Raft" using False by (simp_all add: s1_def quiet_def)
  have res: "check_battery s =
     (if lvl_of s < T_LOW \<and> state s1 \<noteq> Observer then s1\<lparr>state := Observer, voted_for := None\<rparr>
      else if lvl_of s \<ge> T_RESTORE \<and> state s1 = Observer then s1\<lparr>state := Follower\<rparr> else s1)"
    using False by (simp add: check_battery_def battery_level_nf s1_def)
  show ?thesis
  proof (cases "lvl_of s \<ge> T_RESTORE \<and> state s1 = Observer")
    case True
    then have "rejoins s (check_battery s)"
      using res by (simp add: rejoins_def) (simp add: s1_def)
    then have fresh using assms by simp
    then show ?thesis
      using res True may_quiet_first [OF s1(1) may_unmute] by simp
  next
    case False
    then show ?thesis
      using res s1 by (auto simp: may_quiet intro: may_quiet_first may_mute)
  qed
qed

lemma quiet_with_battery: "quiet s (with_battery f s)"
  by (simp add: with_battery_def quiet_def split: prod.split)

lemma state_publish: "state (publish_status s) = state s"
  by (simp add: publish_status_def battery_level_nf Let_def)

lemma state_with_battery: "state (with_battery f s) = state s"
  by (simp add: with_battery_def split: prod.split)

lemma may_demo_control:
  assumes "rejoins s (handle_demo_control sender p s) \<longrightarrow> fresh"
  shows "may ids i known fresh s (handle_demo_control sender p s)"
proof -
  have set: "may ids i known fresh s (publish_status (check_battery (with_battery f s)))"
    if "rejoins s (publish_status (check_battery (with_battery f s))) \<longrightarrow> fresh" for f
  proof -
    have "rejoins (with_battery f s) (check_battery (with_battery f s)) \<longrightarrow> fresh"
      using that by (simp add: rejoins_def state_publish state_with_battery)
    then have "may ids i known fresh (with_battery f s) (check_battery (with_battery f s))"
      by (rule may_check_battery)
    then show ?thesis
      by (rule may_then_quiet [OF may_quiet_first [OF quiet_with_battery] quiet_publish])
  qed
  show ?thesis
    using assms set by (simp add: handle_demo_control_def may_refl split: if_splits)
qed

lemma may_initiate_handoff:
  assumes "leading s"
  shows "may ids i known False s (initiate_handoff s)"
proof -
  define s1 where "s1 = s\<lparr>handoff_sent := True\<rparr>"
  define s2 where "s2 = s1\<lparr>battery := bat_of s1, env := env_of s1\<rparr>"
  have s2: "quiet s s2" by (simp add: s2_def s1_def quiet_def)
  have res: "initiate_handoff s = (case handoff_candidates s2 of
           [] \<Rightarrow> s2
         | (successor, successor_battery) # _ \<Rightarrow>
             if successor_battery \<le> of_int (lvl_of s1) then s2
             else (let s = send successor
                         (LeadershipHandoff (current_term s2) (Some (node_id s2))) s2
                   in reset_election_timer (s\<lparr>state := Follower\<rparr>)))"
    by (simp only: initiate_handoff_def battery_level_nf s1_def s2_def Let_def prod.case)
  show ?thesis
  proof (cases "initiate_handoff s = s2")
    case True
    with s2 show ?thesis by (simp add: may_quiet)
  next
    case False
    then obtain r where r: "initiate_handoff s = reset_election_timer
        ((send r (LeadershipHandoff (current_term s2) (Some (node_id s2))) s2)\<lparr>state := Follower\<rparr>)"
      using res by (auto split: list.splits if_splits prod.splits simp: Let_def)
    define s3 where "s3 = send r (LeadershipHandoff (current_term s2) (Some (node_id s2))) s2"
    have "quiet s2 s3" by (simp add: s3_def quiet_send)
    with s2 have s3: "quiet s s3" by (rule quiet_trans)
    have "state s3 \<in> {Candidate, Leader, LocalLeader}"
      using assms quiet_leading [OF s3] by (auto simp: leading_def)
    then have "may ids i known False s (s3\<lparr>state := Follower\<rparr>)"
      by (intro may_quiet_first [OF s3] may_resign)
    then show ?thesis
      unfolding r s3_def [symmetric] by (rule may_then_quiet) (rule quiet_timer)
  qed
qed

lemma quiet_tick_echo: "quiet s (tick_echo now s)"
  by (simp add: tick_echo_def quiet_refl quiet_trans [OF quiet_ping])

lemma quiet_tick_raft: "leading s \<Longrightarrow> quiet s (tick_raft now s)"
  by (simp add: tick_raft_def quiet_refl quiet_trans [OF quiet_heartbeats])

lemma may_tick_echod:
  assumes "leading s"
  shows "may ids i known False s (tick_echod now s)"
proof -
  define s1 where "s1 = (if batch_due now s then flush_batch s else s)"
  define s2 where "s2 = (if now - last_ping_time s1 \<ge> ping_interval_s s1
               then (send_liveness_ping s1)\<lparr>last_ping_time := now\<rparr> else s1)"
  define s3 where "s3 = s2\<lparr>battery := bat_of s2, env := env_of s2\<rparr>"
  have "quiet s s1" using assms by (simp add: s1_def quiet_flush_batch quiet_refl)
  also have "quiet s1 s2" by (simp add: s2_def quiet_refl quiet_trans [OF quiet_ping])
  also have "quiet s2 s3" by (simp add: s3_def quiet_def)
  finally have s3: "quiet s s3" .
  then have "leading s3" using assms quiet_leading by simp
  moreover have "tick_echod now s =
      (if lvl_of s2 < T_HANDOFF \<and> \<not> handoff_sent s3 then initiate_handoff s3 else s3)"
    by (simp add: tick_echod_def Let_def s1_def [symmetric] s2_def [symmetric] battery_level_nf
        s3_def)
  ultimately show ?thesis
    using s3 by (simp add: may_quiet may_quiet_first [OF s3 may_initiate_handoff])
qed

lemma may_tick:
  assumes "peers s \<noteq> []" and "node_id s = i"
  shows "may ids i known False s (tick s)"
proof -
  define now where "now = time_of s"
  define s1 where "s1 = s\<lparr>env := tick_env s\<rparr>"
  have s1: "quiet s s1" by (simp add: s1_def)
  define s2 where "s2 = (if leading s1
                    then (case protocol s1 of
                        Raft \<Rightarrow> tick_raft now s1
                      | Echod \<Rightarrow> tick_echod now s1
                      | Echo \<Rightarrow> tick_echo now s1)
                    else if now \<ge> election_deadline s1 then start_election s1
                    else s1)"
  have s2: "may ids i known False s1 s2"
  proof (cases "leading s1")
    case True
    then show ?thesis
      by (cases "protocol s1")
        (simp_all add: s2_def may_quiet quiet_tick_raft quiet_tick_echo may_tick_echod)
  next
    case False
    have "peers s1 \<noteq> []" "node_id s1 = i" using assms by (simp_all add: s1_def)
    with False show ?thesis by (simp add: s2_def may_start_election may_refl)
  qed
  have "tick s = (if state s1 = Observer then s1
      else if keepalive_due now s2 then (send_leaf_keepalives s2)\<lparr>last_leaf_keepalive := now\<rparr>
      else s2)"
    by (simp only: tick_def now_s_nf Let_def prod.case now_def s1_def s2_def)
  moreover have "may ids i known False s s2" by (rule may_quiet_first [OF s1 s2])
  moreover have "quiet s2 ((send_leaf_keepalives s2)\<lparr>last_leaf_keepalive := now\<rparr>)"
    by (simp add: quiet_trans [OF quiet_keepalives])
  ultimately show ?thesis
    using s1 by (simp add: may_quiet may_then_quiet)
qed

text \<open>
  A reception: requests come from the candidate they name, and a granted vote is known to
  have been cast.
\<close>

fun authentic :: "string \<Rightarrow> string \<Rightarrow> (string \<times> int \<times> string) set \<Rightarrow> payload \<Rightarrow> bool" where
  "authentic i sender known (RequestVote _ c _ _ _) = (c = sender \<and> sender \<noteq> ''*'')"
| "authentic i sender known (VoteResponse t g _ _) = (g \<longrightarrow> (sender, t, i) \<in> known)"
| "authentic i sender known _ = True"

lemma may_handle:
  assumes "handle sender p s = Inr s'" and "authentic i sender known p"
    and "finite ids" and "Suc (length (peers s)) = card ids"
    and "peers s \<noteq> []" and "node_id s = i" and "rejoins s s' \<longrightarrow> fresh"
  shows "may ids i known fresh s s'"
proof (cases p)
  case RequestVote
  then have "rv_candidate_id p = sender" and "sender \<noteq> ''*''"
    and "s' = handle_request_vote sender p s"
    using assms(1,2) by (simp_all add: handle_def)
  then show ?thesis by (simp add: may_weaken [OF may_request_vote])
next
  case VoteResponse
  then have "vr_vote_granted p \<longrightarrow> (sender, vr_term p, i) \<in> known"
    and "s' = handle_vote_response sender p s"
    using assms(1,2) by (simp_all add: handle_def)
  then show ?thesis using assms(3,4) by (simp add: may_weaken [OF may_vote_response])
next
  case AppendEntries
  then have "handle_append_entries sender p s = Inr s'"
    using assms(1) by (simp add: handle_def)
  then show ?thesis by (rule may_weaken [OF may_append_entries])
next
  case AppendResponse
  then have s': "s' = handle_append_response sender p s" using assms(1) by (simp add: handle_def)
  show ?thesis unfolding s' by (rule may_weaken [OF may_append_response])
next
  case LivenessPing
  then have s': "s' = handle_liveness_ping sender p s" using assms(1) by (simp add: handle_def)
  show ?thesis unfolding s' by (rule may_weaken [OF may_liveness_ping])
next
  case LeafRegister
  then have s': "s' = handle_leaf_register sender p s" using assms(1) by (simp add: handle_def)
  show ?thesis unfolding s' by (rule may_quiet [OF quiet_leaf_register])
next
  case SensorData
  then have s': "s' = handle_sensor_data sender p s" using assms(1) by (simp add: handle_def)
  show ?thesis unfolding s' by (rule may_quiet [OF quiet_sensor_data [OF SensorData]])
next
  case LeadershipHandoff
  then have s': "s' = handle_leadership_handoff sender p s" using assms(1) by (simp add: handle_def)
  show ?thesis unfolding s' by (rule may_weaken [OF may_leadership_handoff [OF assms(5,6)]])
next
  case ReconcileBatch
  then have s': "s' = handle_reconcile_batch sender p s" using assms(1) by (simp add: handle_def)
  show ?thesis unfolding s' by (rule may_quiet [OF quiet_reconcile_batch])
next
  case PartitionControl
  then have s': "s' = handle_partition_control sender p s" using assms(1) by (simp add: handle_def)
  show ?thesis unfolding s' by (rule may_weaken [OF may_partition_control])
next
  case DemoControl
  then have "s' = handle_demo_control sender p s" using assms(1) by (simp add: handle_def)
  then show ?thesis using assms(7) may_demo_control by simp
next
  case LeafRegisterResponse
  then show ?thesis using assms(1) may_refl by (simp add: handle_def)
next
  case OtherMessage
  then show ?thesis using assms(1) may_refl by (simp add: handle_def)
qed

end
