(* ===== verification/Cluster.thy ===== *)
theory Cluster
  imports Simulation
begin

text \<open>
  A cluster of coordinator processes over MQTT. The network holds every message ever
  published and any of them may be delivered at any time, again or never: loss,
  duplication, delay and reordering are all behaviours of it. A node acts through the parts
  of its event loop; a Python exception ends its process.
\<close>

section \<open>Nodes and network\<close>

datatype action = Start | HandleNext | CheckBattery | Tick | Publish | Stop

text \<open>
  One part of the loop. \<open>run\<close> is called once; the parts of the loop run while
  \<open>_running\<close> is set.
\<close>

definition act :: "action \<Rightarrow> coordinator \<Rightarrow> coordinator result" where
  "act a s =
     (case a of
        Start \<Rightarrow> Inr (if inbox s = None then run_start s else s)
      | HandleNext \<Rightarrow>
          (if \<not> running s then Inr s
           else (case inbox s of
               Some ((sender, p) # q) \<Rightarrow> receive sender p (s\<lparr>inbox := Some q\<rparr>)
             | _ \<Rightarrow> Inr s))
      | CheckBattery \<Rightarrow> Inr (if running s then check_battery s else s)
      | Tick \<Rightarrow> Inr (if running s then tick s else s)
      | Publish \<Rightarrow> Inr (if running s then publish_status s else s)
      | Stop \<Rightarrow> Inr (stop s))"

type_synonym envelope = "string \<times> string \<times> payload"

record system =
  nodes :: "string \<Rightarrow> coordinator"
  net :: "envelope set"

text \<open>What leaves, the mock leaves, the dashboard and the partition tool publish.\<close>

fun client_message :: "payload \<Rightarrow> bool" where
  "client_message (LeafRegister _) = True"
| "client_message (SensorData _ _ _ _) = True"
| "client_message (PartitionControl _ _ _) = True"
| "client_message (DemoControl _ _ _ _) = True"
| "client_message (OtherMessage _) = True"
| "client_message _ = False"

datatype event = Act string action | Deliver string envelope | Inject envelope

definition emitted :: "string \<Rightarrow> coordinator \<Rightarrow> envelope set" where
  "emitted i s = (\<lambda>(r, p). (i, r, p)) ` set (outbox s)"

text \<open>
  A delivery: \<open>_on_message\<close> ignores the node's own messages, and the topics are the
  node's own and the broadcast topic.
\<close>

fun sys_step :: "string set \<Rightarrow> event \<Rightarrow> system \<Rightarrow> system option" where
  "sys_step ids (Act i a) S =
     (if i \<notin> ids then None
      else (case act a ((nodes S i)\<lparr>outbox := []\<rparr>) of
          Inl e \<Rightarrow> Some (S\<lparr>nodes := (nodes S)(i := stop (nodes S i))\<rparr>)
        | Inr s \<Rightarrow> Some (S\<lparr>nodes := (nodes S)(i := s), net := net S \<union> emitted i s\<rparr>)))"
| "sys_step ids (Deliver i (sender, r, p)) S =
     (if i \<in> ids \<and> (sender, r, p) \<in> net S \<and> sender \<noteq> i \<and> (r = i \<or> r = ''*'')
      then Some (S\<lparr>nodes := (nodes S)(i := dispatch sender p (nodes S i))\<rparr>)
      else None)"
| "sys_step ids (Inject (sender, r, p)) S =
     (if sender \<notin> ids \<and> client_message p
      then Some (S\<lparr>net := insert (sender, r, p) (net S)\<rparr>) else None)"

text \<open>The start: every node freshly constructed, each with the others as its peers.\<close>

definition initial :: "string set \<Rightarrow> system \<Rightarrow> bool" where
  "initial ids S \<longleftrightarrow>
     finite ids \<and> 2 \<le> card ids \<and> ''*'' \<notin> ids \<and> net S = {} \<and>
     (\<forall>i \<in> ids. \<exists>proto ps b demo w. insert i (set ps) = ids \<and> distinct ps \<and>
        init_coordinator proto i ps b demo w = Inr (nodes S i))"

text \<open>
  A cluster is orderly while an observer takes part again only in a term for which it has
  published no ballot of its own.
\<close>

definition no_ballot :: "system \<Rightarrow> string \<Rightarrow> int \<Rightarrow> bool" where
  "no_ballot S i t \<longleftrightarrow> (\<forall>(j, r, p) \<in> net S. j = i \<longrightarrow> ballot_term p \<noteq> Some t)"

definition orderly :: "string set \<Rightarrow> system \<Rightarrow> system \<Rightarrow> bool" where
  "orderly ids S S' \<longleftrightarrow>
     (\<forall>i \<in> ids. rejoins (nodes S i) (nodes S' i) \<longrightarrow>
        no_ballot S i (current_term (nodes S i)))"

inductive run :: "string set \<Rightarrow> system \<Rightarrow> bool" for ids where
  run_initial: "initial ids S \<Longrightarrow> run ids S"
| run_step: "run ids S \<Longrightarrow> sys_step ids e S = Some S' \<Longrightarrow> run ids S'"

inductive orderly_run :: "string set \<Rightarrow> system \<Rightarrow> bool" for ids where
  orderly_initial: "initial ids S \<Longrightarrow> orderly_run ids S"
| orderly_step: "orderly_run ids S \<Longrightarrow> sys_step ids e S = Some S' \<Longrightarrow> orderly ids S S' \<Longrightarrow>
     orderly_run ids S'"


section \<open>The refinement relation\<close>

definition node_ok :: "string set \<Rightarrow> string \<Rightarrow> coordinator \<Rightarrow> bool" where
  "node_ok ids i s \<longleftrightarrow>
     node_id s = i \<and> wf_dict (votes s) \<and> distinct (peers s) \<and> set (peers s) = ids - {i}"

definition inbox_ok :: "system \<Rightarrow> string \<Rightarrow> coordinator \<Rightarrow> bool" where
  "inbox_ok S i s \<longleftrightarrow>
     (\<forall>q f m. inbox s = Some q \<longrightarrow> (f, m) \<in> set q \<longrightarrow>
        f \<noteq> i \<and> (\<exists>r. (f, r, m) \<in> net S \<and> (r = i \<or> r = ''*'')))"

definition net_ok :: "string set \<Rightarrow> envelope set \<Rightarrow> string poll \<Rightarrow> bool" where
  "net_ok ids N p \<longleftrightarrow>
     (\<forall>i r m. (i, r, m) \<in> N \<longrightarrow> (if i \<in> ids then justified i p (r, m) else client_message m))"

definition casts_ok :: "string set \<Rightarrow> envelope set \<Rightarrow> string poll \<Rightarrow> bool" where
  "casts_ok ids N p \<longleftrightarrow>
     (\<forall>v t c. (v, t, c) \<in> cast p \<longrightarrow>
        v \<in> ids \<and> (\<exists>r m. (v, r, m) \<in> N \<and> ballot_term m = Some t))"

definition refines :: "string set \<Rightarrow> system \<Rightarrow> string poll \<Rightarrow> bool" where
  "refines ids S p \<longleftrightarrow>
     finite ids \<and> 2 \<le> card ids \<and> ''*'' \<notin> ids \<and>
     poll_reach (majority_of ids) p \<and>
     (\<forall>i \<in> ids. member p i = ballot_of (nodes S i) \<and> node_ok ids i (nodes S i) \<and>
        inbox_ok S i (nodes S i)) \<and>
     net_ok ids (net S) p \<and> casts_ok ids (net S) p"

lemma init_coordinator_fields:
  assumes "init_coordinator proto i ps b demo w = Inr s"
  shows "node_id s = i" "peers s = filter (\<lambda>p. p \<noteq> i) ps" "votes s = []" "state s = Follower"
    "current_term s = 0" "voted_for s = None" "inbox s = None" "outbox s = []" "log s = []"
    "commit_index s = 0" "running s = False"
    "parse_protocol proto = Some (protocol s)"
proof -
  obtain pr where pr: "parse_protocol proto = Some pr"
    using assms by (auto simp: init_coordinator_def split: option.splits)
  let ?s = "reset_election_timer (blank pr i ps b demo w)"
  have s: "s = ?s\<lparr>env := tick_env ?s, last_consensus_activity := time_of ?s\<rparr>"
    using assms by (simp add: init_coordinator_def pr now_s_nf Let_def)
  show "node_id s = i" "peers s = filter (\<lambda>p. p \<noteq> i) ps" "votes s = []" "state s = Follower"
    "current_term s = 0" "voted_for s = None" "inbox s = None" "outbox s = []" "log s = []"
    "commit_index s = 0" "running s = False" "parse_protocol proto = Some (protocol s)"
    unfolding s pr reset_election_timer_nf by (simp_all add: blank_def)
qed

lemma refines_initial:
  assumes "initial ids S"
  shows "\<exists>p. refines ids S p"
proof -
  let ?p = "\<lparr>member = (\<lambda>i. if i \<in> ids then ballot_of (nodes S i)
      else \<lparr>b_term = 0, b_vote = None, b_role = Idle, b_tally = {}\<rparr>), cast = {}, won = {}\<rparr>"
  have node: "node_ok ids i (nodes S i) \<and> inbox (nodes S i) = None \<and> state (nodes S i) = Follower"
    if i: "i \<in> ids" for i
  proof -
    obtain proto ps b demo w where ps: "insert i (set ps) = ids" "distinct ps"
      and init: "init_coordinator proto i ps b demo w = Inr (nodes S i)"
      using assms i unfolding initial_def by meson
    show ?thesis
      using ps init_coordinator_fields [OF init] by (auto simp: node_ok_def)
  qed
  then have "poll_start ?p" by (auto simp: poll_start_def)
  then have "poll_reach (majority_of ids) ?p" by (rule poll_reach.start)
  with node assms have "refines ids S ?p"
    by (auto simp: refines_def initial_def net_ok_def casts_ok_def inbox_ok_def)
  then show ?thesis by blast
qed

text \<open>The premises a node's step starts from.\<close>

lemma refines_tracks:
  assumes "refines ids S p" and "i \<in> ids" and "s = (nodes S i)\<lparr>outbox := []\<rparr>"
    and "fresh \<longrightarrow> no_ballot S i (current_term s)"
  shows "tracks ids i (cast p) fresh p (s\<lparr>inbox := q\<rparr>)"
proof -
  have "ballot_of (s\<lparr>inbox := q\<rparr>) = ballot_of (nodes S i)"
    by (simp add: assms(3) ballot_of_def)
  moreover have "fresh \<longrightarrow> (\<forall>c. (i, current_term s, c) \<notin> cast p)"
    using assms(1,2,4) unfolding refines_def casts_ok_def no_ballot_def by fastforce
  ultimately show ?thesis
    using assms by (auto simp: tracks_def refines_def node_ok_def casts_ok_def)
qed

lemma card_peers:
  assumes "node_ok ids i s" and "i \<in> ids" and "finite ids" and "2 \<le> card ids"
  shows "Suc (length (peers s)) = card ids" and "peers s \<noteq> []"
proof -
  have "length (peers s) = card (ids - {i})"
    using assms(1) distinct_card by (fastforce simp: node_ok_def)
  then show "Suc (length (peers s)) = card ids" and "peers s \<noteq> []"
    using assms(2-4) by auto
qed

text \<open>An evolution of one node, its outbox published, keeps the relation.\<close>

lemma refines_evolves:
  assumes R: "refines ids S p" and i: "i \<in> ids"
    and ev: "evolves ids i p s p' s'" and out: "outbox s = []"
    and ident: "node_id s = i" "peers s = peers (nodes S i)"
    and box: "inbox_ok S i s"
  shows "refines ids (S\<lparr>nodes := (nodes S)(i := s'), net := net S \<union> emitted i s'\<rparr>) p'"
proof -
  have steps: "(poll_step (majority_of ids))\<^sup>*\<^sup>* p p'" using ev by (simp add: evolves_def)
  then have grow: "cast p \<subseteq> cast p'" "won p \<subseteq> won p'" using steps_mono by blast+
  have just: "\<forall>m \<in> set (outbox s'). justified i p' m"
    and new: "\<forall>v t c. (v, t, c) \<in> cast p' \<longrightarrow> (v, t, c) \<in> cast p \<or>
           v = i \<and> (\<exists>m \<in> set (outbox s'). ballot_term (snd m) = Some t)"
    using ev out by (auto simp: evolves_def)
  let ?N = "net S \<union> emitted i s'"
  have net: "net_ok ids ?N p'"
    unfolding net_ok_def
  proof (intro allI impI)
    fix j r m
    assume "(j, r, m) \<in> ?N"
    then consider "(j, r, m) \<in> net S" | "j = i" "(r, m) \<in> set (outbox s')"
      by (auto simp: emitted_def)
    then show "if j \<in> ids then justified j p' (r, m) else client_message m"
    proof cases
      case 1
      then have "if j \<in> ids then justified j p (r, m) else client_message m"
        using R by (simp add: refines_def net_ok_def)
      then show ?thesis using grow by (auto intro: justified_mono split: if_splits)
    next
      case 2
      then show ?thesis using i just by simp
    qed
  qed
  have casts: "casts_ok ids ?N p'"
    unfolding casts_ok_def
  proof (intro allI impI)
    fix v t c
    assume "(v, t, c) \<in> cast p'"
    with new consider "(v, t, c) \<in> cast p"
      | m where "v = i" "m \<in> set (outbox s')" "ballot_term (snd m) = Some t" by blast
    then show "v \<in> ids \<and> (\<exists>r m. (v, r, m) \<in> ?N \<and> ballot_term m = Some t)"
    proof cases
      case 1
      then have "v \<in> ids \<and> (\<exists>r m. (v, r, m) \<in> net S \<and> ballot_term m = Some t)"
        using R unfolding refines_def casts_ok_def by blast
      then show ?thesis by blast
    next
      case 2
      have "(i, fst m, snd m) \<in> emitted i s'"
        using 2(2) unfolding emitted_def by (intro image_eqI [of _ _ m]) (simp_all add: split_beta)
      then show ?thesis using 2 i by blast
    qed
  qed
  have mem: "member p' = (member p)(i := ballot_of s')"
    using ev by (simp add: evolves_def)
  have reach: "poll_reach (majority_of ids) p'"
    using poll_reach_steps [OF steps] R by (simp add: refines_def)
  have node: "node_ok ids i s'"
    using ev R i ident by (auto simp: node_ok_def evolves_def refines_def)
  have "inbox s' = inbox s" using ev by (simp add: evolves_def)
  then have "inbox_ok S i s'" using box by (simp add: inbox_ok_def)
  then have box': "inbox_ok (S\<lparr>nodes := (nodes S)(i := s'), net := ?N\<rparr>) i s'"
    unfolding inbox_ok_def by fastforce
  have nodes: "member p' j = ballot_of (((nodes S)(i := s')) j) \<and>
      node_ok ids j (((nodes S)(i := s')) j) \<and>
      inbox_ok (S\<lparr>nodes := (nodes S)(i := s'), net := ?N\<rparr>) j (((nodes S)(i := s')) j)"
    if j: "j \<in> ids" for j
  proof (cases "j = i")
    case True
    with mem node box' show ?thesis by simp
  next
    case False
    have "inbox_ok S j (nodes S j)" using R j by (simp add: refines_def)
    then have "inbox_ok (S\<lparr>nodes := (nodes S)(i := s'), net := ?N\<rparr>) j (nodes S j)"
      unfolding inbox_ok_def by fastforce
    with False R j mem show ?thesis by (simp add: refines_def)
  qed
  let ?T = "S\<lparr>nodes := (nodes S)(i := s'), net := ?N\<rparr>"
  have T: "nodes ?T = (nodes S)(i := s')" "net ?T = ?N" by simp_all
  show ?thesis
    unfolding refines_def T
    using R net casts reach nodes unfolding refines_def by blast
qed

text \<open>A quiet change of one node keeps the relation too.\<close>

lemma authentic_from_net:
  assumes "refines ids S p" and "i \<in> ids" and "(f, r, m) \<in> net S" and "r = i \<or> r = ''*''"
  shows "authentic i f (cast p) m"
proof (cases "f \<in> ids")
  case True
  then have "justified f p (r, m)" and "f \<noteq> ''*''"
    using assms unfolding refines_def net_ok_def by (metis (full_types), metis)
  then show ?thesis using assms(4) by (cases m) auto
next
  case False
  then have "client_message m"
    using assms unfolding refines_def net_ok_def by metis
  then show ?thesis by (cases m) auto
qed

lemma refines_crash:
  assumes "refines ids S p" and "i \<in> ids"
  shows "refines ids (S\<lparr>nodes := (nodes S)(i := stop (nodes S i))\<rparr>) p"
proof -
  have "ballot_of (stop s) = ballot_of s" "node_ok ids j (stop s) = node_ok ids j s" for j s
    by (simp_all add: stop_def ballot_of_def node_ok_def)
  moreover have "inbox_ok (S\<lparr>nodes := ns\<rparr>) j s = inbox_ok S j s"
    "inbox_ok S j (stop s) = inbox_ok S j s" for ns j s
    by (simp_all add: inbox_ok_def stop_def)
  ultimately show ?thesis using assms by (simp add: refines_def)
qed

lemma refines_inject:
  assumes "refines ids S p" and "f \<notin> ids" and "client_message m"
  shows "refines ids (S\<lparr>net := insert (f, r, m) (net S)\<rparr>) p"
proof -
  have "inbox_ok S j s \<Longrightarrow> inbox_ok (S\<lparr>net := insert (f, r, m) (net S)\<rparr>) j s" for j s
    unfolding inbox_ok_def by fastforce
  moreover have "net_ok ids (insert (f, r, m) (net S)) p"
    using assms by (auto simp: refines_def net_ok_def)
  moreover have "casts_ok ids (insert (f, r, m) (net S)) p"
    using assms unfolding refines_def casts_ok_def by blast
  ultimately show ?thesis using assms(1) by (simp add: refines_def)
qed

lemma refines_dispatch:
  assumes R: "refines ids S p" and "i \<in> ids" and m: "(f, r, m) \<in> net S" "f \<noteq> i"
    "r = i \<or> r = ''*''"
  shows "refines ids (S\<lparr>nodes := (nodes S)(i := dispatch f m (nodes S i))\<rparr>) p"
proof -
  let ?s = "nodes S i" and ?s' = "dispatch f m (nodes S i)"
  have same: "ballot_of ?s' = ballot_of ?s" "node_ok ids i ?s' = node_ok ids i ?s"
    by (simp_all add: dispatch_def ballot_of_def node_ok_def split: option.split)
  have "inbox_ok S i ?s" using assms by (simp add: refines_def)
  then have "inbox_ok S i ?s'"
    using m unfolding inbox_ok_def dispatch_def by (auto split: option.splits if_splits)
  moreover have "inbox_ok (S\<lparr>nodes := ns\<rparr>) j s = inbox_ok S j s" for ns j s
    by (simp add: inbox_ok_def)
  ultimately show ?thesis using R assms(2) same by (simp add: refines_def)
qed


section \<open>Every step of the cluster refines the election\<close>

text \<open>A coordinator of the plain Raft protocol is never muted.\<close>

definition plain :: "coordinator \<Rightarrow> bool" where
  "plain s \<longleftrightarrow> protocol s = Raft \<and> state s \<noteq> Observer"

lemma refines_may:
  assumes R: "refines ids S p" and i: "i \<in> ids"
    and s: "s = (nodes S i)\<lparr>outbox := [], inbox := q\<rparr>" and box: "inbox_ok S i s"
    and m: "may ids i (cast p) fresh s s'"
    and fresh: "fresh \<longrightarrow> no_ballot S i (current_term (nodes S i))"
  shows "(\<exists>p'. refines ids (S\<lparr>nodes := (nodes S)(i := s'), net := net S \<union> emitted i s'\<rparr>) p' \<and>
      won p \<subseteq> won p')
    \<and> (plain (nodes S i) \<longrightarrow> plain s')"
proof -
  have "tracks ids i (cast p) fresh p ((nodes S i)\<lparr>outbox := [], inbox := q\<rparr>)"
    using refines_tracks [OF R i refl, of fresh q] fresh by simp
  then obtain p' where ev: "evolves ids i p s p' s'"
    using m unfolding may_def s by blast
  moreover have "plain (nodes S i) \<longrightarrow> plain s'"
    using ev by (simp add: evolves_def plain_def s)
  moreover have "node_id s = i" "peers s = peers (nodes S i)" "outbox s = []"
    using R i by (auto simp: s refines_def node_ok_def)
  moreover have "won p \<subseteq> won p'"
    using ev steps_mono [of ids p p'] by (simp add: evolves_def)
  ultimately show ?thesis using refines_evolves [OF R i] box by blast
qed

lemma inbox_ok_cong: "inbox s = inbox s' \<Longrightarrow> inbox_ok S i s = inbox_ok S i s'"
  by (simp add: inbox_ok_def)

lemma inbox_ok_member:
  "inbox_ok S i s \<Longrightarrow> inbox s = Some q \<Longrightarrow> (f, m) \<in> set q \<Longrightarrow>
   f \<noteq> i \<and> (\<exists>r. (f, r, m) \<in> net S \<and> (r = i \<or> r = ''*''))"
  by (simp add: inbox_ok_def)

text \<open>
  A part of the loop, from the node with its outbox emptied and the inbox it works on, is a
  sequence of abstract moves.
\<close>

lemma may_act:
  assumes R: "refines ids S p" and i: "i \<in> ids"
    and a: "act a ((nodes S i)\<lparr>outbox := []\<rparr>) = Inr s'"
  shows "\<exists>q. inbox_ok S i ((nodes S i)\<lparr>outbox := [], inbox := q\<rparr>) \<and>
    may ids i (cast p) (rejoins (nodes S i) s') ((nodes S i)\<lparr>outbox := [], inbox := q\<rparr>) s'"
proof -
  define s where "s = nodes S i"
  let ?s = "\<lambda>q. s\<lparr>outbox := [], inbox := q\<rparr>"
  have self: "s\<lparr>outbox := []\<rparr> = ?s (inbox s)" by simp
  have ok: "inbox_ok S i s" and node: "node_ok ids i s" and ids: "finite ids" "2 \<le> card ids"
    using R i by (auto simp: refines_def s_def)
  have box: "inbox_ok S i (?s (inbox s))" using ok by (simp add: inbox_ok_def)
  have card: "Suc (length (peers s)) = card ids" "peers s \<noteq> []"
    using card_peers [OF node i ids] by auto
  have idle: "?thesis" if "s' = ?s (inbox s)"
    using box that by (intro exI [of _ "inbox s"]) (auto simp: may_refl s_def)
  have use: "?thesis" if "may ids i (cast p) (rejoins s s') (?s (inbox s)) s'"
    using box that by (intro exI [of _ "inbox s"]) (auto simp: s_def)
  show ?thesis
  proof (cases a)
    case Start
    show ?thesis
    proof (cases "inbox s")
      case None
      have "s' = run_start (s\<lparr>outbox := []\<rparr>)"
        using a None Start by (simp add: act_def s_def [symmetric])
      then have "quiet (?s (Some [])) s'"
        by (simp add: run_start_def battery_level_nf quiet_def)
      moreover have "inbox_ok S i (?s (Some []))" by (simp add: inbox_ok_def)
      ultimately show ?thesis
        by (intro exI [of _ "Some []"]) (auto intro: may_quiet simp: s_def)
    next
      case Some
      with a Start idle show ?thesis by (auto simp: act_def s_def)
    qed
  next
    case HandleNext
    show ?thesis
    proof (cases "running s \<and> (\<exists>f m q. inbox s = Some ((f, m) # q))")
      case False
      then have "s' = ?s (inbox s)"
        using a HandleNext
        by (auto simp: act_def s_def [symmetric] split: option.splits list.splits if_splits)
      then show ?thesis by (rule idle)
    next
      case True
      then obtain f m q where q: "inbox s = Some ((f, m) # q)" and "running s" by blast
      define c where "c = count_received m (?s (Some q))"
      have h: "handle f m c = Inr s'"
        using a HandleNext q \<open>running s\<close>
        by (simp add: act_def s_def [symmetric] receive_def c_def)
      have "\<exists>r. (f, r, m) \<in> net S \<and> (r = i \<or> r = ''*'')"
        using inbox_ok_member [OF ok q] by simp
      then obtain r where "(f, r, m) \<in> net S" "r = i \<or> r = ''*''" by blast
      then have "authentic i f (cast p) m" using authentic_from_net [OF R i] by blast
      moreover have c: "peers c = peers s" "node_id c = i" "rejoins c s' = rejoins s s'"
        using node by (simp_all add: c_def count_received_def node_ok_def rejoins_def)
      ultimately have "may ids i (cast p) (rejoins s s') c s'"
        using ids card by (intro may_handle [OF h]) (simp_all add: c)
      then have "may ids i (cast p) (rejoins s s') (?s (Some q)) s'"
        unfolding c_def by (rule may_quiet_first [OF quiet_count])
      moreover have "inbox_ok S i (?s (Some q))"
        using inbox_ok_member [OF ok q] unfolding inbox_ok_def by (simp, blast)
      ultimately show ?thesis by (auto simp: s_def)
    qed
  next
    case CheckBattery
    have "may ids i (cast p) (rejoins s s') (?s (inbox s)) (check_battery (?s (inbox s)))"
      if "running s"
      using a CheckBattery that
      by (intro may_check_battery) (simp add: act_def s_def [symmetric] rejoins_def)
    then show ?thesis
      using a CheckBattery idle use by (auto simp: act_def s_def [symmetric] split: if_splits)
  next
    case Tick
    have "may ids i (cast p) (rejoins s s') (?s (inbox s)) (tick (?s (inbox s)))"
      using card node by (intro may_weaken [OF may_tick]) (auto simp: node_ok_def)
    then show ?thesis
      using a Tick idle use by (auto simp: act_def s_def [symmetric] split: if_splits)
  next
    case Publish
    have "may ids i (cast p) (rejoins s s') (?s (inbox s)) (publish_status (?s (inbox s)))"
      by (rule may_quiet [OF quiet_publish])
    then show ?thesis
      using a Publish idle use by (auto simp: act_def s_def [symmetric] split: if_splits)
  next
    case Stop
    have "quiet (?s (inbox s)) s'" using a Stop by (auto simp: act_def stop_def s_def)
    then show ?thesis using use by (auto intro: may_quiet)
  qed
qed

lemma refines_step:
  assumes R: "refines ids S p" and "sys_step ids e S = Some S'" and "orderly ids S S'"
  shows "(\<exists>p'. refines ids S' p' \<and> won p \<subseteq> won p') \<and>
    ((\<forall>i \<in> ids. plain (nodes S i)) \<longrightarrow> (\<forall>i \<in> ids. plain (nodes S' i)))"
proof (cases e)
  case (Act i a)
  then have i: "i \<in> ids" using assms(2) by (auto split: if_splits)
  show ?thesis
  proof (cases "act a ((nodes S i)\<lparr>outbox := []\<rparr>)")
    case (Inl err)
    then have "S' = S\<lparr>nodes := (nodes S)(i := stop (nodes S i))\<rparr>"
      using assms(2) Act i by simp
    moreover have "plain (stop s) = plain s" for s by (simp add: plain_def stop_def)
    ultimately show ?thesis using refines_crash [OF R i] by auto
  next
    case (Inr s')
    then have S': "S' = S\<lparr>nodes := (nodes S)(i := s'), net := net S \<union> emitted i s'\<rparr>"
      using assms(2) Act i by simp
    then have "rejoins (nodes S i) s' \<longrightarrow> no_ballot S i (current_term (nodes S i))"
      using assms(3) i by (simp add: orderly_def)
    moreover obtain q where "inbox_ok S i ((nodes S i)\<lparr>outbox := [], inbox := q\<rparr>)"
      "may ids i (cast p) (rejoins (nodes S i) s') ((nodes S i)\<lparr>outbox := [], inbox := q\<rparr>) s'"
      using may_act [OF R i Inr] by blast
    ultimately have "(\<exists>p'. refines ids S' p' \<and> won p \<subseteq> won p') \<and> (plain (nodes S i) \<longrightarrow> plain s')"
      unfolding S' using refines_may [OF R i refl] by blast
    moreover from this have "\<forall>j \<in> ids. plain (nodes S j) \<Longrightarrow> \<forall>j \<in> ids. plain (nodes S' j)"
      unfolding S' by simp
    ultimately show ?thesis by blast
  qed
next
  case (Deliver i m)
  then obtain f r pl where m: "m = (f, r, pl)" by (cases m)
  have "plain (dispatch f pl s) = plain s" for s
    by (simp add: plain_def dispatch_def split: option.split)
  then show ?thesis
    using assms(2) Deliver refines_dispatch [OF R] m
    by (auto split: if_splits intro!: exI [of _ p])
next
  case (Inject m)
  then obtain f r pl where m: "m = (f, r, pl)" by (cases m)
  then show ?thesis
    using assms(2) Inject refines_inject [OF R] by (auto split: if_splits)
qed

lemma orderly_run_refines: "orderly_run ids S \<Longrightarrow> \<exists>p. refines ids S p"
proof (induction rule: orderly_run.induct)
  case (orderly_initial S)
  then show ?case by (rule refines_initial)
next
  case (orderly_step S e S')
  then show ?case using refines_step by blast
qed

text \<open>With plain Raft everywhere no node is ever muted, so every run is orderly.\<close>

definition all_raft :: "string set \<Rightarrow> system \<Rightarrow> bool" where
  "all_raft ids S \<longleftrightarrow> (\<forall>i \<in> ids. protocol (nodes S i) = Raft)"

text \<open>A whole schedule of events.\<close>

fun execute :: "string set \<Rightarrow> event list \<Rightarrow> system \<Rightarrow> system option" where
  "execute ids [] S = Some S"
| "execute ids (e # es) S =
     (case sys_step ids e S of None \<Rightarrow> None | Some S' \<Rightarrow> execute ids es S')"

lemma plain_execute:
  "execute ids es S = Some S' \<Longrightarrow> orderly_run ids S \<Longrightarrow> \<forall>i \<in> ids. plain (nodes S i) \<Longrightarrow>
   orderly_run ids S'"
proof (induction es arbitrary: S)
  case Nil
  then show ?case by simp
next
  case (Cons e es)
  obtain S1 where S1: "sys_step ids e S = Some S1" "execute ids es S1 = Some S'"
    using Cons.prems(1) by (auto split: option.splits)
  have o: "orderly ids S S1"
    using Cons.prems(3) by (auto simp: orderly_def rejoins_def plain_def)
  obtain p where p: "refines ids S p"
    using orderly_run_refines [OF Cons.prems(2)] ..
  show ?case
  proof (rule Cons.IH [OF S1(2)])
    show "orderly_run ids S1" using Cons.prems(2) S1(1) o by (rule orderly_step)
    show "\<forall>i \<in> ids. plain (nodes S1 i)"
      by (rule mp [OF conjunct2 [OF refines_step [OF p S1(1) o]] Cons.prems(3)])
  qed
qed

lemma raft_orderly:
  assumes "initial ids S0" and "all_raft ids S0" and "execute ids es S0 = Some S"
  shows "orderly_run ids S"
proof (rule plain_execute [OF assms(3)])
  show "orderly_run ids S0" using assms(1) by (rule orderly_initial)
  show "\<forall>i \<in> ids. plain (nodes S0 i)"
  proof
    fix i
    assume i: "i \<in> ids"
    then obtain proto ps b demo w where "init_coordinator proto i ps b demo w = Inr (nodes S0 i)"
      using assms(1) unfolding initial_def by meson
    then show "plain (nodes S0 i)"
      using init_coordinator_fields(4) assms(2) i by (simp add: plain_def all_raft_def)
  qed
qed

end
