(* ===== verification/Schedules.thy ===== *)
theory Schedules
  imports Cluster
begin

text \<open>
  Concrete clusters and schedules: three freshly built nodes with full mock batteries and a
  clock that advances one second per reading, an election of each protocol, and the schedule
  in which a recharged node votes twice in one term.
\<close>

section \<open>Three nodes\<close>

definition trio :: "string set" where "trio = {''a'', ''b'', ''c''}"

definition trio_list :: "string list" where "trio_list = [''a'', ''b'', ''c'']"

definition charged :: battery where
  "charged = \<lparr>mock = True, level = 100, drain_rate = 0, drain_paused = False, last_read = 0,
     adc_present = False\<rparr>"

definition built :: "protocol \<Rightarrow> string \<Rightarrow> coordinator" where
  "built pr i =
     (let s = reset_election_timer (blank pr i trio_list charged True second_hand); (t, s) = now_s s
      in s\<lparr>last_consensus_activity := t\<rparr>)"

definition power_on :: "protocol \<Rightarrow> system" where
  "power_on pr = \<lparr>nodes = built pr, net = {}\<rparr>"

definition protocol_name :: "protocol \<Rightarrow> string" where
  "protocol_name pr = (case pr of Raft \<Rightarrow> ''raft'' | Echo \<Rightarrow> ''echo'' | Echod \<Rightarrow> ''echod'')"

lemma built_init:
  "init_coordinator (protocol_name pr) i trio_list charged True second_hand = Inr (built pr i)"
  by (cases pr) (simp_all add: init_coordinator_def built_def parse_protocol_def
      protocol_name_def split: prod.split)

lemma initial_power_on: "initial trio (power_on pr)"
  unfolding initial_def
proof (intro conjI ballI)
  show "finite trio" "2 \<le> card trio" "''*'' \<notin> trio" "net (power_on pr) = {}"
    by (simp_all add: trio_def power_on_def)
  fix i
  assume "i \<in> trio"
  then have "insert i (set trio_list) = trio" "distinct trio_list"
    by (auto simp: trio_def trio_list_def)
  then show "\<exists>proto ps b demo w. insert i (set ps) = trio \<and> distinct ps \<and>
      init_coordinator proto i ps b demo w = Inr (nodes (power_on pr) i)"
    using built_init [of pr i] unfolding power_on_def system.simps by meson
qed

lemma protocol_built: "protocol (built pr i) = pr"
  using init_coordinator_fields(12) [OF built_init, of pr i]
  by (cases pr) (simp_all add: parse_protocol_def protocol_name_def)

lemma power_on_raft: "all_raft ids (power_on Raft)"
  by (simp add: all_raft_def power_on_def protocol_built)


section \<open>Schedules\<close>

text \<open>Node \<open>a\<close> times out, \<open>b\<close> grants, \<open>a\<close> wins term 1.\<close>

definition election_of_a :: "event list" where
  "election_of_a =
     [Act ''a'' Start, Act ''b'' Start, Act ''c'' Start, Act ''a'' Tick,
      Deliver ''b'' (''a'', ''b'', RequestVote 1 ''a'' 0 0 100), Act ''b'' HandleNext,
      Deliver ''a'' (''b'', ''a'', VoteResponse 1 True ''b'' 100), Act ''a'' HandleNext]"

text \<open>Node \<open>b\<close> runs low and is recharged; then \<open>c\<close> times out and asks \<open>b\<close> as well.\<close>

definition battery_order :: "rat \<Rightarrow> envelope" where
  "battery_order l = (''dash'', ''b'', DemoControl (Some ''set_battery'') (Some l) None None)"

definition recharged_vote :: "event list" where
  "recharged_vote =
     [Inject (battery_order 10), Deliver ''b'' (battery_order 10), Act ''b'' HandleNext,
      Inject (battery_order 80), Deliver ''b'' (battery_order 80), Act ''b'' HandleNext,
      Act ''c'' Tick,
      Deliver ''b'' (''c'', ''b'', RequestVote 1 ''c'' 0 0 100), Act ''b'' HandleNext,
      Deliver ''c'' (''b'', ''c'', VoteResponse 1 True ''b'' 80), Act ''c'' HandleNext]"

definition outcome :: "protocol \<Rightarrow> event list \<Rightarrow> (system \<Rightarrow> bool) \<Rightarrow> bool" where
  "outcome pr es P = (case execute trio es (power_on pr) of None \<Rightarrow> False | Some S \<Rightarrow> P S)"

lemma outcomeE:
  assumes "outcome pr es P"
  obtains S where "execute trio es (power_on pr) = Some S" and "P S"
  using assms by (auto simp: outcome_def split: option.splits)

lemma a_leads: "outcome Raft election_of_a (\<lambda>S. leading (nodes S ''a''))"
  by code_simp

lemma a_voted: "outcome Raft election_of_a (\<lambda>S.
    (''a'', ''b'', RequestVote 1 ''a'' 0 0 100) \<in> net S \<and>
    (''b'', ''a'', VoteResponse 1 True ''b'' 100) \<in> net S)"
  by code_simp

lemma two_leaders: "outcome Echo (election_of_a @ recharged_vote) (\<lambda>S.
    leading (nodes S ''a'') \<and> leading (nodes S ''c'') \<and>
    current_term (nodes S ''a'') = 1 \<and> current_term (nodes S ''c'') = 1)"
  by code_simp


text \<open>
  A restarted process is a freshly built one, its term and vote lost: \<open>b\<close>, back after voting
  for \<open>a\<close>, votes for \<open>c\<close> in the same term.
\<close>

definition restarted_vote :: "event list" where
  "restarted_vote =
     [Act ''b'' Start, Act ''c'' Tick,
      Deliver ''b'' (''c'', ''b'', RequestVote 1 ''c'' 0 0 100), Act ''b'' HandleNext,
      Deliver ''c'' (''b'', ''c'', VoteResponse 1 True ''b'' 100), Act ''c'' HandleNext]"

definition restarted :: "protocol \<Rightarrow> string \<Rightarrow> system \<Rightarrow> system" where
  "restarted pr i S = S\<lparr>nodes := (nodes S)(i := built pr i)\<rparr>"

lemma votes_again: "outcome Raft election_of_a (\<lambda>S.
    case execute trio restarted_vote (restarted Raft ''b'' S) of None \<Rightarrow> False
    | Some T \<Rightarrow> leading (nodes T ''a'') \<and> leading (nodes T ''c'') \<and>
        current_term (nodes T ''a'') = 1 \<and> current_term (nodes T ''c'') = 1)"
  by code_simp


section \<open>An acknowledgement for another log\<close>

definition report :: "string \<Rightarrow> rat \<Rightarrow> envelope" where
  "report i v = (''leaf'', i, SensorData ''leaf'' ''temp'' v None)"

definition reported :: "string \<Rightarrow> rat \<Rightarrow> event list" where
  "reported i v = [Inject (report i v), Deliver i (report i v), Act i HandleNext]"

definition heard_from :: "string \<Rightarrow> string \<Rightarrow> payload \<Rightarrow> event list" where
  "heard_from i j p = [Deliver i (j, i, p), Act i HandleNext]"

definition logged :: "int \<Rightarrow> int \<Rightarrow> rat \<Rightarrow> rat \<Rightarrow> log_entry" where
  "logged i t v ts = \<lparr>le_index = i, le_term = t, le_command = reading ''temp'' v ''leaf'',
     le_trigger_type = ''event'', le_partition_epoch = 0, le_timestamp = ts\<rparr>"

text \<open>
  The leader \<open>a\<close> of term 1 logs a reading that reaches nobody; \<open>c\<close> wins term 2 with an
  empty log and logs another; its heartbeat, sent before that, finds nothing to compare in
  \<open>a\<close>, which acknowledges the length of its own log.
\<close>

definition stale_ack :: "event list" where
  "stale_ack = election_of_a @ reported ''a'' 1
     @ heard_from ''c'' ''a'' (RequestVote 1 ''a'' 0 0 100)
     @ [Act ''c'' Tick]
     @ heard_from ''b'' ''c'' (RequestVote 2 ''c'' 0 0 100)
     @ heard_from ''c'' ''b'' (VoteResponse 2 True ''b'' 100)
     @ reported ''c'' 2
     @ heard_from ''a'' ''c'' (AppendEntries 2 (Some ''c'') 0 0 (Some []) (Some 0) ''delta'' 0)
     @ heard_from ''c'' ''a'' (AppendResponse 2 True ''a'' 1 (Some 100))"

text \<open>
  Then \<open>c\<close> stops; \<open>a\<close>, whose log is the longer one, wins term 3 with the vote of \<open>b\<close>
  and commits its own entries with it.
\<close>

definition takeover :: "event list" where
  "takeover = [Act ''c'' Stop, Act ''a'' Tick]
     @ heard_from ''b'' ''a'' (RequestVote 3 ''a'' 1 1 100)
     @ heard_from ''a'' ''b'' (VoteResponse 3 True ''b'' 100)
     @ heard_from ''b'' ''a'' (AppendEntries 3 (Some ''a'') 1 1 (Some []) (Some 0) ''delta'' 0)
     @ heard_from ''a'' ''b'' (AppendResponse 3 False ''b'' 0 (Some 100))
     @ reported ''a'' 3
     @ heard_from ''b'' ''a'' (AppendEntries 3 (Some ''a'') 0 0
         (Some [logged 1 1 1 0, logged 2 3 3 1]) (Some 0) ''delta'' 0)
     @ heard_from ''a'' ''b'' (AppendResponse 3 True ''b'' 2 (Some 100))"

lemma commits_alone: "outcome Raft stale_ack (\<lambda>S.
    state (nodes S ''c'') = Leader \<and> commit_index (nodes S ''c'') = 1 \<and>
    log (nodes S ''c'') = [logged 1 2 2 0] \<and>
    log (nodes S ''a'') = [logged 1 1 1 0] \<and> log (nodes S ''b'') = [])"
  by code_simp

lemma commits_twice: "outcome Raft (stale_ack @ takeover) (\<lambda>S.
    commit_index (nodes S ''c'') = 1 \<and> commit_index (nodes S ''a'') = 2 \<and>
    log (nodes S ''c'') = [logged 1 2 2 0] \<and>
    log (nodes S ''a'') = [logged 1 1 1 0, logged 2 3 3 1] \<and>
    log (nodes S ''b'') = [logged 1 1 1 0, logged 2 3 3 1])"
  by code_simp

end
