(* ===== verification/NodeLaws.thy ===== *)
theory NodeLaws
  imports Handlers FollowerLog Schedules
begin

text \<open>
  Laws that every handler and every part of the loop obeys, each an interpretation of the
  relations closed under a coordinator's primitive moves: identity and terms, the message
  counters, the append-only log, and the shape of the messages sent, from which it follows
  that no schedule makes a handler raise.
\<close>

section \<open>Identity and terms\<close>

definition settled :: "coordinator \<Rightarrow> coordinator \<Rightarrow> bool" where
  "settled s s' \<longleftrightarrow> protocol s' = protocol s \<and> node_id s' = node_id s \<and> peers s' = peers s \<and>
     demo_enabled s' = demo_enabled s \<and> tie_break_s s' = tie_break_s s \<and>
     current_term s \<le> current_term s'"

lemma send_append_entries_nf: "send_append_entries peer s =
  s\<lparr>outbox := outbox s @ [(peer, append_message s peer)],
    total_messages_sent := total_messages_sent s + 1,
    messages_sent_by_type := bump ''append_entries'' (messages_sent_by_type s)\<rparr>"
  by (simp add: send_append_entries_def send_def append_message_def Let_def)

interpretation settled: node_rel settled
  by unfold_locales
    (auto simp: settled_def soft_def send_def send_append_entries_nf)


section \<open>Counters\<close>

text \<open>What was sent since is what the counters have grown by.\<close>

definition counted :: "coordinator \<Rightarrow> coordinator \<Rightarrow> bool" where
  "counted s s' \<longleftrightarrow> (\<exists>ms. outbox s' = outbox s @ ms \<and>
     total_messages_sent s' = total_messages_sent s + length ms \<and>
     messages_sent_by_type s' =
       fold (\<lambda>m. bump (msg_type (snd m))) ms (messages_sent_by_type s))"

lemma counted_trans:
  assumes "counted s s1" and "counted s1 s2"
  shows "counted s s2"
proof -
  obtain ms ns where "outbox s1 = outbox s @ ms" "outbox s2 = outbox s1 @ ns"
    "total_messages_sent s1 = total_messages_sent s + length ms"
    "total_messages_sent s2 = total_messages_sent s1 + length ns"
    "messages_sent_by_type s1 = fold (\<lambda>m. bump (msg_type (snd m))) ms (messages_sent_by_type s)"
    "messages_sent_by_type s2 = fold (\<lambda>m. bump (msg_type (snd m))) ns (messages_sent_by_type s1)"
    using assms unfolding counted_def by blast
  then show ?thesis unfolding counted_def by (intro exI [of _ "ms @ ns"]) simp
qed

lemma counted_send: "counted s (send r p s)"
  unfolding counted_def by (intro exI [of _ "[(r, p)]"]) (simp add: send_def)

lemma counted_same:
  "outbox s' = outbox s \<Longrightarrow> total_messages_sent s' = total_messages_sent s \<Longrightarrow>
   messages_sent_by_type s' = messages_sent_by_type s \<Longrightarrow> counted s s'"
  by (simp add: counted_def)

interpretation counted: node_rel counted
  by unfold_locales
    (simp_all add: counted_same soft_def counted_send send_append_entries_def,
      rule counted_trans)

lemma fold_bump_count:
  "dget_or (fold (\<lambda>m. bump (msg_type (snd m))) ms d) k 0 =
     dget_or d k 0 + length (filter (\<lambda>m. msg_type (snd m) = k) ms)"
  by (induction ms arbitrary: d) (simp_all add: bump_def)


section \<open>The log only grows\<close>

text \<open>
  Entries are added at the end, numbered on, in the term of the step; the commit index does
  not fall, nor leave the log.
\<close>

definition extends :: "coordinator \<Rightarrow> coordinator \<Rightarrow> bool" where
  "extends s s' \<longleftrightarrow>
     (\<exists>es. log s' = log s @ es \<and> numbered (length (log s)) es \<and>
        (\<forall>e \<in> set es. current_term s \<le> le_term e \<and> le_term e \<le> current_term s')) \<and>
     current_term s \<le> current_term s' \<and> commit_index s \<le> commit_index s' \<and>
     (commit_index s \<le> length (log s) \<longrightarrow> commit_index s' \<le> length (log s'))"

lemma extends_trans:
  assumes "extends s s1" and "extends s1 s2"
  shows "extends s s2"
proof -
  obtain es fs where es: "log s1 = log s @ es" "numbered (length (log s)) es"
    "\<forall>e \<in> set es. current_term s \<le> le_term e \<and> le_term e \<le> current_term s1"
    and fs: "log s2 = log s1 @ fs" "numbered (length (log s1)) fs"
    "\<forall>e \<in> set fs. current_term s1 \<le> le_term e \<and> le_term e \<le> current_term s2"
    using assms unfolding extends_def by blast
  have "log s2 = log s @ es @ fs" "numbered (length (log s)) (es @ fs)"
    using es fs by simp_all
  moreover have "\<forall>e \<in> set (es @ fs). current_term s \<le> le_term e \<and> le_term e \<le> current_term s2"
    using es(3) fs(3) assms by (fastforce simp: extends_def)
  ultimately show ?thesis using assms unfolding extends_def by (metis order_trans)
qed

lemma extends_same:
  "log s' = log s \<Longrightarrow> commit_index s' = commit_index s \<Longrightarrow> current_term s \<le> current_term s' \<Longrightarrow>
   extends s s'"
  by (simp add: extends_def)

lemma extends_propose: "extends s (s\<lparr>log := log s @ [entry_of c t s]\<rparr>)"
  by (simp add: extends_def last_log_index_def)

lemma extends_commit: "commit_index s < n \<Longrightarrow> n \<le> length (log s) \<Longrightarrow> extends s (s\<lparr>commit_index := n\<rparr>)"
  by (simp add: extends_def)

interpretation extends: handler_rel extends "\<lambda>_. True"
  by unfold_locales
    (simp_all add: extends_same soft_def send_def send_append_entries_nf extends_propose
      extends_commit, rule extends_trans)


section \<open>The shape of what is sent\<close>

definition sane_message :: "payload \<Rightarrow> bool" where
  "sane_message p \<longleftrightarrow>
     (case p of AppendEntries _ _ _ _ _ _ _ _ \<Rightarrow> well_sent p | _ \<Rightarrow> ordinary p)"

lemma ordinary_sane: "ordinary p \<Longrightarrow> sane_message p"
  by (cases p) (simp_all add: sane_message_def)

definition sane_node :: "coordinator \<Rightarrow> bool" where
  "sane_node s \<longleftrightarrow> numbered 0 (log s) \<and> nexts_ok s"

definition talks :: "coordinator \<Rightarrow> coordinator \<Rightarrow> bool" where
  "talks s s' \<longleftrightarrow> (sane_node s \<longrightarrow> sane_node s' \<and>
     (\<exists>ms. outbox s' = outbox s @ ms \<and> (\<forall>m \<in> set ms. sane_message (snd m))))"

lemma talks_trans: "talks s s1 \<Longrightarrow> talks s1 s2 \<Longrightarrow> talks s s2"
  unfolding talks_def by fastforce

lemma prev_index_nonneg:
  assumes "nexts_ok s"
  shows "0 \<le> prev_index s peer"
proof -
  have "1 \<le> dget_or (next_index s) peer 1"
    using assms map_of_SomeD [of "next_index s" peer]
    by (force simp: nexts_ok_def dget_or_def py_get_def split: option.splits)
  then show ?thesis by (simp add: prev_index_def)
qed

lemma append_message_sane:
  assumes "sane_node s"
  shows "sane_message (append_message s peer)"
proof -
  have k: "0 \<le> prev_index s peer"
    using assms prev_index_nonneg by (simp add: sane_node_def)
  then have "py_from (log s) (prev_index s peer) = drop (nat (prev_index s peer)) (log s)"
    by (simp add: py_from_nonneg)
  moreover have "numbered (nat (prev_index s peer)) (drop (nat (prev_index s peer)) (log s))"
    using assms numbered_drop [of 0 "log s"] by (simp add: sane_node_def)
  ultimately show ?thesis
    using k by (simp add: append_message_def sane_message_def well_sent_def Let_def)
qed

lemma talks_soft: "soft s s' \<Longrightarrow> talks s s'"
  by (auto simp: talks_def sane_node_def soft_def)

lemma talks_send: "sane_node s \<longrightarrow> sane_message p \<Longrightarrow> talks s (send r p s)"
  by (simp add: talks_def send_def sane_node_def nexts_ok_def)

lemma talks_propose: "talks s (s\<lparr>log := log s @ [entry_of c t s]\<rparr>)"
  by (simp add: talks_def sane_node_def nexts_ok_def last_log_index_def)

lemma talks_ack: "0 \<le> m \<Longrightarrow> talks s (s\<lparr>next_index := dput peer (m + 1) (next_index s),
    match_index := dput peer m (match_index s)\<rparr>)"
  unfolding talks_def sane_node_def nexts_ok_def
  by (simp, intro impI conjI nexts_dput, simp_all)

interpretation talks: handler_rel talks "\<lambda>m. 0 \<le> m"
proof unfold_locales
  show "talks s s1 \<Longrightarrow> talks s1 s2 \<Longrightarrow> talks s s2" for s s1 s2 by (rule talks_trans)
  show "talks s (send_append_entries peer s)" for peer s
    unfolding send_append_entries_def by (rule talks_send) (simp add: append_message_sane)
  show "talks s (s\<lparr>commit_index := n\<rparr>)" for s n
    by (simp add: talks_def sane_node_def nexts_ok_def)
qed (simp_all add: talks_soft talks_send ordinary_sane talks_propose talks_ack)

text \<open>AppendEntries itself only answers, and truncated commands go to the leader.\<close>

definition answers :: "coordinator \<Rightarrow> coordinator \<Rightarrow> bool" where
  "answers s s' \<longleftrightarrow> (nexts_ok s \<longrightarrow> nexts_ok s') \<and>
     (\<exists>ms. outbox s' = outbox s @ ms \<and> (\<forall>m \<in> set ms. ordinary (snd m)))"

lemma answers_trans: "answers s s1 \<Longrightarrow> answers s1 s2 \<Longrightarrow> answers s s2"
  unfolding answers_def by fastforce

lemma answers_same: "(nexts_ok s \<longrightarrow> nexts_ok s') \<Longrightarrow> outbox s' = outbox s \<Longrightarrow> answers s s'"
  by (simp add: answers_def)

lemma answers_send: "ordinary p \<Longrightarrow> answers s (send r p s)"
  by (simp add: answers_def send_def nexts_ok_def)

interpretation answers: append_rel answers
proof unfold_locales
  show "answers s s1 \<Longrightarrow> answers s1 s2 \<Longrightarrow> answers s s2" for s s1 s2 by (rule answers_trans)
  show "answers s (s\<lparr>log := l\<rparr>)" "answers s (s\<lparr>commit_index := n\<rparr>)" for s l n
    by (simp_all add: answers_same nexts_ok_def)
qed (simp_all add: answers_same soft_def answers_send)

text \<open>The inbox is the loop's business only.\<close>

definition same_inbox :: "coordinator \<Rightarrow> coordinator \<Rightarrow> bool" where
  "same_inbox s s' \<longleftrightarrow> inbox s' = inbox s"

interpretation same_inbox: handler_rel same_inbox "\<lambda>_. True"
  by unfold_locales (simp_all add: same_inbox_def soft_def send_def send_append_entries_nf)

interpretation same_inbox_append: append_rel same_inbox
  by unfold_locales (simp_all add: same_inbox_def)


section \<open>Sane clusters never raise\<close>

lemma append_entries_sane:
  assumes "sane_node s" and "well_sent p"
  obtains s' where "handle_append_entries sender p s = Inr s'" and "talks s s'"
proof -
  have "\<exists>s'. handle_append_entries sender p s = Inr s' \<and> numbered 0 (log s')"
  proof (cases "ae_term p < current_term s \<or>
      \<not> prev_matches (log s) (ae_prev_log_index p) (ae_prev_log_term p)")
    case True
    then show ?thesis
      using assms(1) stale_append [of p s sender] rejected_append [of s p sender]
      by (cases "ae_term p < current_term s")
        (simp_all add: append_response_frame reject_append_def heard_frame sane_node_def)
  next
    case False
    then have "nat (ae_prev_log_index p) \<le> length (log s)" by (auto simp: prev_matches_def)
    then have "numbered 0 (graft (log s) (nat (ae_prev_log_index p)) (py_get (ae_entries p) []))"
      using assms by (intro numbered_graft) (auto simp: sane_node_def well_sent_def)
    then show ?thesis using accepted_append [of s p sender] False assms(2) by auto
  qed
  then obtain s' where s': "handle_append_entries sender p s = Inr s'" "numbered 0 (log s')"
    by blast
  then have "talks s s'"
    using answers.R_append_entries [OF s'(1)] ordinary_sane
    by (auto simp: talks_def sane_node_def answers_def)
  with s' that show ?thesis by blast
qed

lemma receive_sane:
  assumes "sane_node s" and "sane_message p"
  obtains s' where "receive sender p s = Inr s'" and "talks s s'" and "inbox s' = inbox s"
proof (cases "is_append p")
  case True
  then have p: "receive sender p s = handle_append_entries sender p (count_received p s)"
    "well_sent p"
    using assms(2)
    by (cases p; simp add: receive_def handle_def is_append_def sane_message_def)+
  have "sane_node (count_received p s)"
    using assms(1) by (simp add: sane_node_def count_received_def nexts_ok_def)
  then obtain s' where s': "handle_append_entries sender p (count_received p s) = Inr s'"
    "talks (count_received p s) s'"
    using append_entries_sane [OF _ p(2)] by blast
  have "talks s s'" using talks.R_soft_first [OF soft_count s'(2)] .
  moreover have "inbox s' = inbox s"
    using same_inbox_append.R_append_entries [OF s'(1)]
    by (simp add: same_inbox_def count_received_def)
  ultimately show ?thesis using that p(1) s'(1) by simp
next
  case False
  then obtain s' where s': "receive sender p s = Inr s'"
    by (cases p) (auto simp: receive_def handle_def is_append_def)
  moreover have "acceptable (\<lambda>m. 0 \<le> m) p"
    using assms(2) False by (cases p) (auto simp: acceptable_def sane_message_def)
  then have "talks s s'" using talks.R_receive [OF s' False] by blast
  moreover have "same_inbox s s'"
    using same_inbox.R_receive [OF s' False] by (simp add: acceptable_def split: payload.split)
  ultimately show ?thesis using that by (simp add: same_inbox_def)
qed


definition tidy :: "string set \<Rightarrow> system \<Rightarrow> bool" where
  "tidy ids S \<longleftrightarrow> (\<forall>e \<in> net S. sane_message (snd (snd e))) \<and>
     (\<forall>i \<in> ids. sane_node (nodes S i) \<and>
        (\<forall>q. inbox (nodes S i) = Some q \<longrightarrow> (\<forall>m \<in> set q. sane_message (snd m))))"

lemma client_sane: "client_message m \<Longrightarrow> sane_message m"
  by (cases m) (simp_all add: sane_message_def ordinary_def)

definition boxed :: "coordinator \<Rightarrow> bool" where
  "boxed s \<longleftrightarrow> (\<forall>q. inbox s = Some q \<longrightarrow> (\<forall>m \<in> set q. sane_message (snd m)))"

lemma act_sane:
  assumes "sane_node s" and "boxed s"
  obtains s' where "act a s = Inr s'" and "talks s s'" and "boxed s'"
proof -
  have soft: "talks s s1 \<and> boxed s1" if "soft s s1" for s1
    using that assms(2) by (auto simp: talks_soft boxed_def soft_def)
  have "\<exists>s'. act a s = Inr s' \<and> talks s s' \<and> boxed s'"
  proof (cases a)
    case Start
    have "talks s (run_start s)" "boxed (run_start s)"
      by (simp_all add: run_start_def battery_level_nf talks_def sane_node_def nexts_ok_def
          boxed_def)
    then show ?thesis
      using Start assms(2) talks.R_refl by (simp add: act_def)
  next
    case HandleNext
    show ?thesis
    proof (cases "running s \<and> (\<exists>f m q. inbox s = Some ((f, m) # q))")
      case True
      then obtain f m q where q: "inbox s = Some ((f, m) # q)" and run: "running s" by blast
      let ?s = "s\<lparr>inbox := Some q\<rparr>"
      have "sane_node ?s" using assms(1) by (simp add: sane_node_def nexts_ok_def)
      moreover have "sane_message m" using assms(2) q by (simp add: boxed_def)
      ultimately obtain s' where s': "receive f m ?s = Inr s'" "talks ?s s'" "inbox s' = Some q"
        by (rule receive_sane) simp
      have "talks s s'" using s'(2) by (simp add: talks_def sane_node_def nexts_ok_def)
      moreover have "boxed s'" using assms(2) q s'(3) by (simp add: boxed_def)
      ultimately show ?thesis using HandleNext q run s'(1) by (simp add: act_def)
    next
      case False
      then have "act a s = Inr s"
        using HandleNext by (auto simp: act_def split: option.split list.split)
      then show ?thesis using assms(2) talks.R_refl by blast
    qed
  next
    case Tick
    have "talks s (tick s)" by (rule talks.R_tick)
    moreover have "inbox (tick s) = inbox s"
      using same_inbox.R_tick by (simp add: same_inbox_def)
    ultimately show ?thesis
      using Tick assms(2) talks.R_refl by (simp add: act_def boxed_def)
  next
    case CheckBattery
    then show ?thesis using soft [OF soft_check_battery] soft [OF soft_refl] by (simp add: act_def)
  next
    case Publish
    then show ?thesis using soft [OF soft_publish] soft [OF soft_refl] by (simp add: act_def)
  next
    case Stop
    then show ?thesis using soft [OF soft_stop] by (simp add: act_def)
  qed
  then show ?thesis using that by blast
qed

lemma tidy_boxed: "tidy ids S \<Longrightarrow> i \<in> ids \<Longrightarrow> sane_node (nodes S i) \<and> boxed (nodes S i)"
  by (simp add: tidy_def boxed_def)

lemma tidyI:
  "(\<And>e. e \<in> net S \<Longrightarrow> sane_message (snd (snd e))) \<Longrightarrow>
   (\<And>i. i \<in> ids \<Longrightarrow> sane_node (nodes S i) \<and> boxed (nodes S i)) \<Longrightarrow> tidy ids S"
  by (simp add: tidy_def boxed_def)

lemma tidy_act:
  assumes "tidy ids S" and "i \<in> ids"
  obtains s' where "act a ((nodes S i)\<lparr>outbox := []\<rparr>) = Inr s'"
    and "tidy ids (S\<lparr>nodes := (nodes S)(i := s'), net := net S \<union> emitted i s'\<rparr>)"
proof -
  let ?s = "(nodes S i)\<lparr>outbox := []\<rparr>"
  have s: "sane_node ?s" "boxed ?s"
    using tidy_boxed [OF assms] by (simp_all add: sane_node_def nexts_ok_def boxed_def)
  obtain s' where s': "act a ?s = Inr s'" "talks ?s s'" "boxed s'"
    using act_sane [OF s] .
  have "sane_node s' \<and> (\<forall>m \<in> set (outbox s'). sane_message (snd m))"
    using s'(2) s(1) by (auto simp: talks_def)
  then have "tidy ids (S\<lparr>nodes := (nodes S)(i := s'), net := net S \<union> emitted i s'\<rparr>)"
    using assms s'(3) tidy_boxed [OF assms(1)]
    by (intro tidyI) (auto simp: emitted_def tidy_def)
  with s'(1) that show ?thesis by blast
qed

lemma tidy_step:
  assumes "tidy ids S" and "sys_step ids e S = Some S'"
  shows "tidy ids S'"
proof (cases e)
  case (Act i a)
  then have i: "i \<in> ids" using assms(2) by (auto split: if_splits)
  obtain s' where "act a ((nodes S i)\<lparr>outbox := []\<rparr>) = Inr s'"
    "tidy ids (S\<lparr>nodes := (nodes S)(i := s'), net := net S \<union> emitted i s'\<rparr>)"
    using tidy_act [OF assms(1) i] .
  then show ?thesis using assms(2) Act i by simp
next
  case (Deliver i m)
  obtain f r pl where m: "m = (f, r, pl)" by (cases m)
  then have S': "S' = S\<lparr>nodes := (nodes S)(i := dispatch f pl (nodes S i))\<rparr>" and i: "i \<in> ids"
    and "(f, r, pl) \<in> net S"
    using assms(2) Deliver by (auto split: if_splits)
  then have "sane_message pl" using assms(1) by (auto simp: tidy_def)
  then have "sane_node (dispatch f pl (nodes S i)) \<and> boxed (dispatch f pl (nodes S i))"
    using tidy_boxed [OF assms(1) i]
    by (auto simp: dispatch_def sane_node_def nexts_ok_def boxed_def split: option.split)
  then show ?thesis
    using assms(1) tidy_boxed [OF assms(1)] unfolding S' by (intro tidyI) (auto simp: tidy_def)
next
  case (Inject m)
  obtain f r pl where m: "m = (f, r, pl)" by (cases m)
  then have "S' = S\<lparr>net := insert m (net S)\<rparr>" and "client_message pl"
    using assms(2) Inject by (auto split: if_splits)
  then show ?thesis using assms(1) m client_sane by (auto simp: tidy_def)
qed

lemma init_sane:
  assumes "init_coordinator proto i ps b demo w = Inr s"
  shows "sane_node s \<and> boxed s"
proof -
  have "next_index s = []"
    using assms
    by (auto simp: init_coordinator_def now_s_nf reset_election_timer_nf blank_def Let_def
        split: option.splits)
  then show ?thesis
    using init_coordinator_fields(7,9) [OF assms]
    by (simp add: sane_node_def nexts_ok_def boxed_def)
qed

lemma run_tidy: "run ids S \<Longrightarrow> tidy ids S"
proof (induction rule: run.induct)
  case (run_initial S)
  have "sane_node (nodes S i) \<and> boxed (nodes S i)" if "i \<in> ids" for i
    using run_initial that init_sane unfolding initial_def by meson
  then show ?case
    using run_initial by (intro tidyI) (auto simp: initial_def)
next
  case (run_step S e S')
  then show ?case by (metis tidy_step)
qed

lemma execute_run: "execute ids es S = Some S' \<Longrightarrow> run ids S \<Longrightarrow> run ids S'"
proof (induction es arbitrary: S)
  case Nil
  then show ?case by simp
next
  case (Cons e es)
  obtain S1 where S1: "sys_step ids e S = Some S1" "execute ids es S1 = Some S'"
    using Cons.prems(1) by (auto split: option.splits)
  show ?case using Cons.IH [OF S1(2) run_step [OF Cons.prems(2) S1(1)]] .
qed


section \<open>Properties\<close>

text \<open>C5. No schedule makes a coordinator raise: in every run of the cluster, whatever the
  protocol, each part of the loop of each node returns normally on its next input. The bounds of
  the log are never overstepped, because every AppendEntries in the network is numbered on
  from its previous index and every acknowledged index is non-negative.\<close>

theorem no_handler_raises:
  assumes "run ids S" and "i \<in> ids"
  shows "\<exists>s'. act a (nodes S i) = Inr s'"
proof -
  have "sane_node (nodes S i)" "boxed (nodes S i)"
    using tidy_boxed [OF run_tidy [OF assms(1)] assms(2)] by simp_all
  then show ?thesis using act_sane by blast
qed

theorem no_handler_raises_witness:
  "\<exists>s'. act HandleNext (nodes (power_on Echod) ''a'') = Inr s'"
proof (rule no_handler_raises)
  show "run trio (power_on Echod)" by (rule run_initial) (rule initial_power_on)
qed (simp add: trio_def)

text \<open>C13. In every run each log is numbered from 1 without gaps: the entry at position k has
  index k + 1, on leaders and followers, after any truncation.\<close>

theorem logs_numbered:
  assumes "run ids S" and "i \<in> ids" and "k < length (log (nodes S i))"
  shows "le_index (log (nodes S i) ! k) = int k + 1"
  using tidy_boxed [OF run_tidy [OF assms(1)] assms(2)] assms(3)
  by (simp add: sane_node_def numbered_def)

theorem logs_numbered_witness:
  "\<exists>S. execute trio stale_ack (power_on Raft) = Some S \<and>
     le_index (log (nodes S ''c'') ! 0) = int 0 + 1"
proof -
  obtain S where S: "execute trio stale_ack (power_on Raft) = Some S"
    "log (nodes S ''c'') = [logged 1 2 2 0]"
    using commits_alone by (elim outcomeE) auto
  have "run trio S" using S(1) run_initial [OF initial_power_on] by (rule execute_run)
  moreover have "''c'' \<in> trio" "0 < length (log (nodes S ''c''))"
    by (simp_all add: trio_def S(2))
  ultimately have "le_index (log (nodes S ''c'') ! 0) = int 0 + 1" by (rule logs_numbered)
  with S(1) show ?thesis by blast
qed

text \<open>C23. Everything a node sends in an iteration of its loop is counted: the total grows by the
  number of messages and the count of each type by the messages of that type. Its identity
  and peers do not change and its term never falls.\<close>

theorem iteration_counts:
  assumes "run_iteration s = Inr s'"
  shows "\<exists>ms. outbox s' = outbox s @ ms \<and>
     total_messages_sent s' = total_messages_sent s + length ms \<and>
     (\<forall>k. dget_or (messages_sent_by_type s') k 0 = dget_or (messages_sent_by_type s) k 0 +
        length (filter (\<lambda>m. msg_type (snd m) = k) ms)) \<and>
     node_id s' = node_id s \<and> peers s' = peers s \<and> protocol s' = protocol s \<and>
     current_term s \<le> current_term s'"
  using counted.R_iteration [OF assms] settled.R_iteration [OF assms]
  by (auto simp: counted_def settled_def fold_bump_count)

theorem iteration_counts_witness:
  "\<exists>s'. run_iteration (run_start (built Echo ''a'')) = Inr s' \<and>
     (\<forall>k. \<exists>n. dget_or (messages_sent_by_type s') k 0 =
        dget_or (messages_sent_by_type (run_start (built Echo ''a''))) k 0 + n)"
proof -
  have "case run_iteration (run_start (built Echo ''a'')) of Inl _ \<Rightarrow> False | Inr _ \<Rightarrow> True"
    by code_simp
  then obtain s' where "run_iteration (run_start (built Echo ''a'')) = Inr s'"
    by (auto split: sum.splits)
  then show ?thesis using iteration_counts by blast
qed

text \<open>C14. Outside AppendEntries a log is append-only: a handler of any other message and a tick
  leave the log a prefix of the new one, number the new entries on, give them a term between
  the old and the new current term, and never lower the commit index or move it past the
  log.\<close>

theorem log_append_only:
  assumes "s' = tick s \<or> (\<exists>p sender. \<not> is_append p \<and> receive sender p s = Inr s')"
  shows "\<exists>es. log s' = log s @ es \<and> numbered (length (log s)) es \<and>
     (\<forall>e \<in> set es. current_term s \<le> le_term e \<and> le_term e \<le> current_term s') \<and>
     commit_index s \<le> commit_index s' \<and>
     (commit_index s \<le> length (log s) \<longrightarrow> commit_index s' \<le> length (log s'))"
proof -
  have "extends s s'"
    using assms extends.R_tick extends.R_receive
    by (auto simp: acceptable_def split: payload.splits)
  then show ?thesis unfolding extends_def by blast
qed

theorem log_append_only_witness:
  "commit_index (built Raft ''a'') \<le> commit_index (tick (built Raft ''a''))"
  using log_append_only [of "tick (built Raft ''a'')" "built Raft ''a''"] by blast

end
