(* ===== verification/Safety.thy ===== *)
theory Safety
  imports Schedules
begin

text \<open>
  What elections over the modelled cluster guarantee, for every schedule of ticks, battery
  checks, crashes, deliveries in any order, losses and duplications.
\<close>

lemma refines_poll: "refines ids S p \<Longrightarrow> poll_reach (majority_of ids) p"
  by (simp add: refines_def)

lemma refines_member: "refines ids S p \<Longrightarrow> i \<in> ids \<Longrightarrow> member p i = ballot_of (nodes S i)"
  by (simp add: refines_def)

lemma refines_justified:
  "refines ids S p \<Longrightarrow> i \<in> ids \<Longrightarrow> (i, r, m) \<in> net S \<Longrightarrow> justified i p (r, m)"
  unfolding refines_def net_ok_def by metis

lemma leaders_equal:
  assumes "orderly_run ids S" and "i \<in> ids" and "j \<in> ids"
    and "leading (nodes S i)" and "leading (nodes S j)"
    and "current_term (nodes S i) = current_term (nodes S j)"
  shows "i = j"
proof -
  obtain p where p: "refines ids S p" using orderly_run_refines [OF assms(1)] ..
  have "b_role (member p i) = Elected" "b_role (member p j) = Elected"
    "b_term (member p i) = b_term (member p j)"
    using refines_member [OF p] assms(2-6) by (simp_all add: leading_def)
  then show ?thesis by (rule maj.elected_unique [OF refines_poll [OF p]])
qed

text \<open>The ballot a message of the network carries: its voter, the term, the candidate.\<close>

fun ballot_in :: "envelope \<Rightarrow> (string \<times> int \<times> string) option" where
  "ballot_in (v, r, RequestVote t c _ _ _) = Some (v, t, c)"
| "ballot_in (v, r, VoteResponse t granted _ _) = (if granted then Some (v, t, r) else None)"
| "ballot_in _ = None"

lemma ballot_in_cast:
  assumes "refines ids S p" and "e \<in> net S" and "ballot_in e = Some (v, t, c)" and "v \<in> ids"
  shows "(v, t, c) \<in> cast p"
proof -
  obtain w r m where e: "e = (w, r, m)" by (cases e)
  then have "w = v" using assms(3) by (cases m) (auto split: if_splits)
  then have "justified v p (r, m)"
    using refines_justified assms(1,2,4) e by blast
  then show ?thesis
    using assms(3) e \<open>w = v\<close> by (cases m) (auto split: if_splits)
qed


section \<open>Properties\<close>

text \<open>C1. Election safety of the coordinator cluster: in every run in which an observer
  rejoins only a term it has not voted in, two nodes that lead (LEADER or LOCAL_LEADER) in the
  same term are the same node, whatever is lost, duplicated, delayed or reordered.\<close>

theorem election_safety:
  assumes "orderly_run ids S" and "i \<in> ids" and "j \<in> ids"
    and "leading (nodes S i)" and "leading (nodes S j)"
    and "current_term (nodes S i) = current_term (nodes S j)"
  shows "i = j"
  using leaders_equal [OF assms] .

lemma raft_run_of:
  "outcome Raft es P \<Longrightarrow> \<exists>S. execute trio es (power_on Raft) = Some S \<and> orderly_run trio S \<and> P S"
  by (elim outcomeE) (blast intro: raft_orderly [OF initial_power_on power_on_raft])

theorem election_safety_witness:
  "\<exists>S. orderly_run trio S \<and> leading (nodes S ''a'') \<and>
     (\<forall>j \<in> trio. leading (nodes S j) \<and>
        current_term (nodes S ''a'') = current_term (nodes S j) \<longrightarrow> ''a'' = j)"
proof -
  obtain S where S: "orderly_run trio S" "leading (nodes S ''a'')"
    using raft_run_of [OF a_leads] by blast
  have "''a'' \<in> trio" by (simp add: trio_def)
  then show ?thesis using election_safety [OF S(1) _ _ S(2)] S by blast
qed

text \<open>C2. With the plain Raft protocol on every node the guarantee needs no side condition: any
  schedule of events from the start ends with at most one leader per term.\<close>

theorem raft_election_safety:
  assumes "initial ids S0" and "all_raft ids S0" and "execute ids es S0 = Some S"
    and "i \<in> ids" and "j \<in> ids" and "leading (nodes S i)" and "leading (nodes S j)"
    and "current_term (nodes S i) = current_term (nodes S j)"
  shows "i = j"
  using leaders_equal [OF raft_orderly [OF assms(1-3)] assms(4-8)] .

theorem raft_election_safety_witness:
  "\<exists>S. execute trio election_of_a (power_on Raft) = Some S \<and> leading (nodes S ''a'') \<and>
     (\<forall>j \<in> trio. leading (nodes S j) \<and>
        current_term (nodes S ''a'') = current_term (nodes S j) \<longrightarrow> ''a'' = j)"
proof -
  obtain S where S: "execute trio election_of_a (power_on Raft) = Some S"
    "leading (nodes S ''a'')"
    using raft_run_of [OF a_leads] by blast
  have "''a'' \<in> trio" by (simp add: trio_def)
  then show ?thesis
    using raft_election_safety [OF initial_power_on power_on_raft S(1) _ _ S(2)] S by blast
qed

text \<open>C10. The energy-gated protocols do need it: a schedule of echo in which a voter drops to
  observer and is recharged ends with two nodes leading the same term, because going observer
  forgets the vote.\<close>

theorem recharged_voter_breaks_safety:
  "\<exists>S. execute trio (election_of_a @ recharged_vote) (power_on Echo) = Some S \<and>
     leading (nodes S ''a'') \<and> leading (nodes S ''c'') \<and>
     current_term (nodes S ''a'') = current_term (nodes S ''c'')"
  using two_leaders by (elim outcomeE) auto

text \<open>C11. Neither is the vote kept over a restart: in a plain Raft cluster, a voter whose process
  is started anew after the election votes again in the same term, and two nodes lead it.\<close>

theorem restarted_voter_breaks_safety:
  "\<exists>S b T. execute trio election_of_a (power_on Raft) = Some S \<and>
     init_coordinator ''raft'' ''b'' trio_list charged True second_hand = Inr b \<and>
     execute trio restarted_vote (S\<lparr>nodes := (nodes S)(''b'' := b)\<rparr>) = Some T \<and>
     leading (nodes T ''a'') \<and> leading (nodes T ''c'') \<and>
     current_term (nodes T ''a'') = current_term (nodes T ''c'')"
  using votes_again built_init [of Raft "''b''"]
  by (elim outcomeE) (auto simp: restarted_def protocol_name_def split: option.splits)

text \<open>A node publishes at most one ballot per term: its requests and the votes it grants in
  one term all name one candidate.\<close>

theorem one_ballot_per_term:
  assumes "orderly_run ids S" and "v \<in> ids" and "e \<in> net S" and "e' \<in> net S"
    and "ballot_in e = Some (v, t, c)" and "ballot_in e' = Some (v, t, c')"
  shows "c = c'"
proof -
  obtain p where p: "refines ids S p" using orderly_run_refines [OF assms(1)] ..
  have "one_vote p" using poll_inv_reach [OF refines_poll [OF p]] by (simp add: poll_inv_def)
  then show ?thesis
    using ballot_in_cast [OF p] assms(2-6) unfolding one_vote_def by blast
qed

theorem one_ballot_per_term_witness:
  "\<exists>S. orderly_run trio S \<and>
     (''b'', ''a'', VoteResponse 1 True ''b'' 100) \<in> net S \<and>
     (\<forall>e \<in> net S. \<forall>c. ballot_in e = Some (''b'', 1, c) \<longrightarrow> ''a'' = c)"
proof -
  obtain S where S: "orderly_run trio S" "(''b'', ''a'', VoteResponse 1 True ''b'' 100) \<in> net S"
    using raft_run_of [OF a_voted] by blast
  have "''b'' \<in> trio" by (simp add: trio_def)
  then have "\<forall>e \<in> net S. \<forall>c. ballot_in e = Some (''b'', 1, c) \<longrightarrow> ''a'' = c"
    using one_ballot_per_term [OF S(1) _ S(2), where v = "''b''" and t = 1 and c = "''a''"]
    by simp
  with S show ?thesis by blast
qed

text \<open>The AppendEntries of one term all come from one node, the winner of that term, so
  followers of a term hear one log only.\<close>

theorem one_speaker_per_term:
  assumes "orderly_run ids S" and "i \<in> ids" and "j \<in> ids"
    and "(i, r, AppendEntries t l a b es c g ep) \<in> net S"
    and "(j, r', AppendEntries t l' a' b' es' c' g' ep') \<in> net S"
  shows "i = j"
proof -
  obtain p where p: "refines ids S p" using orderly_run_refines [OF assms(1)] ..
  have "(t, i) \<in> won p" "(t, j) \<in> won p"
    using refines_justified [OF p] assms(2-5) by fastforce+
  then show ?thesis by (rule maj.one_winner [OF refines_poll [OF p]])
qed

text \<open>C8. The cluster refines the abstract election: the terms, votes, roles and tallies of its
  nodes are those of a reachable state of the majority-quorum election.\<close>

theorem cluster_refines_election:
  assumes "orderly_run ids S"
  shows "\<exists>p. poll_reach (majority_of ids) p \<and> (\<forall>i \<in> ids. member p i = ballot_of (nodes S i))"
  using orderly_run_refines [OF assms] refines_poll refines_member by blast

theorem cluster_refines_election_witness:
  "\<exists>(S :: system) p. leading (nodes S ''a'') \<and> poll_reach (majority_of trio) p \<and>
     (\<forall>i \<in> trio. member p i = ballot_of (nodes S i))"
proof -
  obtain S where "orderly_run trio S" "leading (nodes S ''a'')"
    using raft_run_of [OF a_leads] by blast
  then show ?thesis using cluster_refines_election by blast
qed


text \<open>A success answer reports the length of the follower's whole log, not of the part the
  message matched. A plain Raft cluster can therefore commit an entry that no other node
  holds, its acknowledgement coming from a node with another entry at that index.\<close>

theorem commit_without_majority:
  "\<exists>S. execute trio stale_ack (power_on Raft) = Some S \<and>
     commit_index (nodes S ''c'') = 1 \<and> state (nodes S ''c'') = Leader \<and>
     log (nodes S ''c'') ! 0 \<notin> set (log (nodes S ''a'')) \<union> set (log (nodes S ''b''))"
  using commits_alone by (elim outcomeE) (simp add: logged_def)

text \<open>C4. The consequence: with no failure beyond a stopped node, two nodes of a plain Raft cluster
  have committed different entries at the same index.\<close>

theorem committed_entries_diverge:
  "\<exists>S. execute trio (stale_ack @ takeover) (power_on Raft) = Some S \<and>
     1 \<le> commit_index (nodes S ''a'') \<and> 1 \<le> commit_index (nodes S ''c'') \<and>
     le_command (log (nodes S ''a'') ! 0) \<noteq> le_command (log (nodes S ''c'') ! 0)"
  using commits_twice by (elim outcomeE) (simp add: logged_def reading_def)

end
