(* ===== verification/LogLaws.thy ===== *)
theory LogLaws
  imports NodeLaws Simulation
begin

text \<open>
  The coordinator's log against the Raft rules, for one node: what it sends are windows of
  its log, it writes only in a term it leads, and an AppendEntries with the tail of another
  log leaves it with one of the two logs. The cluster-wide consequence is in LogMatching.
\<close>

section \<open>Logs that match\<close>

text \<open>Where two logs have entries of one term they are the same up to there.\<close>

definition agree :: "log_entry list \<Rightarrow> log_entry list \<Rightarrow> bool" where
  "agree l l' \<longleftrightarrow> (\<forall>k. k < length l \<longrightarrow> k < length l' \<longrightarrow> le_term (l ! k) = le_term (l' ! k) \<longrightarrow>
     take (Suc k) l = take (Suc k) l')"

lemma agreeI:
  "(\<And>k. k < length l \<Longrightarrow> k < length l' \<Longrightarrow> le_term (l ! k) = le_term (l' ! k) \<Longrightarrow>
     take (Suc k) l = take (Suc k) l') \<Longrightarrow> agree l l'"
  by (simp add: agree_def)

lemma agreeD:
  "agree l l' \<Longrightarrow> k < length l \<Longrightarrow> k < length l' \<Longrightarrow> le_term (l ! k) = le_term (l' ! k) \<Longrightarrow>
   take (Suc k) l = take (Suc k) l'"
  by (simp add: agree_def)

lemma agree_refl [simp]: "agree l l"
  by (simp add: agree_def)

lemma agree_sym: "agree l l' \<Longrightarrow> agree l' l"
  unfolding agree_def by metis

lemma agree_take:
  assumes "agree l l'"
  shows "agree (take n l) l'"
proof (rule agreeI)
  fix k
  assume k: "k < length (take n l)" "k < length l'" "le_term (take n l ! k) = le_term (l' ! k)"
  then have "take (Suc k) l = take (Suc k) l'" by (intro agreeD [OF assms]) simp_all
  moreover have "take (Suc k) (take n l) = take (Suc k) l" using k(1) by (simp add: min_absorb1)
  ultimately show "take (Suc k) (take n l) = take (Suc k) l'" by simp
qed

text \<open>A log that holds every entry of a term that any log of a set holds, where it is.\<close>

definition owns :: "int \<Rightarrow> log_entry list \<Rightarrow> log_entry list set \<Rightarrow> bool" where
  "owns t l L \<longleftrightarrow>
     (\<forall>h \<in> L. \<forall>k < length h. le_term (h ! k) = t \<longrightarrow> k < length l \<and> le_term (l ! k) = t)"

lemma ownsD:
  "owns t l L \<Longrightarrow> h \<in> L \<Longrightarrow> k < length h \<Longrightarrow> le_term (h ! k) = t \<Longrightarrow>
   k < length l \<and> le_term (l ! k) = t"
  by (simp add: owns_def)

lemma owns_longer: "owns t l L \<Longrightarrow> owns t (l @ es) L"
  by (fastforce simp: owns_def nth_append)

lemma nth_prefixes:
  "h \<in> L \<union> range (\<lambda>n. take n l) \<Longrightarrow> k < length h \<Longrightarrow>
   h \<in> L \<or> k < length l \<and> h ! k = l ! k"
  by auto

lemma owns_prefixes: "owns t l L \<Longrightarrow> owns t l (L \<union> range (\<lambda>n. take n l))"
  by (auto simp: owns_def)

text \<open>Appending in an owned term keeps the agreement.\<close>

lemma agree_append:
  assumes "agree l h" and "owns t l L" and "h \<in> L" and "\<forall>e \<in> set es. le_term e = t"
  shows "agree (l @ es) h"
proof (rule agreeI)
  fix k
  assume k: "k < length (l @ es)" "k < length h" "le_term ((l @ es) ! k) = le_term (h ! k)"
  have "k < length l"
  proof (rule ccontr)
    assume "\<not> k < length l"
    moreover from this have "(l @ es) ! k \<in> set es" using k(1) by (simp add: nth_append)
    ultimately show False using ownsD [OF assms(2,3) k(2)] k(3) assms(4) by simp
  qed
  with k have "take (Suc k) l = take (Suc k) h" by (intro agreeD [OF assms(1)]) (simp_all add: nth_append)
  with \<open>k < length l\<close> show "take (Suc k) (l @ es) = take (Suc k) h" by simp
qed

text \<open>A tail of one log, grafted onto another from a common prefix, leaves one of the two.\<close>

lemma graft_window:
  assumes "agree l g" and "take k l = take k g" and "k \<le> length l" and "k \<le> length g"
  shows "graft l k (drop k g) \<in> {l, g}"
  using assms(2-4)
proof (induction "drop k g" arbitrary: k)
  case Nil
  then show ?case by simp
next
  case (Cons e es)
  then have k: "k < length g" by (metis drop_eq_Nil leI list.distinct(1))
  then have e: "e = g ! k" "es = drop (Suc k) g"
    using Cons.hyps(2) by (simp_all add: Cons_nth_drop_Suc [symmetric])
  show ?case
  proof (cases "k < length l \<and> le_term (l ! k) = le_term e")
    case True
    then have "take (Suc k) l = take (Suc k) g" using agreeD [OF assms(1)] k e(1) by blast
    then have "graft l (Suc k) (drop (Suc k) g) \<in> {l, g}"
      using Cons.hyps(1) [OF e(2)] True k by simp
    with True e show ?thesis unfolding Cons.hyps(2) [symmetric] by simp
  next
    case False
    then have "graft l k (drop k g) = take k l @ drop k g"
      unfolding Cons.hyps(2) [symmetric] by auto
    also have "\<dots> = g" using Cons.prems(1) by simp
    finally show ?thesis by simp
  qed
qed

text \<open>The AppendEntries that carries the tail of a log.\<close>

definition window :: "log_entry list \<Rightarrow> payload \<Rightarrow> bool" where
  "window g p \<longleftrightarrow> (case p of
     AppendEntries t l i pt es c d ep \<Rightarrow>
       0 \<le> i \<and> pt = term_before g i \<and> es = Some (drop (nat i) g)
   | _ \<Rightarrow> True)"

lemma window_ordinary: "ordinary p \<Longrightarrow> window g p"
  by (cases p) (simp_all add: window_def)

lemma window_client: "client_message p \<Longrightarrow> window g p"
  by (cases p) (simp_all add: window_def)

lemma graft_of_window:
  assumes "agree l g" and "is_append p" and "window g p"
    and "prev_matches l (ae_prev_log_index p) (ae_prev_log_term p)"
  shows "graft l (nat (ae_prev_log_index p)) (py_get (ae_entries p) []) \<in> {l, g}"
proof -
  obtain t ld i pt es c d ep where p: "p = AppendEntries t ld i pt es c d ep"
    using assms(2) by (cases p) (simp_all add: is_append_def)
  let ?k = "nat i"
  have w: "0 \<le> i" "pt = term_before g i" "es = Some (drop ?k g)"
    using assms(3) by (simp_all add: p window_def)
  have k: "?k \<le> length l" using assms(4) w(1) by (auto simp: p prev_matches_def)
  show ?thesis
  proof (cases "?k \<le> length g")
    case True
    have "take ?k l = take ?k g"
    proof (cases ?k)
      case 0
      then show ?thesis by simp
    next
      case (Suc j)
      then have "nat (i - 1) = j" by simp
      then have "le_term (l ! j) = le_term (g ! j)"
        using assms(4) w Suc True by (auto simp: p prev_matches_def term_before_def split: if_splits)
      then show ?thesis using agreeD [OF assms(1)] Suc True k by simp
    qed
    then show ?thesis using graft_window [OF assms(1) _ k True] w(3) by (simp add: p)
  next
    case False
    then show ?thesis using w(3) by (simp add: p)
  qed
qed

section \<open>What a node sends\<close>

text \<open>
  Every AppendEntries sent in a step is a window of the log as it was then, a prefix of the
  log the step leaves.
\<close>

definition sends :: "coordinator \<Rightarrow> coordinator \<Rightarrow> bool" where
  "sends s s' \<longleftrightarrow> (nexts_ok s \<longrightarrow> nexts_ok s' \<and> (\<exists>es. log s' = log s @ es) \<and>
     (\<exists>ms. outbox s' = outbox s @ ms \<and>
        (\<forall>m \<in> set ms. \<exists>n. window (take n (log s')) (snd m))))"

lemma window_longer:
  assumes "\<exists>n. window (take n l) m"
  shows "\<exists>n. window (take n (l @ es)) m"
proof -
  obtain n where "window (take n l) m" using assms ..
  moreover have "take (min n (length l)) (l @ es) = take n l" by (cases "n \<le> length l") simp_all
  ultimately have "window (take (min n (length l)) (l @ es)) m" by simp
  then show ?thesis ..
qed

lemma sends_trans:
  assumes "sends s s1" and "sends s1 s2"
  shows "sends s s2"
  unfolding sends_def
proof (intro impI)
  assume "nexts_ok s"
  then obtain es ms where 1: "nexts_ok s1" "log s1 = log s @ es" "outbox s1 = outbox s @ ms"
    "\<forall>m \<in> set ms. \<exists>n. window (take n (log s1)) (snd m)"
    using assms(1) unfolding sends_def by blast
  obtain fs ns where 2: "nexts_ok s2" "log s2 = log s1 @ fs" "outbox s2 = outbox s1 @ ns"
    "\<forall>m \<in> set ns. \<exists>n. window (take n (log s2)) (snd m)"
    using assms(2) 1(1) unfolding sends_def by blast
  have "\<forall>m \<in> set ms. \<exists>n. window (take n (log s2)) (snd m)"
    using 1(4) window_longer unfolding 2(2) by blast
  then have "\<forall>m \<in> set (ms @ ns). \<exists>n. window (take n (log s2)) (snd m)"
    using 2(4) by auto
  moreover have "log s2 = log s @ es @ fs" "outbox s2 = outbox s @ ms @ ns"
    using 1 2 by simp_all
  ultimately show "nexts_ok s2 \<and> (\<exists>es. log s2 = log s @ es) \<and>
     (\<exists>ms. outbox s2 = outbox s @ ms \<and> (\<forall>m \<in> set ms. \<exists>n. window (take n (log s2)) (snd m)))"
    using 2(1) by blast
qed

lemma sends_silent:
  "(nexts_ok s \<longrightarrow> nexts_ok s') \<Longrightarrow> log s' = log s @ es \<Longrightarrow> outbox s' = outbox s \<Longrightarrow> sends s s'"
  by (simp add: sends_def)

lemma sends_one:
  assumes "nexts_ok s \<longrightarrow> window (log s) p"
  shows "sends s (send r p s)"
proof -
  have "\<exists>n. window (take n (log s)) p" if "window (log s) p"
    using that by (intro exI [of _ "length (log s)"]) simp
  then show ?thesis using assms by (auto simp: sends_def send_def nexts_ok_def)
qed

lemma window_append_message: "nexts_ok s \<Longrightarrow> window (log s) (append_message s peer)"
  using prev_index_nonneg [of s peer]
  by (simp add: append_message_def window_def py_from_nonneg Let_def)

lemma sends_ack: "0 \<le> m \<Longrightarrow> sends s (s\<lparr>next_index := dput peer (m + 1) (next_index s),
    match_index := dput peer m (match_index s)\<rparr>)"
  by (rule sends_silent [where es = "[]"])
    (simp_all add: nexts_ok_def, intro impI nexts_dput, simp_all)

interpretation sends: handler_rel sends "\<lambda>m. 0 \<le> m"
proof unfold_locales
  show "sends s s1 \<Longrightarrow> sends s1 s2 \<Longrightarrow> sends s s2" for s s1 s2 by (rule sends_trans)
  show "sends s s1" if "soft s s1" for s s1
    using that by (intro sends_silent [where es = "[]"]) (simp_all add: soft_def)
  show "sends s (send r p s)" if "ordinary p" for p r s
    using that by (simp add: sends_one window_ordinary)
  show "sends s (send_append_entries peer s)" for peer s
    by (simp add: send_append_entries_def sends_one window_append_message)
  show "sends s (s\<lparr>log := log s @ [entry_of c t s]\<rparr>)" for c t s
    by (rule sends_silent) (simp_all add: nexts_ok_def)
  show "sends s (s\<lparr>commit_index := n\<rparr>)" for n s
    by (rule sends_silent [where es = "[]"]) (simp_all add: nexts_ok_def)
qed (rule sends_ack)


section \<open>When a node writes\<close>

text \<open>
  A node keeps its log and ends without leading, or it acts in an unchanged term in which it
  led before or is promoted from candidate.
\<close>

definition lawful :: "coordinator \<Rightarrow> coordinator \<Rightarrow> bool" where
  "lawful s s' \<longleftrightarrow> log s' = log s \<and> \<not> leading s' \<or>
     current_term s' = current_term s \<and> (leading s \<or> state s = Candidate \<and> leading s')"

lemma lawful_idle: "log s' = log s \<Longrightarrow> \<not> leading s' \<Longrightarrow> lawful s s'"
  by (simp add: lawful_def)

lemma lawful_leads: "leading s \<Longrightarrow> current_term s' = current_term s \<Longrightarrow> lawful s s'"
  by (simp add: lawful_def)

lemma lawful_quiet: "quiet s s' \<Longrightarrow> leading s \<or> log s' = log s \<Longrightarrow> lawful s s'"
  by (auto simp: lawful_def quiet_def leading_def)

lemma lawful_kept:
  "log s' = log s \<Longrightarrow> current_term s' = current_term s \<Longrightarrow> leading s' \<longrightarrow> leading s \<Longrightarrow> lawful s s'"
  by (auto simp: lawful_def)

lemma lawful_first:
  "lawful s1 s' \<Longrightarrow> log s1 = log s \<Longrightarrow> current_term s1 = current_term s \<Longrightarrow> state s1 = state s \<Longrightarrow>
   lawful s s'"
  by (auto simp: lawful_def leading_def)

lemma lawful_then:
  "lawful s s1 \<Longrightarrow> log s' = log s1 \<Longrightarrow> current_term s' = current_term s1 \<Longrightarrow> state s' = state s1 \<Longrightarrow>
   lawful s s'"
  by (auto simp: lawful_def leading_def)

lemma step_down_frame:
  "log (step_down t s) = log s" "\<not> leading (step_down t s)"
  by (cases "state s"; simp add: step_down_def reset_election_timer_nf Let_def leading_def)+

lemma lawful_step_down: "lawful s (step_down t s)"
  by (rule lawful_idle) (simp_all add: step_down_frame)

lemma lawful_request_vote: "lawful s (handle_request_vote sender p s)"
proof -
  define s1 where "s1 = (if rv_term p > current_term s then step_down (rv_term p) s else s)"
  have "lawful s s1" by (simp add: s1_def lawful_step_down lawful_kept)
  then show ?thesis
    by (rule lawful_then)
      (simp_all add: handle_request_vote_def s1_def [symmetric] Let_def env_nf send_def)
qed

lemma lawful_vote_response: "lawful s (handle_vote_response sender p s)"
proof -
  define s1 where "s1 = (if vr_vote_granted p
      then s\<lparr>votes := dput sender (vr_voter_battery p) (votes s)\<rparr> else s)"
  have s1: "log s1 = log s" "current_term s1 = current_term s" "state s1 = state s"
    by (simp_all add: s1_def)
  then have "lawful s s1" by (simp add: lawful_kept leading_def)
  moreover have "lawful s (become_leader s1)" if "state s = Candidate"
    using that s1 quiet_become_leader [of s1] by (auto simp: lawful_def quiet_def leading_def)
  ultimately show ?thesis
    by (simp add: handle_vote_response_def s1_def [symmetric] Let_def lawful_step_down lawful_kept)
qed

lemma lawful_append_response: "lawful s (handle_append_response sender p s)"
proof -
  define s1 where "s1 = (case ar_responder_battery p of
      None \<Rightarrow> s | Some b \<Rightarrow> s\<lparr>peer_batteries := dput sender b (peer_batteries s)\<rparr>)"
  have s1: "log s1 = log s" "current_term s1 = current_term s" "state s1 = state s"
    by (simp_all add: s1_def split: option.split)
  have "current_term (try_advance_commit s2) = current_term s2" for s2
    using quiet_scan_commit by (simp add: try_advance_commit_def quiet_def)
  then show ?thesis
    by (cases "leading s")
      (simp_all add: handle_append_response_def s1_def [symmetric] Let_def lawful_step_down
        lawful_kept lawful_leads s1 leading_def)
qed

lemma lawful_liveness: "lawful s (handle_liveness_ping sender p s)"
proof -
  define s1 where "s1 = (if lp_term p > current_term s then step_down (lp_term p) s else s)"
  have "lawful s s1" by (simp add: s1_def lawful_step_down lawful_kept)
  then have "lawful s (reset_election_timer (s1\<lparr>current_leader_id := l\<rparr>))" for l
    by (rule lawful_then) (simp_all add: reset_election_timer_nf)
  then show ?thesis
    by (simp add: handle_liveness_ping_def s1_def [symmetric] Let_def lawful_kept)
qed

lemma lawful_sensor_data:
  assumes "p = SensorData a b c d"
  shows "lawful s (handle_sensor_data sender p s)"
proof (rule lawful_quiet [OF quiet_sensor_data [OF assms]])
  have "log (handle_sensor_data sender p s) = log s" if "\<not> leading s"
    using that by (simp add: handle_sensor_data_def Let_def send_def split: option.split)
  then show "leading s \<or> log (handle_sensor_data sender p s) = log s" by blast
qed

lemma lawful_reconcile_batch: "lawful s (handle_reconcile_batch sender p s)"
  by (rule lawful_quiet [OF quiet_reconcile_batch]) (simp add: handle_reconcile_batch_def)

lemma start_election_frame:
  "log (start_election s) = log s" "\<not> leading s \<Longrightarrow> \<not> leading (start_election s)"
  by (simp_all add: start_election_def send_all_nf env_nf Let_def leading_def)

lemma lawful_handoff: "lawful s (handle_leadership_handoff sender p s)"
proof -
  have "\<not> leading (start_election s1)" if "state s1 \<noteq> Observer" for s1
    using that by (simp add: start_election_def send_all_nf env_nf Let_def leading_def)
  moreover have "\<not> leading (start_election (step_down t s))" for t
    using step_down_frame start_election_frame by simp
  ultimately show ?thesis
    by (auto simp: handle_leadership_handoff_def lawful_kept start_election_frame step_down_frame
        intro!: lawful_idle)
qed

lemma lawful_partition_control: "lawful s (handle_partition_control sender p s)"
  by (rule lawful_kept)
    (simp_all add: handle_partition_control_def enter_provisional_mode_def
      exit_provisional_mode_def Let_def leading_def)

lemma check_battery_frame:
  "log (check_battery s) = log s" "current_term (check_battery s) = current_term s"
  "leading (check_battery s) \<Longrightarrow> leading s"
  by (auto simp: check_battery_def battery_level_nf leading_def split: if_splits)

lemma publish_frame:
  "log (publish_status s) = log s" "current_term (publish_status s) = current_term s"
  "leading (publish_status s) = leading s"
  by (simp_all add: publish_status_def battery_level_nf Let_def leading_def)

lemma with_battery_frame:
  "log (with_battery f s) = log s" "current_term (with_battery f s) = current_term s"
  "leading (with_battery f s) = leading s"
  by (simp_all add: with_battery_def leading_def split: prod.split)

lemma lawful_demo_control: "lawful s (handle_demo_control sender p s)"
proof -
  have "lawful s (publish_status (check_battery (with_battery f s)))" for f
    using check_battery_frame(3) [of "with_battery f s"]
    by (intro lawful_kept) (simp_all add: publish_frame check_battery_frame(1,2) with_battery_frame)
  then show ?thesis by (simp add: handle_demo_control_def lawful_kept)
qed

lemma lawful_receive:
  assumes "receive sender p s = Inr s'" and "\<not> is_append p"
  shows "lawful s s'"
proof -
  have "lawful s1 s'" if "handle sender p s1 = Inr s'" for s1
  proof (cases p)
    case RequestVote
    then show ?thesis using that lawful_request_vote by (auto simp: handle_def)
  next
    case VoteResponse
    then show ?thesis using that lawful_vote_response by (auto simp: handle_def)
  next
    case AppendEntries
    then show ?thesis using assms(2) by (simp add: is_append_def)
  next
    case AppendResponse
    then show ?thesis using that lawful_append_response by (auto simp: handle_def)
  next
    case LivenessPing
    then show ?thesis using that lawful_liveness by (auto simp: handle_def)
  next
    case SensorData
    then show ?thesis using that lawful_sensor_data by (auto simp: handle_def)
  next
    case LeadershipHandoff
    then show ?thesis using that lawful_handoff by (auto simp: handle_def)
  next
    case ReconcileBatch
    then show ?thesis using that lawful_reconcile_batch by (auto simp: handle_def)
  next
    case PartitionControl
    then show ?thesis using that lawful_partition_control by (auto simp: handle_def)
  next
    case DemoControl
    then show ?thesis using that lawful_demo_control by (auto simp: handle_def)
  next
    case LeafRegister
    then show ?thesis
      using that by (auto simp: handle_def handle_leaf_register_def send_def Let_def leading_def intro!: lawful_kept)
  qed (use that in \<open>auto simp: handle_def intro!: lawful_kept\<close>)
  then have "lawful (count_received p s) s'" using assms(1) by (simp add: receive_def)
  then show ?thesis by (rule lawful_first) (simp_all add: count_received_def)
qed

text \<open>A tick keeps the term of a leader, and the log of any other node.\<close>

lemma initiate_handoff_term: "current_term (initiate_handoff s) = current_term s"
  by (simp add: initiate_handoff_def env_nf Let_def send_def split: list.split prod.split)

lemma tick_echod_term:
  assumes "leading s"
  shows "current_term (tick_echod now s) = current_term s"
proof -
  define s1 where "s1 = (if batch_due now s then flush_batch s else s)"
  define s2 where "s2 = (if now - last_ping_time s1 \<ge> ping_interval_s s1
               then (send_liveness_ping s1)\<lparr>last_ping_time := now\<rparr> else s1)"
  have "current_term s1 = current_term s"
    using quiet_flush_batch [OF assms] by (simp add: s1_def quiet_def)
  moreover have "current_term s2 = current_term s1"
    using quiet_ping [of s1] by (simp add: s2_def quiet_def)
  ultimately show ?thesis
    by (simp add: tick_echod_def s1_def [symmetric] s2_def [symmetric] Let_def battery_level_nf
        initiate_handoff_term)
qed

lemma lawful_tick: "lawful s (tick s)"
proof -
  define now where "now = time_of s"
  define s1 where "s1 = s\<lparr>env := tick_env s\<rparr>"
  define s2 where "s2 = (if leading s1
                    then (case protocol s1 of
                        Raft \<Rightarrow> tick_raft now s1
                      | Echod \<Rightarrow> tick_echod now s1
                      | Echo \<Rightarrow> tick_echo now s1)
                    else if now \<ge> election_deadline s1 then start_election s1
                    else s1)"
  have s1: "log s1 = log s" "current_term s1 = current_term s" "state s1 = state s"
    by (simp_all add: s1_def)
  have "lawful s1 s2"
  proof (cases "leading s1")
    case True
    then have "current_term s2 = current_term s1"
      using quiet_tick_raft [OF True] quiet_tick_echo tick_echod_term [OF True]
      by (simp add: s2_def quiet_def split: protocol.split)
    with True show ?thesis by (simp add: lawful_leads)
  next
    case False
    then show ?thesis
      using start_election_frame(2) [OF False]
      by (simp add: s2_def lawful_idle start_election_frame(1))
  qed
  then have "lawful s s2" using s1 by (rule lawful_first)
  moreover have "lawful s s1" by (simp add: lawful_kept s1 leading_def)
  moreover have "tick s = (if state s1 = Observer then s1
      else if keepalive_due now s2 then (send_leaf_keepalives s2)\<lparr>last_leaf_keepalive := now\<rparr>
      else s2)"
    by (simp only: tick_def now_s_nf Let_def prod.case now_def s1_def s2_def)
  moreover have "lawful s ((send_leaf_keepalives s2)\<lparr>last_leaf_keepalive := now\<rparr>)"
    using \<open>lawful s s2\<close>
    by (rule lawful_then) (simp_all add: send_leaf_keepalives_def send_all_nf)
  ultimately show ?thesis by simp
qed

section \<open>One part of the loop\<close>

text \<open>The reception that may replace a log, and every other part of the loop.\<close>

definition next_message :: "coordinator \<Rightarrow> (string \<times> payload) option" where
  "next_message s =
     (if running s then (case inbox s of Some (m # _) \<Rightarrow> Some m | _ \<Rightarrow> None) else None)"

definition takes_append :: "action \<Rightarrow> coordinator \<Rightarrow> bool" where
  "takes_append a s \<longleftrightarrow>
     a = HandleNext \<and> (\<exists>m. next_message s = Some m \<and> is_append (snd m))"

definition writes :: "coordinator \<Rightarrow> coordinator \<Rightarrow> bool" where
  "writes s s' \<longleftrightarrow> lawful s s' \<and> sends s s' \<and> extends s s'"

lemma soft_writes:
  assumes "soft s s'" and "current_term s' = current_term s" and "leading s' \<Longrightarrow> leading s"
  shows "writes s s'"
  using assms sends.R_soft extends.R_soft
  by (auto simp: writes_def soft_def intro!: lawful_kept)

lemma writes_refl: "writes s s"
  by (rule soft_writes) simp_all

lemma writes_tick: "writes s (tick s)"
  by (simp add: writes_def lawful_tick sends.R_tick extends.R_tick)

lemma writes_receive:
  assumes "receive f m s = Inr s'" and "\<not> is_append m" and "sane_message m"
  shows "writes s s'"
proof -
  have "acceptable (\<lambda>m. 0 \<le> m) m" "acceptable (\<lambda>_. True) m"
    using assms(2,3) by (cases m; simp add: acceptable_def sane_message_def is_append_def)+
  then show ?thesis
    using lawful_receive sends.R_receive extends.R_receive assms by (simp add: writes_def)
qed

lemma writes_first:
  assumes "writes s1 s'" and "log s1 = log s" and "current_term s1 = current_term s"
    and "state s1 = state s" and "commit_index s1 = commit_index s"
    and "outbox s1 = outbox s" and "next_index s1 = next_index s"
  shows "writes s s'"
  using assms lawful_first [of s1 s' s]
  by (simp add: writes_def sends_def extends_def nexts_ok_def)

lemma writes_act:
  assumes "act a s = Inr s'" and "boxed s" and "\<not> takes_append a s"
  shows "writes s s'"
proof (cases a)
  case Start
  have "writes s (run_start s)"
    by (simp add: run_start_def battery_level_nf writes_def lawful_kept leading_def sends_def
        extends_def nexts_ok_def)
  then show ?thesis using Start assms(1) writes_refl by (simp add: act_def split: if_splits)
next
  case HandleNext
  show ?thesis
  proof (cases "running s \<and> (\<exists>f m q. inbox s = Some ((f, m) # q))")
    case True
    then obtain f m q where q: "inbox s = Some ((f, m) # q)" and run: "running s" by blast
    have "receive f m (s\<lparr>inbox := Some q\<rparr>) = Inr s'"
      using assms(1) HandleNext q run by (simp add: act_def)
    moreover have "\<not> is_append m"
      using assms(3) HandleNext q run by (simp add: takes_append_def next_message_def)
    moreover have "sane_message m" using assms(2) q by (simp add: boxed_def)
    ultimately have "writes (s\<lparr>inbox := Some q\<rparr>) s'" by (rule writes_receive)
    then show ?thesis by (rule writes_first) simp_all
  next
    case False
    then have "s' = s"
      using HandleNext assms(1) by (auto simp: act_def split: option.splits list.splits if_splits)
    then show ?thesis by (simp add: writes_refl)
  qed
next
  case CheckBattery
  have "writes s (check_battery s)"
    by (rule soft_writes) (simp_all add: soft_check_battery check_battery_frame)
  then show ?thesis
    using CheckBattery assms(1) writes_refl by (simp add: act_def split: if_splits)
next
  case Tick
  then show ?thesis using assms(1) writes_refl writes_tick by (auto simp: act_def split: if_splits)
next
  case Publish
  have "writes s (publish_status s)"
    by (rule soft_writes) (simp_all add: soft_publish publish_frame)
  then show ?thesis using Publish assms(1) writes_refl by (simp add: act_def split: if_splits)
next
  case Stop
  have "writes s (stop s)"
    using soft_stop by (rule soft_writes) (simp_all add: stop_def leading_def)
  then show ?thesis using Stop assms(1) by (simp add: act_def)
qed

text \<open>Who still leads after an AppendEntries led before, in that term or a later one.\<close>

lemma leading_heard: "leading (heard sender p s) \<Longrightarrow> leading s \<and> ae_term p \<le> current_term s"
proof -
  assume l: "leading (heard sender p s)"
  define s1 where "s1 = (if ae_term p > current_term s then step_down (ae_term p) s else s)"
  have "leading s1"
    using l by (simp add: heard_def s1_def [symmetric] Let_def reset_election_timer_nf leading_def
        split: if_splits)
  then show ?thesis by (simp add: s1_def step_down_frame split: if_splits)
qed

lemma leading_after_append:
  assumes "handle_append_entries sender p s = Inr s'" and "leading s'"
  shows "leading s \<and> ae_term p \<le> current_term s"
proof (cases "ae_term p < current_term s")
  case True
  then show ?thesis
    using assms by (auto simp: stale_append append_response_frame leading_def)
next
  case False
  have "leading (heard sender p s)"
  proof (cases "prev_matches (log s) (ae_prev_log_index p) (ae_prev_log_term p)")
    case False
    then show ?thesis
      using assms \<open>\<not> ae_term p < current_term s\<close>
      by (auto simp: rejected_append reject_append_def append_response_frame leading_def)
  next
    case True
    then obtain s1 where s1: "append_loop (py_get (ae_entries p) []) (heard sender p s) = Inr s1"
      "state s' = state s1"
      using assms(1) \<open>\<not> ae_term p < current_term s\<close>
      by (auto simp: handle_append_entries_heard heard_frame Let_def bind_Inr_iff
          append_response_frame advance_follower_commit_def split: if_splits)
    then show ?thesis
      using quiet_leading [OF quiet_append_loop [OF s1(1)]] assms(2) by (simp add: leading_def)
  qed
  then show ?thesis by (rule leading_heard)
qed

lemma append_received:
  assumes "receive f m s = Inr s'" and "is_append m" and "well_sent m"
    and "window g m" and "agree (log s) g"
  shows "log s' \<in> {log s, g}"
    and "leading s' \<Longrightarrow> leading s \<and> (ae_term m = current_term s \<or>
      ae_term m < current_term s \<and> log s' = log s \<and> current_term s' = current_term s)"
    and "nexts_ok s \<Longrightarrow> nexts_ok s' \<and> 
      (\<exists>ms. outbox s' = outbox s @ ms \<and> (\<forall>m \<in> set ms. ordinary (snd m)))"
proof -
  define c where "c = count_received m s"
  have c: "log c = log s" "current_term c = current_term s" "leading c = leading s"
    "nexts_ok c = nexts_ok s" "outbox c = outbox s"
    by (simp_all add: c_def count_received_def leading_def nexts_ok_def)
  have h: "handle_append_entries f m c = Inr s'"
    using assms(1,2) by (cases m) (simp_all add: receive_def handle_def is_append_def c_def)
  show "leading s \<and> (ae_term m = current_term s \<or>
      ae_term m < current_term s \<and> log s' = log s \<and> current_term s' = current_term s)"
    if "leading s'"
    using leading_after_append [OF h that] h stale_append [of m c f]
    by (cases "ae_term m < current_term c") (auto simp: c append_response_frame)
  show "nexts_ok s' \<and> (\<exists>ms. outbox s' = outbox s @ ms \<and> (\<forall>m \<in> set ms. ordinary (snd m)))"
    if "nexts_ok s"
    using answers.R_append_entries [OF h] that by (simp add: answers_def c)
  show "log s' \<in> {log s, g}"
  proof (cases "ae_term m < current_term c \<or>
      \<not> prev_matches (log c) (ae_prev_log_index m) (ae_prev_log_term m)")
    case True
    then show ?thesis
      using h stale_append [of m c f] rejected_append [of c m f]
      by (cases "ae_term m < current_term c")
        (auto simp: c append_response_frame reject_append_def heard_frame)
  next
    case False
    then have "log s' = graft (log c) (nat (ae_prev_log_index m)) (py_get (ae_entries m) [])"
      using accepted_append [of c m f] assms(3) h by auto
    then show ?thesis using graft_of_window [OF assms(5,2,4)] False c by simp
  qed
qed

end
