(* ===== verification/LogMatching.thy ===== *)
theory LogMatching
  imports Safety LogLaws
begin

text \<open>
  Log matching of the coordinator cluster: in every orderly run two logs that have entries of
  one term at one index are the same up to there.
\<close>

section \<open>The logs of a cluster\<close>

text \<open>
  \<open>L\<close> is the set of all logs there have been. They agree pairwise, every AppendEntries in the
  network carries the tail of one of them, an entry's term has a winner, and a node that
  leads holds every entry of its term.
\<close>

definition logs_ok :: "string set \<Rightarrow> system \<Rightarrow> string poll \<Rightarrow> log_entry list set \<Rightarrow> bool" where
  "logs_ok ids S p L \<longleftrightarrow>
     (\<forall>i \<in> ids. log (nodes S i) \<in> L) \<and> (\<forall>l \<in> L. \<forall>h \<in> L. agree l h) \<and>
     (\<forall>e \<in> net S. \<exists>g \<in> L. window g (snd (snd e))) \<and>
     (\<forall>l \<in> L. \<forall>e \<in> set l. \<exists>v. (le_term e, v) \<in> won p) \<and>
     (\<forall>i \<in> ids. leading (nodes S i) \<longrightarrow> owns (current_term (nodes S i)) (log (nodes S i)) L)"

lemma logs_okD:
  assumes "logs_ok ids S p L"
  shows "i \<in> ids \<Longrightarrow> log (nodes S i) \<in> L"
    and "l \<in> L \<Longrightarrow> h \<in> L \<Longrightarrow> agree l h"
    and "e \<in> net S \<Longrightarrow> \<exists>g \<in> L. window g (snd (snd e))"
    and "l \<in> L \<Longrightarrow> e' \<in> set l \<Longrightarrow> \<exists>v. (le_term e', v) \<in> won p"
    and "i \<in> ids \<Longrightarrow> leading (nodes S i) \<Longrightarrow>
      owns (current_term (nodes S i)) (log (nodes S i)) L"
  using assms unfolding logs_ok_def by blast+

lemma logs_okI:
  "(\<And>i. i \<in> ids \<Longrightarrow> log (nodes S i) \<in> L) \<Longrightarrow> (\<And>l h. l \<in> L \<Longrightarrow> h \<in> L \<Longrightarrow> agree l h) \<Longrightarrow>
   (\<And>e. e \<in> net S \<Longrightarrow> \<exists>g \<in> L. window g (snd (snd e))) \<Longrightarrow>
   (\<And>l e. l \<in> L \<Longrightarrow> e \<in> set l \<Longrightarrow> \<exists>v. (le_term e, v) \<in> won p) \<Longrightarrow>
   (\<And>i. i \<in> ids \<Longrightarrow> leading (nodes S i) \<Longrightarrow>
      owns (current_term (nodes S i)) (log (nodes S i)) L) \<Longrightarrow> logs_ok ids S p L"
  by (simp add: logs_ok_def)

lemma refines_leader_won:
  assumes "refines ids S p" and "i \<in> ids" and "leading (nodes S i)"
  shows "(current_term (nodes S i), i) \<in> won p"
proof -
  have "elected_won p" using poll_inv_reach [OF refines_poll [OF assms(1)]] by (simp add: poll_inv_def)
  moreover have "b_role (member p i) = Elected" "b_term (member p i) = current_term (nodes S i)"
    using refines_member [OF assms(1,2)] assms(3) by (simp_all add: leading_def)
  ultimately show ?thesis unfolding elected_won_def by metis
qed

text \<open>A candidate's term has no entries yet: nobody else wins it once the candidate does.\<close>

lemma candidate_owns:
  assumes L: "logs_ok ids S p L" and R: "refines ids S p" "poll_reach (majority_of ids) p'"
    and i: "i \<in> ids" "state (nodes S i) = Candidate"
    and won: "won p \<subseteq> won p'" "(current_term (nodes S i), i) \<in> won p'"
  shows "owns (current_term (nodes S i)) l L"
proof -
  let ?t = "current_term (nodes S i)"
  have "b_role (member p i) = Campaigning" "b_term (member p i) = ?t"
    using refines_member [OF R(1) i(1)] i(2) by simp_all
  then have "(?t, i) \<notin> won p" using won_past [OF refines_poll [OF R(1)]] by metis
  moreover have "v = i" if "(?t, v) \<in> won p" for v
    using maj.one_winner [OF R(2)] won that by blast
  ultimately have "(?t, v) \<notin> won p" for v by blast
  then have "\<forall>h \<in> L. \<forall>e \<in> set h. le_term e \<noteq> ?t" using logs_okD(4) [OF L] by metis
  then show ?thesis by (simp add: owns_def)
qed

lemma agree_prefixes:
  assumes "\<forall>l \<in> L. \<forall>h \<in> L. agree l h" and "\<forall>h \<in> L. agree l h"
    and "x \<in> L \<union> range (\<lambda>n. take n l)" and "y \<in> L \<union> range (\<lambda>n. take n l)"
  shows "agree x y"
proof -
  have "agree l z" if "z \<in> L \<union> range (\<lambda>n. take n l)" for z
    using that
  proof (elim UnE rangeE)
    show "agree l z" if "z \<in> L" using that assms(2) by blast
    show "agree l z" if "z = take n l" for n
      unfolding that by (rule agree_sym [OF agree_take [OF agree_refl]])
  qed
  note lz = this
  show ?thesis
    using assms(3)
  proof (elim UnE rangeE)
    show "agree x y" if "x = take n l" for n
      unfolding that by (rule agree_take [OF lz [OF assms(4)]])
    show "agree x y" if x: "x \<in> L"
      using assms(4)
    proof (elim UnE rangeE)
      show "agree x y" if "y \<in> L" using x that assms(1) by blast
      show "agree x y" if "y = take n l" for n
        unfolding that using x assms(2) by (intro agree_sym [OF agree_take]) blast
    qed
  qed
qed

text \<open>A step that writes: the set of logs grows by the prefixes of the new log.\<close>

lemma logs_ok_writes:
  assumes L: "logs_ok ids S p L" and R: "refines ids S p" and i: "i \<in> ids"
    and w: "writes ((nodes S i)\<lparr>outbox := []\<rparr>) s'" and n: "nexts_ok (nodes S i)"
    and S': "S' = S\<lparr>nodes := (nodes S)(i := s'), net := net S \<union> emitted i s'\<rparr>"
    and R': "refines ids S' p'" and won: "won p \<subseteq> won p'"
  shows "logs_ok ids S' p' (L \<union> range (\<lambda>n. take n (log s')))"
proof -
  let ?s = "nodes S i" and ?t = "current_term s'"
  let ?L = "L \<union> range (\<lambda>n. take n (log s'))"
  obtain es where es: "log s' = log ?s @ es"
    "\<forall>e \<in> set es. current_term ?s \<le> le_term e \<and> le_term e \<le> ?t"
    using w by (auto simp: writes_def extends_def)
  have law: "es = [] \<and> \<not> leading s' \<or>
      ?t = current_term ?s \<and> (leading ?s \<or> state ?s = Candidate \<and> leading s')"
    using w es(1) by (auto simp: writes_def lawful_def leading_def)
  have own: "?t = current_term ?s \<and> owns ?t (log ?s) L \<and> (?t, i) \<in> won p'"
    if "es \<noteq> [] \<or> leading s'"
  proof (cases "leading ?s")
    case True
    then show ?thesis
      using law that logs_okD(5) [OF L i] refines_leader_won [OF R i] won by auto
  next
    case False
    then have c: "state ?s = Candidate" "leading s'" "?t = current_term ?s" using law that by auto
    then have "(?t, i) \<in> won p'" using refines_leader_won [OF R' i] by (simp add: S')
    then show ?thesis
      using candidate_owns [OF L R refines_poll [OF R'] i c(1) won] c(3) by simp
  qed
  have terms: "\<forall>e \<in> set es. le_term e = ?t" using es(2) own by (cases "es = []") force+
  have logs: "\<forall>h \<in> L. agree (log s') h"
  proof
    fix h
    assume "h \<in> L"
    then have "agree (log ?s) h" using logs_okD(1,2) [OF L] i by blast
    then show "agree (log s') h"
      using agree_append [OF _ _ \<open>h \<in> L\<close> terms] own es(1) by (cases "es = []") auto
  qed
  show ?thesis
  proof (rule logs_okI)
    fix j
    assume "j \<in> ids"
    have "log s' \<in> range (\<lambda>n. take n (log s'))" by (metis rangeI take_all_iff order_refl)
    then show "log (nodes S' j) \<in> ?L" using logs_okD(1) [OF L \<open>j \<in> ids\<close>] by (simp add: S')
  next
    show "agree x y" if "x \<in> ?L" "y \<in> ?L" for x y
      using agree_prefixes [OF _ logs that] logs_okD(2) [OF L] by blast
  next
    fix e
    assume "e \<in> net S'"
    then consider "e \<in> net S" | m where "m \<in> set (outbox s')" "snd (snd e) = snd m"
      by (auto simp: S' emitted_def)
    then show "\<exists>g \<in> ?L. window g (snd (snd e))"
    proof cases
      case 1
      then show ?thesis using logs_okD(3) [OF L] by blast
    next
      case 2
      have "sends (?s\<lparr>outbox := []\<rparr>) s'" using w by (simp add: writes_def)
      then have "\<exists>n. window (take n (log s')) (snd m)"
        using n 2(1) by (simp add: sends_def nexts_ok_def)
      then show ?thesis unfolding 2(2) by blast
    qed
  next
    fix l e
    assume l: "l \<in> ?L" "e \<in> set l"
    have "(\<exists>h \<in> L. e \<in> set h) \<or> e \<in> set es"
    proof (cases "l \<in> L")
      case False
      then have "e \<in> set (log s')" using l by (auto dest: in_set_takeD)
      then show ?thesis using es(1) logs_okD(1) [OF L i] by auto
    qed (use l in blast)
    then show "\<exists>v. (le_term e, v) \<in> won p'"
      using logs_okD(4) [OF L] won terms own by (metis empty_iff list.set(1) subsetD)
  next
    fix j
    assume j: "j \<in> ids" "leading (nodes S' j)"
    let ?u = "current_term (nodes S' j)"
    have "k < length (log (nodes S' j)) \<and> le_term (log (nodes S' j) ! k) = ?u"
      if h: "h \<in> ?L" "k < length h" "le_term (h ! k) = ?u" for h k
    proof (cases "j = i")
      case True
      then have "leading s'" and u: "?u = ?t" using j(2) by (simp_all add: S')
      then have o: "owns ?t (log ?s) L" using own by blast
      have "owns ?t (log s') ?L"
        unfolding es(1) by (rule owns_prefixes [OF owns_longer [OF o]])
      then have "k < length (log s') \<and> le_term (log s' ! k) = ?t"
        using h unfolding u by (rule ownsD)
      then show ?thesis using True by (simp add: S')
    next
      case False
      then have sj: "nodes S' j = nodes S j" by (simp add: S')
      then have o: "owns ?u (log (nodes S j)) L" using logs_okD(5) [OF L j(1)] j(2) by simp
      have "\<exists>g \<in> L. k < length g \<and> le_term (g ! k) = ?u"
      proof (cases "h \<in> L \<or> k < length (log ?s)")
        case True
        then show ?thesis
        proof (cases "h \<in> L")
          case False
          then have "k < length (log ?s)" "h ! k = log ?s ! k"
            using True nth_prefixes [OF h(1,2)] es(1) by (auto simp: nth_append)
          then show ?thesis using h(3) logs_okD(1) [OF L i] by auto
        qed (use h in blast)
      next
        case k: False
        then have "k < length (log s')" "h ! k = log s' ! k"
          using nth_prefixes [OF h(1,2)] by auto
        then have "h ! k \<in> set es" using k es(1) by (auto simp: nth_append intro!: nth_mem)
        moreover from this have "es \<noteq> []" by auto
        ultimately have "?u = ?t" "(?t, i) \<in> won p'" using terms own h(3) by auto
        then have "j = i"
          using refines_leader_won [OF R' j] maj.one_winner [OF refines_poll [OF R']] by metis
        with False show ?thesis by simp
      qed
      then show ?thesis using ownsD [OF o] unfolding sj by blast
    qed
    then show "owns ?u (log (nodes S' j)) ?L" by (simp add: owns_def)
  qed
qed

text \<open>A step that takes an AppendEntries: the new log is one there has been.\<close>

lemma logs_ok_append:
  assumes L: "logs_ok ids S p L" and R: "refines ids S p" and T: "tidy ids S" and i: "i \<in> ids"
    and a: "act a ((nodes S i)\<lparr>outbox := []\<rparr>) = Inr s'"
    and t: "takes_append a (nodes S i)"
    and S': "S' = S\<lparr>nodes := (nodes S)(i := s'), net := net S \<union> emitted i s'\<rparr>"
    and R': "refines ids S' p'" and won: "won p \<subseteq> won p'"
  shows "logs_ok ids S' p' L"
proof -
  let ?s = "nodes S i"
  obtain f m q where q: "running ?s" "inbox ?s = Some ((f, m) # q)" "is_append m" "a = HandleNext"
    using t by (auto simp: takes_append_def next_message_def split: option.splits list.splits if_splits)
  let ?c = "?s\<lparr>outbox := [], inbox := Some q\<rparr>"
  have rec: "receive f m ?c = Inr s'" using a q by (simp add: act_def)
  have "inbox_ok S i ?s" using R i by (simp add: refines_def)
  then obtain r where fm: "(f, r, m) \<in> net S" "f \<noteq> i"
    using inbox_ok_member [of S i ?s "(f, m) # q" f m] q(2) by auto
  have sane: "sane_message m" "nexts_ok ?s"
    using tidy_boxed [OF T i] q(2) by (auto simp: boxed_def sane_node_def)
  then have "well_sent m" using q(3) by (cases m) (simp_all add: sane_message_def is_append_def)
  obtain g where g: "g \<in> L" "window g m" using logs_okD(3) [OF L fm(1)] by auto
  have "agree (log ?c) g" using logs_okD(1,2) [OF L] i g(1) by simp
  note got = append_received [OF rec q(3) \<open>well_sent m\<close> g(2) this]
  have log: "log s' \<in> L" using got(1) g(1) logs_okD(1) [OF L i] by auto
  have lead: "leading ?s \<and> log s' = log ?s \<and> current_term s' = current_term ?s" if "leading s'"
  proof -
    have l: "leading ?s" "ae_term m = current_term ?s \<or>
        ae_term m < current_term ?s \<and> log s' = log ?s \<and> current_term s' = current_term ?s"
      using got(2) [OF that] by (simp_all add: leading_def)
    have "ae_term m \<noteq> current_term ?s"
    proof
      assume t: "ae_term m = current_term ?s"
      have "f \<in> ids \<or> client_message m"
        using R fm(1) unfolding refines_def net_ok_def by metis
      then have "f \<in> ids" using q(3) by (cases m) (simp_all add: is_append_def)
      then have "justified f p (r, m)" using refines_justified [OF R] fm(1) by blast
      then have "(ae_term m, f) \<in> won p" using q(3) by (cases m) (simp_all add: is_append_def)
      then have "f = i"
        using refines_leader_won [OF R i l(1)] maj.one_winner [OF refines_poll [OF R]] t by metis
      with fm(2) show False by simp
    qed
    with l show ?thesis by simp
  qed
  show ?thesis
  proof (rule logs_okI)
    show "log (nodes S' j) \<in> L" if "j \<in> ids" for j
      using log logs_okD(1) [OF L that] by (simp add: S')
    show "agree l h" if "l \<in> L" "h \<in> L" for l h
      using logs_okD(2) [OF L that] .
    show "\<exists>v. (le_term e, v) \<in> won p'" if "l \<in> L" "e \<in> set l" for l e
      using logs_okD(4) [OF L that] won by blast
    show "owns (current_term (nodes S' j)) (log (nodes S' j)) L"
      if "j \<in> ids" "leading (nodes S' j)" for j
      using that lead logs_okD(5) [OF L that(1)] by (auto simp: S' split: if_splits)
    fix e
    assume "e \<in> net S'"
    then consider "e \<in> net S" | x where "x \<in> set (outbox s')" "snd (snd e) = snd x"
      by (auto simp: S' emitted_def)
    then show "\<exists>g \<in> L. window g (snd (snd e))"
    proof cases
      case 1
      then show ?thesis using logs_okD(3) [OF L] by blast
    next
      case 2
      have "\<forall>x \<in> set (outbox s'). ordinary (snd x)"
        using got(3) sane(2) by (auto simp: nexts_ok_def)
      then show ?thesis using 2 g(1) window_ordinary by metis
    qed
  qed
qed


section \<open>Every orderly run\<close>

text \<open>What a stop, a delivery or an injection leaves alone.\<close>

lemma logs_ok_same:
  assumes L: "logs_ok ids S p L" and won: "won p \<subseteq> won p'"
    and same: "\<And>i. i \<in> ids \<Longrightarrow> log (nodes S' i) = log (nodes S i) \<and>
      current_term (nodes S' i) = current_term (nodes S i) \<and>
      leading (nodes S' i) = leading (nodes S i)"
    and net: "\<And>e. e \<in> net S' \<Longrightarrow> e \<in> net S \<or> client_message (snd (snd e))"
    and i: "i \<in> ids"
  shows "logs_ok ids S' p' L"
proof (rule logs_okI)
  show "log (nodes S' j) \<in> L" if "j \<in> ids" for j
    using logs_okD(1) [OF L that] same [OF that] by simp
  show "agree l h" if "l \<in> L" "h \<in> L" for l h
    using logs_okD(2) [OF L that] .
  show "\<exists>g \<in> L. window g (snd (snd e))" if "e \<in> net S'" for e
    using net [OF that] logs_okD(1) [OF L i] logs_okD(3) [OF L] window_client by blast
  show "\<exists>v. (le_term e, v) \<in> won p'" if "l \<in> L" "e \<in> set l" for l e
    using logs_okD(4) [OF L that] won by blast
  show "owns (current_term (nodes S' j)) (log (nodes S' j)) L"
    if "j \<in> ids" "leading (nodes S' j)" for j
    using that same [OF that(1)] logs_okD(5) [OF L that(1)] by simp
qed

lemma dispatch_frame:
  "log (dispatch f m s) = log s" "current_term (dispatch f m s) = current_term s"
  "leading (dispatch f m s) = leading s"
  by (simp_all add: dispatch_def leading_def split: option.split)

lemma stop_frame:
  "log (stop s) = log s" "current_term (stop s) = current_term s" "leading (stop s) = leading s"
  by (simp_all add: stop_def leading_def)

lemma logs_ok_step:
  assumes L: "logs_ok ids S p L" and R: "refines ids S p" and T: "tidy ids S"
    and step: "sys_step ids e S = Some S'" and R': "refines ids S' p'" and won: "won p \<subseteq> won p'"
  shows "\<exists>L'. logs_ok ids S' p' L'"
proof -
  have "ids \<noteq> {}" using R by (auto simp: refines_def)
  then obtain i0 where i0: "i0 \<in> ids" by blast
  show ?thesis
  proof (cases e)
    case (Act i a)
    then have i: "i \<in> ids" using step by (auto split: if_splits)
    show ?thesis
    proof (cases "act a ((nodes S i)\<lparr>outbox := []\<rparr>)")
      case (Inl err)
      then have S': "S' = S\<lparr>nodes := (nodes S)(i := stop (nodes S i))\<rparr>"
        using step Act i by simp
      have "logs_ok ids S' p' L"
        using L won by (rule logs_ok_same [OF _ _ _ _ i0]) (auto simp: S' stop_frame)
      then show ?thesis ..
    next
      case (Inr s')
      then have S': "S' = S\<lparr>nodes := (nodes S)(i := s'), net := net S \<union> emitted i s'\<rparr>"
        using step Act i by simp
      show ?thesis
      proof (cases "takes_append a (nodes S i)")
        case True
        have "logs_ok ids S' p' L"
          by (rule logs_ok_append [OF L R T i Inr True S' R' won])
        then show ?thesis ..
      next
        case False
        have "boxed ((nodes S i)\<lparr>outbox := []\<rparr>)" "nexts_ok (nodes S i)"
          using tidy_boxed [OF T i] by (simp_all add: boxed_def sane_node_def)
        moreover have "\<not> takes_append a ((nodes S i)\<lparr>outbox := []\<rparr>)"
          using False by (simp add: takes_append_def next_message_def)
        ultimately have "writes ((nodes S i)\<lparr>outbox := []\<rparr>) s'" "nexts_ok (nodes S i)"
          using writes_act [OF Inr] by blast+
        then show ?thesis using logs_ok_writes [OF L R i _ _ S' R' won] by blast
      qed
    qed
  next
    case (Deliver i m)
    then obtain f r pl where m: "m = (f, r, pl)" by (cases m)
    then have S': "S' = S\<lparr>nodes := (nodes S)(i := dispatch f pl (nodes S i))\<rparr>"
      using step Deliver by (auto split: if_splits)
    have "logs_ok ids S' p' L"
      using L won by (rule logs_ok_same [OF _ _ _ _ i0]) (auto simp: S' dispatch_frame)
    then show ?thesis ..
  next
    case (Inject m)
    then obtain f r pl where m: "m = (f, r, pl)" by (cases m)
    then have S': "S' = S\<lparr>net := insert m (net S)\<rparr>" "client_message pl"
      using step Inject by (auto split: if_splits)
    have "logs_ok ids S' p' L"
      using L won by (rule logs_ok_same [OF _ _ _ _ i0]) (use S' m in auto)
    then show ?thesis ..
  qed
qed

lemma orderly_run_run: "orderly_run ids S \<Longrightarrow> run ids S"
  by (induction rule: orderly_run.induct) (blast intro: run_initial run_step)+

lemma logs_ok_initial:
  assumes "initial ids S"
  shows "logs_ok ids S p {[]}"
proof -
  have "log (nodes S i) = [] \<and> \<not> leading (nodes S i)" if i: "i \<in> ids" for i
  proof -
    obtain proto ps b demo w where "init_coordinator proto i ps b demo w = Inr (nodes S i)"
      using assms i unfolding initial_def by meson
    then show ?thesis using init_coordinator_fields(4,9) by (simp add: leading_def)
  qed
  then show ?thesis using assms by (intro logs_okI) (auto simp: initial_def)
qed

lemma orderly_run_logs: "orderly_run ids S \<Longrightarrow> \<exists>p L. refines ids S p \<and> logs_ok ids S p L"
proof (induction rule: orderly_run.induct)
  case (orderly_initial S)
  then show ?case using refines_initial logs_ok_initial by blast
next
  case (orderly_step S e S')
  obtain p L where p: "refines ids S p" and L: "logs_ok ids S p L"
    using orderly_step.IH by blast
  obtain p' where p': "refines ids S' p'" "won p \<subseteq> won p'"
    using refines_step [OF p orderly_step.hyps(2,3)] by blast
  have "tidy ids S" using run_tidy [OF orderly_run_run [OF orderly_step.hyps(1)]] .
  then show ?case using logs_ok_step [OF L p _ orderly_step.hyps(2) p'] p'(1) by blast
qed

lemma orderly_logs_agree:
  assumes "orderly_run ids S" and "i \<in> ids" and "j \<in> ids"
  shows "agree (log (nodes S i)) (log (nodes S j))"
proof -
  obtain p L where "logs_ok ids S p L" using orderly_run_logs [OF assms(1)] by blast
  then show ?thesis using logs_okD(1,2) assms(2,3) by metis
qed


section \<open>Properties\<close>

text \<open>C9. Log matching: in every orderly run, if the logs of two nodes have entries of the same
  term at one index, the logs are identical up to that index, whatever is lost, duplicated,
  delayed or reordered and however often leaders change.\<close>

theorem log_matching:
  assumes "orderly_run ids S" and "i \<in> ids" and "j \<in> ids"
    and "k < length (log (nodes S i))" and "k < length (log (nodes S j))"
    and "le_term (log (nodes S i) ! k) = le_term (log (nodes S j) ! k)"
  shows "take (Suc k) (log (nodes S i)) = take (Suc k) (log (nodes S j))"
  using agreeD [OF orderly_logs_agree [OF assms(1-3)] assms(4-6)] .

theorem log_matching_witness:
  "\<exists>S. orderly_run trio S \<and> length (log (nodes S ''b'')) = 2 \<and>
     take (Suc 1) (log (nodes S ''a'')) = take (Suc 1) (log (nodes S ''b''))"
proof -
  obtain S where S: "orderly_run trio S"
    "log (nodes S ''a'') = [logged 1 1 1 0, logged 2 3 3 1]"
    "log (nodes S ''b'') = [logged 1 1 1 0, logged 2 3 3 1]"
    using raft_run_of [OF commits_twice] by blast
  have "''a'' \<in> trio" "''b'' \<in> trio" by (simp_all add: trio_def)
  then have "take (Suc 1) (log (nodes S ''a'')) = take (Suc 1) (log (nodes S ''b''))"
    using S by (intro log_matching [OF S(1)]) simp_all
  with S show ?thesis by auto
qed

end
