(* ===== verification/Lone.thy ===== *)
theory Lone
  imports LogLaws
begin

text \<open>
  A coordinator whose list of peers is empty, from its construction on: it can campaign but
  never serves.
\<close>

text \<open>
  What can happen to a coordinator nobody but clients writes to: the parts of its loop and
  the arrival of client messages.
\<close>

inductive lone :: "coordinator \<Rightarrow> bool" where
  lone_built: "init_coordinator proto i [] b demo w = Inr s \<Longrightarrow> lone s"
| lone_act: "lone s \<Longrightarrow> act a s = Inr s' \<Longrightarrow> lone s'"
| lone_deliver: "lone s \<Longrightarrow> client_message m \<Longrightarrow> lone (dispatch f m s)"

definition waiting :: "coordinator \<Rightarrow> bool" where
  "waiting s \<longleftrightarrow> \<not> leading s \<and> log s = [] \<and> commit_index s = 0 \<and>
     (\<forall>q. inbox s = Some q \<longrightarrow> (\<forall>m \<in> set q. client_message (snd m)))"

lemma leading_tick: "\<not> leading s \<Longrightarrow> \<not> leading (tick s)"
proof -
  assume "\<not> leading s"
  define s1 where "s1 = s\<lparr>env := tick_env s\<rparr>"
  define s2 where "s2 = (if time_of s \<ge> election_deadline s1 then start_election s1 else s1)"
  have s1: "\<not> leading s1" using \<open>\<not> leading s\<close> by (simp add: s1_def leading_def)
  then have s2: "\<not> leading s2" by (simp add: s2_def start_election_frame(2))
  then have "\<not> leading ((send_leaf_keepalives s2)\<lparr>last_leaf_keepalive := t\<rparr>)" for t
    by (simp add: send_leaf_keepalives_def send_all_nf leading_def)
  moreover have "tick s = (if state s1 = Observer then s1
      else if keepalive_due (time_of s) s2
      then (send_leaf_keepalives s2)\<lparr>last_leaf_keepalive := time_of s\<rparr> else s2)"
    using s1 by (simp add: tick_def now_s_nf Let_def s1_def [symmetric] s2_def)
  ultimately show ?thesis using s1 s2 by simp
qed

text \<open>Only a vote makes a leader.\<close>

lemma leading_client:
  assumes "receive f m s = Inr s'" and "client_message m" and "\<not> leading s"
  shows "\<not> leading s'"
proof -
  have c: "\<not> leading (count_received m s)"
    using assms(3) by (simp add: count_received_def leading_def)
  note demo = check_battery_frame(3) [of "with_battery g (count_received m s)" for g]
  show ?thesis
  proof (cases m)
    case SensorData
    then show ?thesis
      using assms(1) c quiet_leading [OF quiet_sensor_data [OF SensorData]]
      by (auto simp: receive_def handle_def)
  next
    case LeafRegister
    then show ?thesis
      using assms(1) c quiet_leading [OF quiet_leaf_register]
      by (auto simp: receive_def handle_def)
  next
    case PartitionControl
    then show ?thesis
      using assms(1) c
      by (auto simp: receive_def handle_def handle_partition_control_def Let_def leading_def
          enter_provisional_mode_def exit_provisional_mode_def split: if_splits)
  next
    case DemoControl
    then show ?thesis
      using assms(1) c demo
      by (auto simp: receive_def handle_def handle_demo_control_def publish_frame
          with_battery_frame split: if_splits)
  qed (use assms c in \<open>auto simp: receive_def handle_def\<close>)
qed

lemma waiting_act:
  assumes "act a s = Inr s'" and "waiting s"
  shows "waiting s'"
proof -
  have box: "boxed s" using assms(2) client_sane by (auto simp: waiting_def boxed_def)
  have app: "\<not> takes_append a s"
  proof
    assume "takes_append a s"
    then obtain f m q where "inbox s = Some ((f, m) # q)" "is_append m"
      by (auto simp: takes_append_def next_message_def split: option.splits list.splits if_splits)
    then show False using assms(2) by (cases m) (auto simp: waiting_def is_append_def)
  qed
  have lead: "\<not> leading s" using assms(2) by (simp add: waiting_def)
  have "\<not> leading s' \<and> (inbox s' = inbox s \<or> inbox s' = Some [] \<or>
     (\<exists>m q. inbox s = Some (m # q) \<and> inbox s' = Some q))"
  proof (cases a)
    case Start
    then show ?thesis
      using assms(1) lead
      by (auto simp: act_def run_start_def battery_level_nf leading_def split: if_splits)
  next
    case HandleNext
    show ?thesis
    proof (cases "running s \<and> (\<exists>f m q. inbox s = Some ((f, m) # q))")
      case True
      then obtain f m q where q: "inbox s = Some ((f, m) # q)" and run: "running s" by blast
      have r: "receive f m (s\<lparr>inbox := Some q\<rparr>) = Inr s'"
        using assms(1) HandleNext q run by (simp add: act_def)
      have m: "client_message m" using assms(2) q by (simp add: waiting_def)
      then have "\<not> is_append m" by (cases m) (simp_all add: is_append_def)
      then have "inbox s' = Some q"
        using same_inbox.R_receive [OF r] m
        by (cases m) (simp_all add: same_inbox_def acceptable_def)
      moreover have "\<not> leading s'"
        using leading_client [OF r m] lead by (simp add: leading_def)
      ultimately show ?thesis using q by simp
    next
      case False
      then have "s' = s"
        using HandleNext assms(1)
        by (auto simp: act_def split: option.splits list.splits if_splits)
      then show ?thesis using lead by simp
    qed
  next
    case CheckBattery
    then have "s' = check_battery s \<or> s' = s" using assms(1) by (auto simp: act_def split: if_splits)
    moreover have "inbox (check_battery s) = inbox s" using soft_check_battery by (simp add: soft_def)
    ultimately show ?thesis using lead check_battery_frame(3) by auto
  next
    case Tick
    then have "s' = tick s \<or> s' = s" using assms(1) by (auto simp: act_def split: if_splits)
    moreover have "inbox (tick s) = inbox s" using same_inbox.R_tick by (simp add: same_inbox_def)
    ultimately show ?thesis using lead leading_tick by auto
  next
    case Publish
    then have "s' = publish_status s \<or> s' = s" using assms(1) by (auto simp: act_def split: if_splits)
    moreover have "inbox (publish_status s) = inbox s" using soft_publish by (simp add: soft_def)
    ultimately show ?thesis using lead publish_frame(3) by auto
  next
    case Stop
    then show ?thesis using assms(1) lead by (auto simp: act_def stop_def leading_def)
  qed
  moreover from this have "log s' = log s" "commit_index s' \<le> length (log s')"
    using writes_act [OF assms(1) box app] lead assms(2)
    by (auto simp: writes_def lawful_def extends_def waiting_def)
  ultimately show ?thesis using assms(2) by (fastforce simp: waiting_def)
qed

lemma lone_waiting: "lone s \<Longrightarrow> waiting s"
proof (induction rule: lone.induct)
  case (lone_built proto i b demo w s)
  then show ?case
    using init_coordinator_fields [OF lone_built] by (simp add: waiting_def leading_def)
next
  case (lone_act s a s')
  then show ?case using waiting_act by blast
next
  case (lone_deliver s m f)
  then show ?case
    by (auto simp: waiting_def dispatch_def leading_def split: option.split)
qed


section \<open>Properties\<close>

text \<open>C12. A coordinator without peers never serves: whatever its leaves, the dashboard or the
  partition tool send it and however long it runs, it does not lead, its log stays empty and
  it commits nothing, because a majority is only counted when a vote arrives.\<close>

theorem lone_coordinator_never_serves:
  assumes "lone s"
  shows "\<not> leading s \<and> log s = [] \<and> commit_index s = 0"
  using lone_waiting [OF assms] by (simp add: waiting_def)

theorem lone_coordinator_never_serves_witness:
  "\<exists>s s' s''. init_coordinator ''echod'' ''a'' [] charged True second_hand = Inr s \<and>
     act Start s = Inr s' \<and> act Tick s' = Inr s'' \<and> state s'' = Candidate \<and> \<not> leading s'' \<and>
     log s'' = [] \<and> commit_index s'' = 0"
proof -
  let ?alone = "init_coordinator ''echod'' ''a'' [] charged True second_hand"
  have run: "\<not> isl ?alone \<and> \<not> isl (act Start (projr ?alone)) \<and>
      \<not> isl (act Tick (projr (act Start (projr ?alone)))) \<and>
      state (projr (act Tick (projr (act Start (projr ?alone))))) = Candidate"
    by code_simp
  then obtain s where s: "?alone = Inr s" by (cases ?alone) auto
  then obtain s' where s': "act Start s = Inr s'" using run by (cases "act Start s") auto
  then obtain s'' where s'': "act Tick s' = Inr s''" "state s'' = Candidate"
    using run s by (cases "act Tick s'") auto
  have "lone s''" using lone_act [OF lone_act [OF lone_built [OF s] s'] s''(1)] .
  then show ?thesis using lone_coordinator_never_serves s s' s'' by blast
qed

end
