(* ===== verification/LeaderCommit.thy ===== *)
theory LeaderCommit
  imports Frames ElectionSpec
begin

text \<open>
  The leader's commit rule: which index an acknowledgement commits, and that it rests on a
  majority of match indices and on an entry of the leader's own term.
\<close>

section \<open>The scan from the top\<close>

lemma latency_bookkeeping [frame]:
  "log (record_latencies n t s) = log s"
  "commit_index (record_latencies n t s) = commit_index s"
  "state (record_latencies n t s) = state s"
  "current_term (record_latencies n t s) = current_term s"
  "match_index (record_latencies n t s) = match_index s"
  "next_index (record_latencies n t s) = next_index s"
  "outbox (record_latencies n t s) = outbox s"
  "peer_batteries (record_latencies n t s) = peer_batteries s"
proof -
  let ?f = "\<lambda>idx s. if idx \<le> int n
      then s\<lparr>latencies := latencies s @ [t - dget_or (pending_latency s) idx 0],
             pending_latency := AList.delete idx (pending_latency s)\<rparr>
      else s"
  have "log (fold ?f xs s) = log s \<and> commit_index (fold ?f xs s) = commit_index s \<and>
    state (fold ?f xs s) = state s \<and> current_term (fold ?f xs s) = current_term s \<and>
    match_index (fold ?f xs s) = match_index s \<and> next_index (fold ?f xs s) = next_index s \<and>
    outbox (fold ?f xs s) = outbox s \<and> peer_batteries (fold ?f xs s) = peer_batteries s" for xs
    by (induction xs arbitrary: s) simp_all
  then show "log (record_latencies n t s) = log s"
    "commit_index (record_latencies n t s) = commit_index s"
    "state (record_latencies n t s) = state s"
    "current_term (record_latencies n t s) = current_term s"
    "match_index (record_latencies n t s) = match_index s"
    "next_index (record_latencies n t s) = next_index s"
    "outbox (record_latencies n t s) = outbox s"
    "peer_batteries (record_latencies n t s) = peer_batteries s"
    unfolding record_latencies_def by blast+
qed

lemma committable_cong:
  "log s' = log s \<Longrightarrow> current_term s' = current_term s \<Longrightarrow> peers s' = peers s \<Longrightarrow>
   match_index s' = match_index s \<Longrightarrow> committable s' n = committable s n"
  by (simp add: committable_def replication_count_def)

text \<open>The scan stops at the first committable index of the list.\<close>

lemma scan_commit_log: "log (scan_commit s ns) = log s"
  by (induction ns) (simp_all add: now_s_nf frame)

lemma scan_commit_find:
  "commit_index (scan_commit s ns) =
     (case List.find (committable s) ns of None \<Rightarrow> commit_index s | Some n \<Rightarrow> n)"
  by (induction ns) (simp_all add: now_s_nf frame)

definition committables :: "coordinator \<Rightarrow> nat set" where
  "committables s = {n. commit_index s < n \<and> n \<le> length (log s) \<and> committable s n}"

lemma finite_committables: "finite (committables s)"
  by (rule finite_subset [of _ "{..length (log s)}"]) (auto simp: committables_def)

lemma find_rev_max:
  assumes "sorted xs"
  shows "List.find P (rev xs) =
    (if Collect P \<inter> set xs = {} then None else Some (Max (Collect P \<inter> set xs)))"
  using assms
proof (induction xs rule: rev_induct)
  case Nil
  then show ?case by simp
next
  case (snoc x xs)
  have le: "\<forall>y \<in> set xs. y \<le> x" and "sorted xs"
    using snoc.prems by (simp_all add: sorted_append)
  show ?case
  proof (cases "P x")
    case True
    then have "Max (Collect P \<inter> set (xs @ [x])) = x"
      using le by (intro Max_eqI) auto
    with True show ?thesis by auto
  next
    case False
    then have "Collect P \<inter> set (xs @ [x]) = Collect P \<inter> set xs" by auto
    with False snoc.IH [OF \<open>sorted xs\<close>] show ?thesis by simp
  qed
qed

lemma try_advance_commit_max:
  "commit_index (try_advance_commit s) =
     (if committables s = {} then commit_index s else Max (committables s))"
proof -
  have "sorted [Suc (commit_index s)..<Suc (length (log s))]"
    by (rule sorted_upt)
  moreover have "Collect (committable s) \<inter> set [Suc (commit_index s)..<Suc (length (log s))] =
      committables s"
    by (auto simp: committables_def)
  ultimately show ?thesis
    by (simp add: try_advance_commit_def commit_range_def scan_commit_find find_rev_max
        del: upt_Suc)
qed


section \<open>Majorities behind a commit\<close>

text \<open>The nodes a leader counts for an index: itself and the peers that acknowledged it.\<close>

definition ackers :: "coordinator \<Rightarrow> nat \<Rightarrow> string set" where
  "ackers s n = insert (node_id s) {p \<in> set (peers s). dget_or (match_index s) p 0 \<ge> int n}"

lemma committable_majority:
  assumes "committable s n" and "distinct (peers s)" and "node_id s \<notin> set (peers s)"
  shows "majority_of (insert (node_id s) (set (peers s))) (ackers s n)"
proof -
  let ?A = "{p \<in> set (peers s). dget_or (match_index s) p 0 \<ge> int n}"
  have "distinct (filter (\<lambda>p. dget_or (match_index s) p 0 \<ge> int n) (peers s))"
    using assms(2) by simp
  then have "length (filter (\<lambda>p. dget_or (match_index s) p 0 \<ge> int n) (peers s)) = card ?A"
    using distinct_card by fastforce
  then have "replication_count s n = card (ackers s n)"
    using assms(3) by (simp add: replication_count_def ackers_def)
  moreover have "card (insert (node_id s) (set (peers s))) = length (peers s) + 1"
    using assms(2,3) by (simp add: distinct_card)
  ultimately show ?thesis
    using assms(1) by (auto simp: majority_of_def committable_def ackers_def)
qed

lemma handle_append_response_ok:
  assumes "ar_term p = current_term s" and "state s = Leader" and "ar_success p"
  shows "handle_append_response sender p s =
    try_advance_commit (let s = (case ar_responder_battery p of
                   None \<Rightarrow> s
                 | Some b \<Rightarrow> s\<lparr>peer_batteries := dput sender b (peer_batteries s)\<rparr>)
      in s\<lparr>next_index := dput sender (ar_match_index p + 1) (next_index s),
           match_index := dput sender (ar_match_index p) (match_index s)\<rparr>)"
  using assms by (simp add: handle_append_response_def Let_def split: option.split)

text \<open>The bookkeeping of a success, before the commit rule looks at it.\<close>

definition acknowledged :: "string \<Rightarrow> payload \<Rightarrow> coordinator \<Rightarrow> coordinator" where
  "acknowledged sender p s =
     (let s = (case ar_responder_battery p of
                   None \<Rightarrow> s
                 | Some b \<Rightarrow> s\<lparr>peer_batteries := dput sender b (peer_batteries s)\<rparr>)
      in s\<lparr>next_index := dput sender (ar_match_index p + 1) (next_index s),
           match_index := dput sender (ar_match_index p) (match_index s)\<rparr>)"

lemma acknowledged_frame [frame]:
  "log (acknowledged r p s) = log s" "commit_index (acknowledged r p s) = commit_index s"
  "current_term (acknowledged r p s) = current_term s" "peers (acknowledged r p s) = peers s"
  "node_id (acknowledged r p s) = node_id s"
  "match_index (acknowledged r p s) = dput r (ar_match_index p) (match_index s)"
  by (simp_all add: acknowledged_def Let_def split: option.split)


section \<open>Properties\<close>

text \<open>C7. A successful acknowledgement of the current term moves the leader's commit index to the
  greatest index above it that an entry of the leader's own term has and that, counting the
  leader and the peers whose match index has reached it, a strict majority of the cluster
  holds; with no such index it stays.\<close>

theorem commit_rule:
  assumes "ar_term p = current_term s" and "state s = Leader" and "ar_success p"
    and "distinct (peers s)" and "node_id s \<notin> set (peers s)"
    and "s1 = acknowledged sender p s" and "s' = handle_append_response sender p s"
  shows "log s' = log s \<and>
    commit_index s' = (if committables s1 = {} then commit_index s else Max (committables s1)) \<and>
    (\<forall>n \<in> committables s1. le_term (log s ! (n - 1)) = current_term s \<and>
       majority_of (insert (node_id s) (set (peers s))) (ackers s1 n))"
proof -
  have s': "s' = try_advance_commit s1"
    using handle_append_response_ok [OF assms(1-3)] assms(6,7)
    by (simp add: acknowledged_def)
  have "majority_of (insert (node_id s) (set (peers s))) (ackers s1 n)"
    if "committable s1 n" for n
    using committable_majority [OF that] assms(4-6) by (simp add: frame)
  moreover have "log s' = log s"
    by (simp add: s' try_advance_commit_def scan_commit_log assms(6) frame)
  moreover have "commit_index s1 = commit_index s" using assms(6) by (simp add: frame)
  ultimately show ?thesis
    unfolding s' try_advance_commit_max
    by (auto simp: committables_def committable_def assms(6) frame)
qed

definition leader_with :: "log_entry list \<Rightarrow> coordinator" where
  "leader_with l = (blank Raft ''a'' [''b'', ''c''] \<lparr>mock = True, level = 100, drain_rate = 0,
     drain_paused = False, last_read = 0, adc_present = False\<rparr> True second_hand)
     \<lparr>log := l, current_term := 2, state := Leader\<rparr>"

definition old_entry :: "int \<Rightarrow> int \<Rightarrow> log_entry" where
  "old_entry i t = \<lparr>le_index = i, le_term = t, le_command = JNull, le_trigger_type = ''delta'',
     le_partition_epoch = 0, le_timestamp = 0\<rparr>"

theorem commit_rule_witness:
  "commit_index (handle_append_response ''b'' (AppendResponse 2 True ''b'' 2 None)
     (leader_with [old_entry 1 1, old_entry 2 2])) = 2"
proof -
  let ?p = "AppendResponse 2 True ''b'' 2 None" and ?s = "leader_with [old_entry 1 1, old_entry 2 2]"
  let ?s1 = "acknowledged ''b'' ?p ?s"
  have "committable ?s1 2" by code_simp
  then have "2 \<in> committables ?s1"
    by (simp add: committables_def frame) (simp add: leader_with_def blank_def)
  moreover have "committables ?s1 \<subseteq> {1..2}"
    by (auto simp: committables_def frame leader_with_def blank_def)
  ultimately have "committables ?s1 \<noteq> {}" "Max (committables ?s1) = 2"
    by (auto intro!: Max_eqI finite_committables)
  moreover have "ar_term ?p = current_term ?s" "state ?s = Leader" "ar_success ?p"
    "distinct (peers ?s)" "node_id ?s \<notin> set (peers ?s)"
    by (simp_all add: leader_with_def blank_def)
  ultimately show ?thesis using commit_rule [of ?p ?s ?s1 "''b''"] by simp
qed

text \<open>Two indices that leaders of one cluster commit were each acknowledged by majorities with
  a node in common.\<close>

theorem commits_share_a_node:
  assumes "committable s n" and "committable s' m"
    and "distinct (peers s)" and "node_id s \<notin> set (peers s)"
    and "distinct (peers s')" and "node_id s' \<notin> set (peers s')"
    and "insert (node_id s) (set (peers s)) = insert (node_id s') (set (peers s'))"
  shows "ackers s n \<inter> ackers s' m \<noteq> {}"
  using maj.quorum_meet committable_majority assms by metis

theorem commits_share_a_node_witness:
  "ackers ((leader_with [old_entry 1 2])\<lparr>match_index := [(''b'', 1)]\<rparr>) 1 \<inter>
   ackers ((leader_with [old_entry 1 2])\<lparr>match_index := [(''c'', 1)]\<rparr>) 1 \<noteq> {}"
proof (rule commits_share_a_node)
  show "committable ((leader_with [old_entry 1 2])\<lparr>match_index := [(''b'', 1)]\<rparr>) 1"
    "committable ((leader_with [old_entry 1 2])\<lparr>match_index := [(''c'', 1)]\<rparr>) 1"
    by code_simp+
qed (simp_all add: leader_with_def blank_def)

end
