(* ===== verification/Timing.thy ===== *)
theory Timing
  imports Frames
begin

text \<open>
  Election deadlines and liveness intervals: the ranges they fall in, what battery order
  the echoD timeouts respect and where they do not, and the adaptive ping back-off.
\<close>

section \<open>Ranges\<close>

lemma tie_break_range: "0 \<le> tie_break nid" "tie_break nid \<le> 149 / 1000"
proof -
  have "py_int (ELECTION_TIE_BREAK_S * 1000) = 150"
    by (simp add: py_int_def ELECTION_TIE_BREAK_S_def)
  moreover have "0 \<le> crc32 nid mod 150" "crc32 nid mod 150 \<le> 149"
    using pos_mod_bound [of 150 "crc32 nid"] by simp_all
  then have "0 \<le> (of_int (crc32 nid mod 150) :: rat)"
    "(of_int (crc32 nid mod 150) :: rat) \<le> of_int 149"
    by (simp_all only: of_int_0_le_iff of_int_le_iff)
  ultimately show "0 \<le> tie_break nid" "tie_break nid \<le> 149 / 1000"
    by (simp_all add: tie_break_def)
qed

lemma echod_timeout_eq: "echod_timeout lvl tie = 24 / 10 + (1 - of_int lvl / 100) * (24 / 10) + tie"
  by (simp add: echod_timeout_def timing_defs)

lemma echod_timeout_range:
  assumes "0 \<le> lvl" and "lvl \<le> 100" and "0 \<le> tie" and "tie \<le> 149 / 1000"
  shows "24 / 10 \<le> echod_timeout lvl tie" and "echod_timeout lvl tie < 495 / 100"
proof -
  have l: "0 \<le> (of_int lvl :: rat)" "(of_int lvl :: rat) \<le> 100"
    using assms(1,2) by simp_all
  then show "24 / 10 \<le> echod_timeout lvl tie" and "echod_timeout lvl tie < 495 / 100"
    using assms(3,4) by (simp_all add: echod_timeout_eq field_simps)
qed

lemma deadline_not_echod:
  "protocol s \<noteq> Echod \<Longrightarrow> fst (new_election_deadline s) = mono_tape (env s) (mono_pos (env s)) +
     fst (uniform ELECTION_TIMEOUT_MIN ELECTION_TIMEOUT_MAX (env s))"
  by (simp add: new_election_deadline_def now_s_def monotonic_def uniform_def py_random_def Let_def)

lemma deadline_echod:
  "protocol s = Echod \<Longrightarrow> fst (new_election_deadline s) =
     mono_tape (env_of s) (mono_pos (env_of s)) + echod_timeout (lvl_of s) (tie_break_s s)"
  by (simp add: new_election_deadline_def battery_level_nf now_s_def monotonic_def Let_def)


section \<open>Properties\<close>

text \<open>A Raft or echo election deadline lies between 1.2 and 2.4 seconds after the clock value it
  is computed from.\<close>

theorem random_deadline_in_window:
  assumes "protocol s \<noteq> Echod" and "unit_random (env s)"
    and "now = mono_tape (env s) (mono_pos (env s))"
  shows "election_deadline (reset_election_timer s) \<in> {now + 12 / 10 .. now + 24 / 10}"
  using uniform_range [OF assms(2), of ELECTION_TIMEOUT_MIN ELECTION_TIMEOUT_MAX]
    deadline_not_echod [OF assms(1)] assms(3)
  by (simp add: reset_election_timer_nf deadline_of_def timing_defs)

definition plain_node :: "protocol \<Rightarrow> rat \<Rightarrow> coordinator" where
  "plain_node pr l = blank pr ''a'' [''b''] \<lparr>mock = True, level = l, drain_rate = 0,
     drain_paused = False, last_read = 0, adc_present = False\<rparr> True second_hand"

theorem random_deadline_in_window_witness:
  "election_deadline (reset_election_timer (plain_node Raft 100)) \<in> {0 + 12 / 10 .. 0 + 24 / 10}"
  by (rule random_deadline_in_window)
    (simp_all add: plain_node_def blank_def unit_random_def second_hand_def)

text \<open>An echoD deadline depends on the battery: with a reading in range and the node's own tie
  break it lies between 2.4 and 4.95 seconds after the clock value read after the battery.\<close>

theorem echod_deadline_in_window:
  assumes "protocol s = Echod" and "tie_break_s s = tie_break (node_id s)"
    and "lvl_of s \<in> {0..100}" and "now = mono_tape (env_of s) (mono_pos (env_of s))"
  shows "election_deadline (reset_election_timer s) \<in> {now + 24 / 10 ..< now + 495 / 100}"
  using echod_timeout_range [of "lvl_of s" "tie_break_s s"] tie_break_range [of "node_id s"]
    deadline_echod [OF assms(1)] assms(2-4)
  by (simp add: reset_election_timer_nf deadline_of_def)

theorem echod_deadline_in_window_witness:
  "election_deadline (reset_election_timer (plain_node Echod 80)) \<in> {1 + 24 / 10 ..< 1 + 495 / 100}"
proof (rule echod_deadline_in_window)
  show "lvl_of (plain_node Echod 80) \<in> {0..100}"
    "1 = mono_tape (env_of (plain_node Echod 80)) (mono_pos (env_of (plain_node Echod 80)))"
    by code_simp+
qed (simp_all add: plain_node_def blank_def)

text \<open>Of two echoD nodes with the timers reset at the same clock value, the one with at least 7
  percentage points more battery times out first, whatever their names: 24 ms per point
  outweigh the tie breaks from 7 points on.\<close>

theorem fuller_battery_times_out_first:
  assumes "lvl' + 7 \<le> lvl"
  shows "echod_timeout lvl (tie_break n) < echod_timeout lvl' (tie_break n')"
proof -
  have "(of_int lvl' :: rat) + 7 \<le> of_int lvl"
    using assms by (metis of_int_add of_int_le_iff of_int_numeral)
  then show ?thesis
    using tie_break_range [of n] tie_break_range [of n'] by (simp add: echod_timeout_eq field_simps)
qed

theorem fuller_battery_times_out_first_witness:
  "echod_timeout 57 (tie_break ''b'') < echod_timeout 50 (tie_break ''a'')"
  by (rule fuller_battery_times_out_first) simp

text \<open>Closer batteries do not decide: a node with one point more battery can time out after
  the other, because the tie breaks of the names differ by more than 24 ms.\<close>

theorem tie_break_overrules_battery:
  "echod_timeout 49 (tie_break ''a'') < echod_timeout 50 (tie_break ''b'')"
proof -
  have "crc32 ''b'' mod 150 = 131" "crc32 ''a'' mod 150 = 57"
    by code_simp+
  then have "tie_break ''b'' = 131 / 1000" "tie_break ''a'' = 57 / 1000"
    by (simp_all add: tie_break_def py_int_def ELECTION_TIE_BREAK_S_def)
  then show ?thesis by (simp add: echod_timeout_eq)
qed

text \<open>The adaptive ping interval of echoD stays between the base interval of 0.25 s and the
  cap of 1 s; consensus activity since the last ping brings it back to the base, and without
  activity every ping doubles it up to the cap.\<close>

theorem ping_interval_bounds:
  assumes "protocol s = Echod" and "1 / 4 \<le> ping_interval_s s" and "ping_interval_s s \<le> 1"
    and "s' = send_liveness_ping s"
  shows "1 / 4 \<le> ping_interval_s s' \<and> ping_interval_s s' \<le> 1 \<and>
    ping_interval_s s' = (if last_ping_time s \<le> last_consensus_activity s then 1 / 4
       else min (ping_interval_s s * 2) 1) \<and>
    outbox s' = outbox s @ map (\<lambda>r. (r, LivenessPing (current_term s) (Some (node_id s)))) (peers s)"
proof -
  have "ping_interval_s s' = (if last_ping_time s \<le> last_consensus_activity s then 1 / 4
       else min (ping_interval_s s * 2) 1)"
    using assms(1,4)
    by (simp add: send_liveness_ping_def send_all_nf next_ping_interval_def timing_defs Let_def)
  moreover have "outbox s' =
      outbox s @ map (\<lambda>r. (r, LivenessPing (current_term s) (Some (node_id s)))) (peers s)"
    using assms(1,4) by (simp add: send_liveness_ping_def send_all_nf ping_def Let_def)
  ultimately show ?thesis using assms(2,3) by (auto simp: min_def)
qed

theorem ping_interval_bounds_witness:
  "ping_interval_s (send_liveness_ping ((plain_node Echod 80)\<lparr>last_ping_time := 1\<rparr>)) = 1 / 2"
  using ping_interval_bounds [of "(plain_node Echod 80)\<lparr>last_ping_time := 1\<rparr>", OF _ _ _ refl]
  by (simp add: plain_node_def blank_def timing_defs)

end
