(* ===== verification/Freshness.thy ===== *)
theory Freshness
  imports Prelude
begin

text \<open>
  The rule by which a voter compares a candidate's log with its own, as an interface: the
  node of \<open>rpi/\<close> and the log of the simulation both provide it.
\<close>

text \<open>
  A log shows its last term and last index; a candidate's claim of both is fresh enough when
  it is not below them, terms first.
\<close>

locale log_freshness =
  fixes last_of :: "'l \<Rightarrow> int \<times> int"
    and fresh :: "'l \<Rightarrow> int \<Rightarrow> int \<Rightarrow> bool"
  assumes fresh_iff: "fresh l i t \<longleftrightarrow> last_of l \<le> (t, i)"
begin

lemma fresh_self: "last_of l = (t, i) \<Longrightarrow> fresh l i t"
  by (simp add: fresh_iff)

lemma fresh_trans:
  assumes "fresh l (snd (last_of l')) (fst (last_of l'))" and "fresh l' i t"
  shows "fresh l i t"
  using assms by (simp add: fresh_iff)

lemma fresh_total:
  "fresh l (snd (last_of l')) (fst (last_of l')) \<or> fresh l' (snd (last_of l)) (fst (last_of l))"
  by (auto simp: fresh_iff)

end

end
