(* ===== verification/Voting.thy ===== *)
theory Voting
  imports Simulation Freshness
begin

text \<open>
  Single handlers of the election against their rules: who gets a vote, when a candidate is
  promoted, how the energy gate switches, and whom a hand-off names.
\<close>

section \<open>Comparing logs\<close>

definition last_entry_of :: "coordinator \<Rightarrow> int \<times> int" where
  "last_entry_of s = (last_log_term s, last_log_index s)"

interpretation node_log: log_freshness last_entry_of log_is_up_to_date
  by unfold_locales (auto simp: last_entry_of_def log_is_up_to_date_def)


section \<open>Votes\<close>

lemma step_down_fields:
  "current_term (step_down t s) = t" "voted_for (step_down t s) = None"
  "protocol (step_down t s) = protocol s" "node_id (step_down t s) = node_id s"
  "log (step_down t s) = log s" "outbox (step_down t s) = outbox s"
  "state (step_down t s) = Observer \<longleftrightarrow> state s = Observer"
  by (auto simp: step_down_def reset_election_timer_nf Let_def)

definition deserves_vote :: "coordinator \<Rightarrow> payload \<Rightarrow> bool" where
  "deserves_vote s p \<longleftrightarrow> current_term s \<le> rv_term p \<and> state s \<noteq> Observer \<and>
     (protocol s = Raft \<or> T_LOW \<le> rv_battery_level p) \<and>
     (current_term s < rv_term p \<or> voted_for s = None \<or> voted_for s = Some (rv_candidate_id p)) \<and>
     last_entry_of s \<le> (rv_last_log_term p, rv_last_log_index p)"

lemma vote_request_result:
  assumes "s' = handle_request_vote sender p s"
  shows "current_term s' = max (rv_term p) (current_term s) \<and>
    voted_for s' = (if deserves_vote s p then Some (rv_candidate_id p)
      else if current_term s < rv_term p then None else voted_for s) \<and>
    outbox s' = outbox s @ [(sender, VoteResponse (current_term s') (deserves_vote s p)
      (node_id s) (vr_voter_battery (snd (last (outbox s')))))] \<and>
    log s' = log s"
proof -
  define s1 where "s1 = (if rv_term p > current_term s then step_down (rv_term p) s else s)"
  have s1: "current_term s1 = max (rv_term p) (current_term s)" "node_id s1 = node_id s"
    "log s1 = log s" "outbox s1 = outbox s"
    "voted_for s1 = (if current_term s < rv_term p then None else voted_for s)"
    by (simp_all add: s1_def step_down_fields max_def)
  have grant: "grants_vote p s1 = deserves_vote s p"
    using node_log.fresh_iff [of s1]
    by (auto simp: s1_def grants_vote_def deserves_vote_def step_down_fields last_entry_of_def
        last_log_index_def last_log_term_def)
  have "s' = (let s2 = (if deserves_vote s p
      then reset_election_timer (s1\<lparr>voted_for := Some (rv_candidate_id p)\<rparr>) else s1)
    in send sender (VoteResponse (current_term s2) (deserves_vote s p) (node_id s2) (lvl_of s2))
         (s2\<lparr>battery := bat_of s2, env := env_of s2\<rparr>))"
    unfolding assms
    by (simp only: handle_request_vote_def Let_def s1_def [symmetric] grant battery_level_nf
        prod.case) simp
  then show ?thesis by (simp add: Let_def send_def reset_election_timer_nf s1)
qed

text \<open>C17. A vote request is granted exactly when its term is not old, the node is no observer, the
  candidate's battery is not low (Raft does not ask), the vote of the term is free or already
  the candidate's, and the candidate's log is at least as fresh as the node's. The answer goes
  to the sender with the updated term, and a grant records the vote.\<close>

theorem vote_request_decision:
  assumes "s' = handle_request_vote sender p s"
  shows "current_term s' = max (rv_term p) (current_term s) \<and>
    voted_for s' = (if deserves_vote s p then Some (rv_candidate_id p)
      else if current_term s < rv_term p then None else voted_for s) \<and>
    outbox s' = outbox s @ [(sender, VoteResponse (current_term s') (deserves_vote s p)
      (node_id s) (vr_voter_battery (snd (last (outbox s')))))] \<and>
    log s' = log s"
  using assms by (rule vote_request_result)

definition voter :: "string option \<Rightarrow> coordinator" where
  "voter v = (blank Echo ''b'' [''a'', ''c''] \<lparr>mock = True, level = 60, drain_rate = 0,
     drain_paused = False, last_read = 0, adc_present = False\<rparr> True second_hand)
     \<lparr>current_term := 1, voted_for := v\<rparr>"

theorem vote_request_decision_witness:
  "voted_for (handle_request_vote ''a'' (RequestVote 1 ''a'' 0 0 50) (voter (Some ''c''))) =
     Some ''c'' \<and>
   voted_for (handle_request_vote ''a'' (RequestVote 2 ''a'' 0 0 50) (voter (Some ''c''))) =
     Some ''a''"
  using vote_request_decision [of _ "''a''" "RequestVote 1 ''a'' 0 0 50" "voter (Some ''c'')", OF refl]
    vote_request_decision [of _ "''a''" "RequestVote 2 ''a'' 0 0 50" "voter (Some ''c'')", OF refl]
  by (simp add: deserves_vote_def voter_def blank_def last_entry_of_def last_log_term_def
      last_log_index_def T_LOW_def)


section \<open>Promotion\<close>

text \<open>A candidate that receives a granted vote of its term counts the sender once and becomes
  leader exactly when the voters it has counted are more than half of the cluster; otherwise
  it stays candidate.\<close>

theorem promotion_needs_majority:
  assumes "state s = Candidate" and "vr_term p = current_term s" and "vr_vote_granted p"
    and "wf_dict (votes s)" and "s' = handle_vote_response sender p s"
  shows "state s' = (if card (insert sender (set (keys (votes s)))) > (length (peers s) + 1) div 2
      then Leader else Candidate) \<and> current_term s' = current_term s"
proof -
  define s1 where "s1 = s\<lparr>votes := dput sender (vr_voter_battery p) (votes s)\<rparr>"
  have "length (votes s1) = card (insert sender (set (keys (votes s))))"
    using length_wf_dict [of "votes s1"] assms(4) by (simp add: s1_def)
  moreover have "state (become_leader s1) = Leader" "current_term (become_leader s1) = current_term s"
    using quiet_become_leader [of s1] by (simp_all add: quiet_def s1_def)
  ultimately show ?thesis
    using assms(1-3) unfolding assms(5)
    by (simp add: handle_vote_response_def majority_def s1_def [symmetric])
      (simp add: s1_def)
qed

definition hopeful :: coordinator where
  "hopeful = (voter (Some ''b''))\<lparr>state := Candidate, votes := [(''b'', 60)]\<rparr>"

theorem promotion_needs_majority_witness:
  "state (handle_vote_response ''c'' (VoteResponse 1 True ''c'' 70) hopeful) = Leader \<and>
   state (handle_vote_response ''b'' (VoteResponse 1 True ''b'' 60) hopeful) = Candidate"
  using promotion_needs_majority [of hopeful "VoteResponse 1 True ''c'' 70" _ "''c''", OF _ _ _ _ refl]
    promotion_needs_majority [of hopeful "VoteResponse 1 True ''b'' 60" _ "''b''", OF _ _ _ _ refl]
  by (simp add: hopeful_def voter_def blank_def keys_def)


section \<open>Observers\<close>

lemma observer_step_down: "state s = Observer \<Longrightarrow> state (if c then step_down t s else s) = Observer"
  by (simp add: step_down_fields)

lemma observer_append_entries:
  assumes "state s = Observer" and "handle_append_entries sender p s = Inr s'"
  shows "state s' = Observer"
proof -
  define s1 where "s1 = (if ae_term p > current_term s then step_down (ae_term p) s else s)"
  have s1: "state s1 = Observer" using assms(1) by (simp add: s1_def step_down_fields)
  define s2 where "s2 = (reset_election_timer s1)
      \<lparr>current_leader_id := Some (py_get (ae_leader_id p) sender)\<rparr>"
  have s2: "state s2 = Observer" using s1 by (simp add: s2_def reset_election_timer_nf)
  have resp: "state (append_response ok m r x) = state x" for ok m r x
    by (simp add: append_response_def battery_level_nf send_def)
  have adv: "state (advance_follower_commit c x) = state x" for c x
    by (simp add: advance_follower_commit_def)
  have loop: "state x = Observer" if "append_loop es s2 = Inr x" for es x
    using quiet_append_loop [OF that] s2 by (simp add: quiet_def)
  show ?thesis
    using assms(2) s1 s2
    by (auto simp: handle_append_entries_def s1_def [symmetric] s2_def [symmetric] Let_def
        reject_append_def resp adv bind_Inr_iff dest: loop split: if_splits)
qed

lemma observer_request_vote: "state s = Observer \<Longrightarrow> state (handle_request_vote f p s) = Observer"
  by (simp add: handle_request_vote_def Let_def battery_level_nf send_def step_down_fields
      reset_election_timer_nf)

lemma observer_append_response:
  "state s = Observer \<Longrightarrow> state (handle_append_response f p s) = Observer"
  by (simp add: handle_append_response_def Let_def step_down_fields split: option.split)

lemma observer_partition: "state s = Observer \<Longrightarrow> state (handle_partition_control f p s) = Observer"
  by (simp add: handle_partition_control_def Let_def enter_provisional_mode_def
      exit_provisional_mode_def)

lemma demo_state: "state (handle_demo_control f p s) \<in> {state s, Observer, Follower}"
proof -
  have "state (publish_status (check_battery (with_battery g s))) \<in> {state s, Observer, Follower}" for g
    using state_with_battery [of g s]
    by (simp add: state_publish check_battery_def battery_level_nf)
  then show ?thesis by (simp add: handle_demo_control_def)
qed

lemma observer_handle:
  assumes "state s = Observer" and "handle sender p s = Inr s'"
  shows "state s' = Observer \<or> state s' = Follower \<and> msg_type p = ''demo_control''"
proof (cases p)
  case AppendEntries
  then show ?thesis using assms observer_append_entries by (simp add: handle_def)
next
  case (SensorData a b c d)
  then have "quiet s s'" using assms(2) quiet_sensor_data [OF SensorData] by (auto simp: handle_def)
  then show ?thesis using assms(1) by (simp add: quiet_def)
next
  case LivenessPing
  then have "s' = handle_liveness_ping sender p s" using assms(2) by (simp add: handle_def)
  then show ?thesis
    using assms(1)
    by (simp add: handle_liveness_ping_def Let_def reset_election_timer_nf step_down_fields)
next
  case LeafRegister
  then have "quiet s s'" using assms(2) quiet_leaf_register by (auto simp: handle_def)
  then show ?thesis using assms(1) by (simp add: quiet_def)
next
  case ReconcileBatch
  then have "quiet s s'" using assms(2) quiet_reconcile_batch by (auto simp: handle_def)
  then show ?thesis using assms(1) by (simp add: quiet_def)
next
  case DemoControl
  then have "s' = handle_demo_control sender p s" using assms(2) by (simp add: handle_def)
  then show ?thesis using demo_state [of sender p s] assms(1) DemoControl by simp
next
  case RequestVote
  then show ?thesis
    using assms observer_request_vote [of s sender p] by (simp add: handle_def)
next
  case VoteResponse
  then show ?thesis
    using assms by (auto simp: handle_def handle_vote_response_def step_down_fields)
next
  case AppendResponse
  then show ?thesis
    using assms observer_append_response [of s sender p] by (simp add: handle_def)
next
  case PartitionControl
  then show ?thesis
    using assms observer_partition [of s sender p] by (simp add: handle_def)
next
  case LeadershipHandoff
  then show ?thesis
    using assms by (simp add: handle_def handle_leadership_handoff_def)
qed (use assms in \<open>simp_all add: handle_def\<close>)

text \<open>C21. An observer's tick reads the clock and does nothing else, and no message makes an
  observer a candidate or a leader: after any handler it is still an observer or, by a demo
  recharge only, a follower.\<close>

theorem observers_stay_out:
  assumes "state s = Observer" and "receive sender p s = Inr s'"
  shows "tick s = s\<lparr>env := tick_env s\<rparr> \<and>
    (state s' = Observer \<or> state s' = Follower \<and> msg_type p = ''demo_control'')"
proof -
  have "state (count_received p s) = Observer" using assms(1) by (simp add: count_received_def)
  then show ?thesis
    using observer_handle [of "count_received p s" sender p s'] assms
    by (simp add: receive_def tick_def now_s_nf)
qed

theorem observers_stay_out_witness:
  "state (handle_request_vote ''a'' (RequestVote 9 ''a'' 5 5 90)
     (count_received (RequestVote 9 ''a'' 5 5 90) (hopeful\<lparr>state := Observer\<rparr>))) = Observer"
  using observers_stay_out [of "hopeful\<lparr>state := Observer\<rparr>" "''a''" "RequestVote 9 ''a'' 5 5 90"]
  by (simp add: receive_def handle_def)


section \<open>Hand-off\<close>

lemma sort_key_hd:
  assumes "sort_key f xs = y # ys" and "x \<in> set xs"
  shows "f y \<le> f x"
proof -
  have "sorted (map f (y # ys))" by (metis assms(1) sorted_sort_key)
  moreover have "x \<in> set (y # ys)" by (metis assms set_sort)
  ultimately show ?thesis by auto
qed

text \<open>C22. A low leader hands over to the peer with the highest known battery, an unknown one counting
  as 100 and ties going to the least name, and only if that battery is above its own: then it
  sends the one hand-off message and is a follower. Otherwise it keeps leading, and in either
  case it will not try again.\<close>

theorem handoff_successor:
  assumes "leading s" and "s' = initiate_handoff s"
  shows "handoff_sent s' \<and>
    (state s' = state s \<and> outbox s' = outbox s \<and>
       (\<forall>p \<in> set (peers s). dget_or (peer_batteries s) p 100 \<le> of_int (lvl_of s)) \<or>
     (\<exists>p \<in> set (peers s). state s' = Follower \<and>
       outbox s' = outbox s @ [(p, LeadershipHandoff (current_term s) (Some (node_id s)))] \<and>
       of_int (lvl_of s) < dget_or (peer_batteries s) p 100 \<and>
       (\<forall>q \<in> set (peers s). dget_or (peer_batteries s) q 100 < dget_or (peer_batteries s) p 100 \<or>
          dget_or (peer_batteries s) q 100 = dget_or (peer_batteries s) p 100 \<and> p \<le> q)))"
proof -
  let ?b = "\<lambda>p. dget_or (peer_batteries s) p 100"
  let ?s1 = "s\<lparr>handoff_sent := True\<rparr>"
  have lvl: "lvl_of ?s1 = lvl_of s" by (simp add: lvl_of_def)
  define s2 where "s2 = ?s1\<lparr>battery := bat_of ?s1, env := env_of ?s1\<rparr>"
  have res: "s' = (case handoff_candidates s2 of
           [] \<Rightarrow> s2
         | (successor, b) # _ \<Rightarrow>
             if b \<le> of_int (lvl_of s) then s2
             else (let s = send successor
                         (LeadershipHandoff (current_term s2) (Some (node_id s2))) s2
                   in reset_election_timer (s\<lparr>state := Follower\<rparr>)))"
    unfolding assms(2) lvl [symmetric]
    by (simp only: initiate_handoff_def battery_level_nf s2_def Let_def prod.case)
  have cands: "handoff_candidates s2 =
      sort_key (\<lambda>(p, b). (- b, p)) (map (\<lambda>p. (p, ?b p)) (peers s))"
    by (simp add: handoff_candidates_def s2_def)
  show ?thesis
  proof (cases "handoff_candidates s2")
    case Nil
    then have "length (peers s) = 0" using arg_cong [OF cands, of length] by simp
    then have "peers s = []" by simp
    then show ?thesis using res Nil by (simp add: s2_def)
  next
    case (Cons c cs)
    obtain p b where c: "c = (p, b)" by (cases c)
    have "c \<in> set (map (\<lambda>p. (p, ?b p)) (peers s))"
      using arg_cong [OF cands, of set] Cons by auto
    then have p: "p \<in> set (peers s)" "b = ?b p" using c by auto
    have first: "(- ?b p, p) \<le> (- ?b q, q)" if "q \<in> set (peers s)" for q
      using sort_key_hd [OF Cons [unfolded cands], of "(q, ?b q)"] that c p by simp
    show ?thesis
    proof (cases "b \<le> of_int (lvl_of s)")
      case True
      have "?b q \<le> of_int (lvl_of s)" if "q \<in> set (peers s)" for q
        using first [OF that] True p by auto
      then show ?thesis using res Cons c True by (simp add: s2_def)
    next
      case False
      then have s': "s' = reset_election_timer ((send p
          (LeadershipHandoff (current_term s2) (Some (node_id s2))) s2)\<lparr>state := Follower\<rparr>)"
        using res Cons c by simp
      have "?b q < ?b p \<or> ?b q = ?b p \<and> p \<le> q" if "q \<in> set (peers s)" for q
        using first [OF that] by auto
      moreover have "state s' = Follower" "handoff_sent s'"
        "outbox s' = outbox s @ [(p, LeadershipHandoff (current_term s) (Some (node_id s)))]"
        by (simp_all add: s' reset_election_timer_nf send_def s2_def)
      moreover have "of_int (lvl_of s) < ?b p" using False p by simp
      ultimately show ?thesis using p(1) by blast
    qed
  qed
qed

theorem handoff_successor_witness:
  "handoff_sent (initiate_handoff (hopeful\<lparr>state := Leader\<rparr>))"
  using handoff_successor [of "hopeful\<lparr>state := Leader\<rparr>", OF _ refl] by (simp add: leading_def)

end
