(* ===== verification/Progress.thy ===== *)
theory Progress
  imports Voting
begin

text \<open>
  What an election needs to end with a leader: a candidate that hears from voters of its term
  becomes leader with the first answer at which more than half of the cluster have granted,
  and keeps the office whatever further answers arrive.
\<close>

section \<open>Counting a sequence of answers\<close>

text \<open>The answers of the term arrive one after the other, as sender and payload.\<close>

definition count_answers :: "(string \<times> payload) list \<Rightarrow> coordinator \<Rightarrow> coordinator" where
  "count_answers as s = fold (\<lambda>(i, p). handle_vote_response i p) as s"

definition granting :: "(string \<times> payload) list \<Rightarrow> string set" where
  "granting as = {i. \<exists>p. (i, p) \<in> set as \<and> vr_vote_granted p}"

lemma granting_simps [simp]:
  "granting [] = {}"
  "granting ((i, p) # as) = (if vr_vote_granted p then insert i (granting as) else granting as)"
  by (auto simp: granting_def)

lemma finite_granting [simp]: "finite (granting as)"
  by (induction as) auto

lemma count_answers_led:
  assumes "state s = Leader" and "\<forall>(i, p) \<in> set as. vr_term p = current_term s"
  shows "count_answers as s = s"
  using assms by (induction as) (auto simp: count_answers_def handle_vote_response_def)

lemma count_answers_state:
  assumes "state s = Candidate" and "wf_dict (votes s)"
    and "\<forall>(i, p) \<in> set as. vr_term p = current_term s"
  defines "quorum \<equiv> (\<lambda>A. card A > (length (peers s) + 1) div 2)"
  shows "state (count_answers as s) =
      (if as \<noteq> [] \<and> quorum (set (keys (votes s)) \<union> granting as) then Leader else Candidate) \<and>
    current_term (count_answers as s) = current_term s"
  using assms(1-3) unfolding quorum_def
proof (induction as arbitrary: s)
  case Nil
  then show ?case by (simp add: count_answers_def)
next
  case (Cons a as)
  obtain i p where a: "a = (i, p)" by (cases a)
  define s1 where "s1 = (if vr_vote_granted p
      then s\<lparr>votes := dput i (vr_voter_battery p) (votes s)\<rparr> else s)"
  have s1: "state s1 = Candidate" "current_term s1 = current_term s" "peers s1 = peers s" "wf_dict (votes s1)"
    "set (keys (votes s1)) = set (keys (votes s)) \<union> granting [(i, p)]"
    using Cons.prems by (simp_all add: s1_def)
  have step: "handle_vote_response i p s =
      (if card (set (keys (votes s1))) > (length (peers s) + 1) div 2 then become_leader s1 else s1)"
    using Cons.prems length_wf_dict [OF s1(4)]
    by (simp add: handle_vote_response_def a s1_def [symmetric] Let_def majority_def s1(3))
  have rest: "set (keys (votes s)) \<union> granting (a # as) = set (keys (votes s1)) \<union> granting as"
    using s1(5) by (auto simp: a)
  show ?case
  proof (cases "card (set (keys (votes s1))) > (length (peers s) + 1) div 2")
    case True
    have "state (become_leader s1) = Leader" "current_term (become_leader s1) = current_term s"
      using quiet_become_leader [of s1] s1(2) by (simp_all add: quiet_def)
    moreover from this have "count_answers as (become_leader s1) = become_leader s1"
      using Cons.prems by (intro count_answers_led) auto
    moreover have "card (set (keys (votes s1))) \<le> card (set (keys (votes s1)) \<union> granting as)"
      by (rule card_mono) auto
    ultimately show ?thesis
      using True step unfolding rest by (simp add: count_answers_def a)
  next
    case False
    have "count_answers (a # as) s = count_answers as s1"
      using False step by (simp add: count_answers_def a)
    moreover have "as = [] \<longrightarrow> set (keys (votes s1)) \<union> granting as = set (keys (votes s1))" by simp
    ultimately show ?thesis
      using Cons.IH [of s1] Cons.prems s1 False unfolding rest by auto
  qed
qed


section \<open>An election that is heard\<close>

lemma start_election_fields:
  assumes "state s \<noteq> Observer"
  shows "state (start_election s) = Candidate" "current_term (start_election s) = current_term s + 1"
    "peers (start_election s) = peers s" "node_id (start_election s) = node_id s"
    "wf_dict (votes (start_election s))" "set (keys (votes (start_election s))) = {node_id s}"
  using assms
  by (simp_all add: start_election_def Let_def split_beta battery_level_nf send_all_nf
      reset_election_timer_nf keys_def wf_dict_def)

text \<open>What a voter publishes for a request.\<close>

definition answer_of :: "string \<Rightarrow> payload \<Rightarrow> coordinator \<Rightarrow> string \<times> payload" where
  "answer_of cand q v = (node_id v, snd (last (outbox (handle_request_vote cand q v))))"

lemma answer_fields:
  "fst (answer_of cand q v) = node_id v"
  "vr_term (snd (answer_of cand q v)) = max (rv_term q) (current_term v)"
  "vr_vote_granted (snd (answer_of cand q v)) = deserves_vote v q"
  using vote_request_result [of _ cand q v, OF refl]
  by (simp_all add: answer_of_def) (metis last_snoc payload.sel(6,7) snd_conv)+

lemma start_election_request:
  assumes "state s \<noteq> Observer" and "(r, q) \<in> set (drop (length (outbox s)) (outbox (start_election s)))"
  shows "rv_term q = current_term s + 1"
  using assms
  by (auto simp: start_election_def Let_def split_beta battery_level_nf send_all_nf
      reset_election_timer_nf vote_request_def)

text \<open>C18. An election in which answers arrive ends: when voters that are not ahead of the candidate
  answer a request it has sent, in any order and any number of times, the candidate leads its
  new term exactly if it and those who, by the voting rule, must grant are more than half of
  the cluster; otherwise it is still a candidate of that term.\<close>

theorem heard_election_ends:
  assumes "state s \<noteq> Observer"
    and "(r, q) \<in> set (drop (length (outbox s)) (outbox (start_election s)))"
    and "\<forall>v\<in>set vs. current_term v \<le> current_term s + 1" and "vs \<noteq> []"
    and "s' = count_answers (map (answer_of (node_id s) q) vs) (start_election s)"
  shows "state s' =
      (if card (insert (node_id s) (node_id ` {v \<in> set vs. deserves_vote v q})) > (length (peers s) + 1) div 2
       then Leader else Candidate) \<and>
    current_term s' = current_term s + 1"
proof -
  let ?as = "map (answer_of (node_id s) q) vs"
  note start = start_election_fields [OF assms(1)]
  have "granting ?as = node_id ` {v \<in> set vs. deserves_vote v q}"
    unfolding granting_def using answer_fields [of "node_id s" q]
    by (force simp: image_iff prod_eq_iff)
  moreover have "\<forall>(i, p) \<in> set ?as. vr_term p = current_term (start_election s)"
    using assms(3) start_election_request [OF assms(1,2)] start(2)
    by (auto simp: split_beta answer_fields(2) max_def)
  ultimately show ?thesis
    using count_answers_state [of "start_election s" ?as] start assms(4) unfolding assms(5) by simp
qed

definition starter :: coordinator where
  "starter = (voter None)\<lparr>node_id := ''a'', peers := [''b'', ''c'']\<rparr>"

lemma starter_request:
  "(''b'', RequestVote 2 ''a'' 0 0 60) \<in> set (drop (length (outbox starter)) (outbox (start_election starter)))"
  by (simp add: starter_def voter_def blank_def start_election_def battery_level_nf lvl_of_def read_level_def
      send_all_nf reset_election_timer_nf vote_request_def last_log_index_def last_log_term_def
      read_mock_def second_hand_def monotonic_def Let_def py_int_def)

theorem heard_election_ends_witness:
  "state (count_answers (map (answer_of ''a'' (RequestVote 2 ''a'' 0 0 60))
     [voter None, voter None]) (start_election starter)) = Leader"
proof -
  have "state starter \<noteq> Observer" "node_id starter = ''a''" "peers starter = [''b'', ''c'']"
    "current_term starter = 1"
    by (simp_all add: starter_def voter_def blank_def)
  moreover have "deserves_vote (voter None) (RequestVote 2 ''a'' 0 0 60)"
    and "node_id (voter None) = ''b''" "current_term (voter None) = 1"
    by (simp_all add: deserves_vote_def voter_def blank_def last_entry_of_def last_log_term_def
        last_log_index_def T_LOW_def)
  moreover from this have "node_id ` {v \<in> set [voter None, voter None].
      deserves_vote v (RequestVote 2 ''a'' 0 0 60)} = {''b''}" by auto
  ultimately show ?thesis
    using heard_election_ends [OF _ starter_request, of "[voter None, voter None]", OF _ _ _ refl] by simp
qed

end
