(* ===== verification/Conserved.thy ===== *)
theory Conserved
  imports Handlers "HOL-Library.Multiset"
begin

text \<open>
  Sensor reports are never silently dropped, the comment in \<open>_handle_sensor_data\<close> says. The
  multiset of the commands a coordinator holds (log, batch window, pending triggers) or has
  forwarded changes, outside AppendEntries, by exactly what a message adds to it.
\<close>

section \<open>What a node answers for\<close>

text \<open>The commands in a command: a batch holds those in its list.\<close>

fun parts_of :: "json \<Rightarrow> json list" where
  "parts_of (JObj [(k1, JList cs), (k2, n)]) =
     (if k1 = ''batch'' \<and> k2 = ''count'' then concat (map parts_of cs)
      else [JObj [(k1, JList cs), (k2, n)]])"
| "parts_of c = [c]"

lemma parts_of_batch [simp]: "parts_of (batch cs) = concat (map parts_of cs)"
  by (simp add: batch_def)

lemma parts_of_reading [simp]: "parts_of (reading k v l) = [reading k v l]"
  by (simp add: reading_def)

definition commands_in :: "json list \<Rightarrow> json multiset" where
  "commands_in cs = mset (concat (map parts_of cs))"

lemma commands_in_simps [simp]:
  "commands_in [] = {#}" "commands_in (c # cs) = mset (parts_of c) + commands_in cs"
  "commands_in (cs @ ds) = commands_in cs + commands_in ds"
  "commands_in [batch cs] = commands_in cs"
  by (simp_all add: commands_in_def)

text \<open>The readings among the messages a node has handed to the transport.\<close>

definition reading_of :: "payload \<Rightarrow> json list" where
  "reading_of p = (case p of SensorData l k v t \<Rightarrow> [reading k v l] | _ \<Rightarrow> [])"

definition forwarded :: "(string \<times> payload) list \<Rightarrow> json multiset" where
  "forwarded ms = mset (concat (map (reading_of \<circ> snd) ms))"

lemma forwarded_simps [simp]:
  "forwarded [] = {#}" "forwarded (m # ms) = mset (reading_of (snd m)) + forwarded ms"
  "forwarded (ms @ ns) = forwarded ms + forwarded ns"
  by (simp_all add: forwarded_def)

lemma forwarded_none: "\<forall>m\<in>set ms. reading_of (snd m) = [] \<Longrightarrow> forwarded ms = {#}"
  by (induction ms) simp_all

definition answered_for :: "coordinator \<Rightarrow> json multiset" where
  "answered_for s = commands_in (map le_command (log s)) + commands_in (batch_buffer s) +
     commands_in (map fst (pending_triggers s)) + forwarded (outbox s)"


section \<open>Operations that leave it alone\<close>

named_theorems conserve \<open>operations and what they add to the commands a node answers for\<close>

lemma reading_of_simps [simp]:
  "reading_of (RequestVote t n i j b) = []" "reading_of (VoteResponse t g n b) = []"
  "reading_of (AppendEntries t l' i j es c tr ep) = []" "reading_of (AppendResponse t g n m rb) = []"
  "reading_of (LivenessPing t l') = []" "reading_of (LeafRegisterResponse g n t) = []"
  "reading_of (SensorData l k v st) = [reading k v l]" "reading_of (LeadershipHandoff t l') = []"
  "reading_of (ReconcileBatch t n cs) = []"
  by (simp_all add: reading_of_def)

lemma reading_of_append_message [simp]: "reading_of (append_message s r) = []"
  by (simp add: append_message_def Let_def)

lemma send_conserves [conserve]: "answered_for (send r p s) = answered_for s + mset (reading_of p)"
  by (simp add: answered_for_def send_def)

lemma broadcast_conserves [conserve]: "answered_for (broadcast p s) = answered_for s + mset (reading_of p)"
  by (simp add: answered_for_def broadcast_def)

lemma send_all_conserves [conserve]:
  "reading_of p = [] \<Longrightarrow> answered_for (send_all rs p s) = answered_for s"
  by (simp add: answered_for_def send_all_nf forwarded_none)

lemma append_all_conserves [conserve]: "answered_for (fold send_append_entries ps s) = answered_for s"
  by (simp add: answered_for_def append_all_nf forwarded_none)

lemma timer_conserves [conserve]: "answered_for (reset_election_timer s) = answered_for s"
  by (simp add: answered_for_def reset_election_timer_nf)

lemma step_down_conserves [conserve]: "answered_for (step_down t s) = answered_for s"
  by (simp add: answered_for_def step_down_def reset_election_timer_nf Let_def)

lemma check_battery_conserves [conserve]: "answered_for (check_battery s) = answered_for s"
  by (simp add: answered_for_def check_battery_def battery_level_nf)

lemma publish_conserves [conserve]: "answered_for (publish_status s) = answered_for s"
  by (simp add: answered_for_def publish_status_def battery_level_nf Let_def)

lemma count_conserves [conserve]: "answered_for (count_received p s) = answered_for s"
  by (simp add: answered_for_def count_received_def)

text \<open>Updates of the other fields.\<close>

lemma upd_conserves [conserve]:
  "answered_for (s\<lparr>env := w\<rparr>) = answered_for s" "answered_for (s\<lparr>battery := b\<rparr>) = answered_for s"
  "answered_for (s\<lparr>state := st\<rparr>) = answered_for s" "answered_for (s\<lparr>voted_for := v\<rparr>) = answered_for s"
  "answered_for (s\<lparr>votes := vs\<rparr>) = answered_for s" "answered_for (s\<lparr>current_term := t\<rparr>) = answered_for s"
  "answered_for (s\<lparr>current_leader_id := i\<rparr>) = answered_for s"
  "answered_for (s\<lparr>next_index := ni\<rparr>) = answered_for s"
  "answered_for (s\<lparr>match_index := mi\<rparr>) = answered_for s"
  "answered_for (s\<lparr>peer_batteries := pb\<rparr>) = answered_for s"
  "answered_for (s\<lparr>last_consensus_activity := t'\<rparr>) = answered_for s"
  "answered_for (s\<lparr>last_ping_time := t'\<rparr>) = answered_for s"
  "answered_for (s\<lparr>last_leaf_keepalive := t'\<rparr>) = answered_for s"
  "answered_for (s\<lparr>ping_interval_s := t'\<rparr>) = answered_for s"
  "answered_for (s\<lparr>handoff_sent := h\<rparr>) = answered_for s"
  "answered_for (s\<lparr>leader_changes := n\<rparr>) = answered_for s"
  "answered_for (s\<lparr>commit_index := n\<rparr>) = answered_for s"
  "answered_for (s\<lparr>leaves := ls\<rparr>) = answered_for s"
  "answered_for (s\<lparr>last_sensor := d\<rparr>) = answered_for s"
  "answered_for (s\<lparr>recent_reconciles := rr\<rparr>) = answered_for s"
  "answered_for (s\<lparr>batch_deadline := bd\<rparr>) = answered_for s"
  "answered_for (s\<lparr>latencies := l\<rparr>) = answered_for s"
  "answered_for (s\<lparr>pending_latency := pl\<rparr>) = answered_for s"
  "answered_for (s\<lparr>blocked_senders := bs\<rparr>) = answered_for s"
  "answered_for (s\<lparr>partition_epoch := e\<rparr>) = answered_for s"
  "answered_for (s\<lparr>inbox := q\<rparr>) = answered_for s"
  by (simp_all add: answered_for_def)

lemma fold_conserves: "(\<And>x s. answered_for (f x s) = answered_for s) \<Longrightarrow> answered_for (fold f xs s) = answered_for s"
  by (induction xs arbitrary: s) simp_all


section \<open>Operations that move commands\<close>

lemma replicate_conserves [conserve]:
  "answered_for (replicate_entry c t s) = answered_for s + mset (parts_of c)"
  by (simp add: answered_for_def frame replicate_entry_outbox forwarded_none)

lemma replicate_each_conserves [conserve]:
  "answered_for (replicate_each cs s) = answered_for s + commands_in (map fst cs)"
  by (induction cs arbitrary: s) (auto simp: replicate_each_def conserve)

text \<open>Emptying a buffer takes its commands out; the entry that follows puts them into the log.\<close>

lemma empty_pending:
  "answered_for (s\<lparr>pending_triggers := []\<rparr>) + commands_in (map fst (pending_triggers s)) = answered_for s"
  by (simp add: answered_for_def)

lemma commands_of_one: "length cs = Suc 0 \<Longrightarrow> mset (parts_of (hd cs)) = commands_in cs"
  by (cases cs) simp_all

lemma commands_of_batch: "mset (concat (map parts_of cs)) = commands_in cs"
  by (simp add: commands_in_def)

lemma flush_batch_conserves [conserve]: "answered_for (flush_batch s) = answered_for s"
proof -
  have "answered_for (s\<lparr>batch_buffer := [], batch_deadline := d, env := w, last_consensus_activity := t\<rparr>) +
      commands_in (batch_buffer s) = answered_for s" for d w t
    by (simp add: answered_for_def)
  then show ?thesis
    by (simp add: flush_batch_def Let_def now_s_nf replicate_conserves upd_conserves(21)
        commands_of_one commands_of_batch del: mset_concat)
qed

lemma buffer_command_conserves [conserve]:
  "answered_for (buffer_command c s) = answered_for s + mset (parts_of c)"
proof -
  have "answered_for (s\<lparr>batch_buffer := batch_buffer s @ [c]\<rparr>) = answered_for s + mset (parts_of c)"
    by (simp add: answered_for_def)
  then show ?thesis by (simp add: buffer_command_def Let_def now_s_nf conserve)
qed

lemma flush_pending_conserves [conserve]: "answered_for (flush_pending_triggers s) = answered_for s"
proof (cases "pending_triggers s = []")
  case False
  have "mset (parts_of (batch cs)) = commands_in cs" for cs
    by (simp add: commands_in_def)
  then show ?thesis
    using False empty_pending [of s]
    by (simp add: flush_pending_triggers_def Let_def now_s_nf conserve del: parts_of_batch)
qed (simp add: flush_pending_triggers_def)

lemma ping_conserves [conserve]:
  "answered_for (send_liveness_ping s) = answered_for s" "answered_for (send_leaf_keepalives s) = answered_for s"
  "answered_for (send_heartbeats s) = answered_for s"
  by (simp_all add: send_liveness_ping_def send_leaf_keepalives_def send_heartbeats_def ping_def Let_def conserve)

lemma become_leader_conserves [conserve]: "answered_for (become_leader s) = answered_for s"
proof -
  have "answered_for (fold (\<lambda>peer s. s\<lparr>next_index := dput peer (last_log_index s + 1) (next_index s),
      match_index := dput peer 0 (match_index s)\<rparr>) ps s) = answered_for s" for ps s
    by (rule fold_conserves) (simp add: conserve)
  then show ?thesis
    by (simp add: become_leader_def Let_def now_s_nf conserve)
qed

lemma start_election_conserves [conserve]: "answered_for (start_election s) = answered_for s"
  by (simp add: start_election_def Let_def battery_level_nf vote_request_def conserve)

lemma handoff_conserves [conserve]: "answered_for (initiate_handoff s) = answered_for s"
  by (simp add: initiate_handoff_def Let_def battery_level_nf conserve split: list.split)

lemma tick_conserves [conserve]: "answered_for (tick s) = answered_for s"
  by (simp add: tick_def tick_raft_def tick_echo_def tick_echod_def Let_def now_s_nf battery_level_nf conserve
      split: protocol.split)

lemma advance_conserves [conserve]: "answered_for (try_advance_commit s) = answered_for s"
proof -
  have "answered_for (record_latencies n t s) = answered_for s" for n t s
    unfolding record_latencies_def by (rule fold_conserves) (simp add: conserve)
  then have "answered_for (scan_commit s ns) = answered_for s" for ns
    by (induction ns) (simp_all add: now_s_nf conserve)
  then show ?thesis by (simp add: try_advance_commit_def)
qed


section \<open>The law\<close>

text \<open>What a message adds: a reading, unless the delta filter of a leader drops it, and the
  commands of a reconciliation that a leader has not seen.\<close>

definition added :: "payload \<Rightarrow> coordinator \<Rightarrow> json multiset" where
  "added p s = (case p of
     SensorData l k v t \<Rightarrow>
       if leading s \<and> protocol s \<noteq> Raft \<and> filtered s (sensor_key l k) v then {#} else {#reading k v l#}
   | ReconcileBatch t n cs \<Rightarrow>
       if leading s then commands_in (fst (fresh_commands (recent_reconciles s) (py_get cs []))) else {#}
   | _ \<Rightarrow> {#})"

lemma sensor_conserves:
  "answered_for (handle_sensor_data sender (SensorData l k v t) s) = answered_for s + added (SensorData l k v t) s"
proof -
  have "answered_for (s\<lparr>pending_triggers := pending_triggers s @ [(reading k v l, ''delta'')]\<rparr>) =
      answered_for s + {#reading k v l#}"
    by (simp add: answered_for_def)
  then show ?thesis
    by (simp add: handle_sensor_data_def added_def Let_def conserve split: option.split)
qed

lemma reconcile_conserves:
  "answered_for (handle_reconcile_batch sender (ReconcileBatch t n cs) s) =
     answered_for s + added (ReconcileBatch t n cs) s"
  by (simp add: handle_reconcile_batch_def added_def Let_def split_beta now_s_nf conserve
      commands_of_batch comp_def del: mset_concat)

lemma handlers_conserve:
  "answered_for (handle_request_vote i (RequestVote t c li lt b) s) = answered_for s"
  "answered_for (handle_vote_response i (VoteResponse t g n b) s) = answered_for s"
  "answered_for (handle_append_response i (AppendResponse t g n m rb) s) = answered_for s"
  "answered_for (handle_liveness_ping i (LivenessPing t lead) s) = answered_for s"
  "answered_for (handle_leaf_register i (LeafRegister n) s) = answered_for s"
  "answered_for (handle_leadership_handoff i (LeadershipHandoff t lead) s) = answered_for s"
  "answered_for (handle_partition_control i p s) = answered_for s"
  "answered_for (handle_demo_control i p s) = answered_for s"
         apply (simp add: handle_request_vote_def Let_def battery_level_nf conserve)
        apply (simp add: handle_vote_response_def Let_def conserve)
       apply (simp add: handle_append_response_def Let_def conserve split: option.split)
      apply (simp add: handle_liveness_ping_def Let_def conserve)
     apply (simp add: handle_leaf_register_def Let_def conserve)
    apply (simp add: handle_leadership_handoff_def Let_def conserve)
   apply (simp add: handle_partition_control_def enter_provisional_mode_def exit_provisional_mode_def
      Let_def conserve split: option.split)
  apply (simp add: handle_demo_control_def with_battery_def Let_def conserve split: option.split prod.split)
  done

text \<open>C19. No report is dropped silently. Outside AppendEntries, the commands a coordinator holds in
  its log, batch window and pending triggers, together with the readings it has forwarded,
  change by exactly what a message brings: its reading, unless the delta filter of a leader
  drops it, or the reconciled commands a leader has not seen. Elections, promotions,
  step-downs, flushes, hand-offs and every part of the loop lose and duplicate nothing.\<close>

theorem reports_are_conserved:
  assumes "\<not> is_append p" and "receive sender p s = Inr s'"
  shows "answered_for s' = answered_for s + added p s \<and>
    answered_for (publish_status (tick (check_battery s'))) = answered_for s + added p s"
proof -
  have same: "added p (count_received p s) = added p s"
    by (simp add: added_def count_received_def filtered_def leading_def split: payload.split)
  have "answered_for s' = answered_for (count_received p s) + added p (count_received p s)"
    using assms
    by (cases p) (auto simp: receive_def handle_def is_append_def handlers_conserve sensor_conserves
        reconcile_conserves added_def)
  then show ?thesis by (simp add: conserve same)
qed

definition idle_node :: coordinator where
  "idle_node = blank Echod ''a'' [''b''] \<lparr>mock = True, level = 60, drain_rate = 0,
     drain_paused = False, last_read = 0, adc_present = False\<rparr> True second_hand"

theorem reports_are_conserved_witness:
  "answered_for (publish_status (tick (check_battery (projr
      (receive ''leaf'' (SensorData ''leaf'' ''temperature'' 20 None) idle_node))))) =
     {#reading ''temperature'' 20 ''leaf''#}"
proof -
  let ?p = "SensorData ''leaf'' ''temperature'' 20 None"
  have run: "receive ''leaf'' ?p idle_node = Inr (projr (receive ''leaf'' ?p idle_node))"
    by (simp add: receive_def handle_def)
  have "answered_for idle_node = {#}" "added ?p idle_node = {#reading ''temperature'' 20 ''leaf''#}"
    by (simp_all add: idle_node_def blank_def answered_for_def added_def leading_def)
  then show ?thesis
    using reports_are_conserved [OF _ run] by (simp add: is_append_def)
qed

end
