(* ===== verification/HandBack.thy ===== *)
theory HandBack
  imports Conserved FollowerLog
begin

text \<open>
  What becomes of the entries an AppendEntries replaces: the commands a follower logged in a
  partition go to the leader, which logs those it has not seen, once each.
\<close>

section \<open>The entries that give way\<close>

fun given_way :: "log_entry list \<Rightarrow> nat \<Rightarrow> log_entry list \<Rightarrow> log_entry list" where
  "given_way l k [] = []"
| "given_way l k (e # es) =
     (if k < length l \<and> le_term (l ! k) = le_term e then given_way l (Suc k) es else drop k l)"

lemma given_way_end: "given_way l (length l) es = []"
  by (cases es) simp_all

text \<open>With them the log was the kept part of the new one: nothing else is lost.\<close>

lemma given_way_rest:
  "k \<le> length l \<Longrightarrow> \<exists>n. l = take n (graft l k es) @ given_way l k es"
proof (induction l k es rule: given_way.induct)
  case (1 l k)
  then show ?case by (intro exI [of _ "length l"]) simp
next
  case (2 l k e es)
  show ?case
  proof (cases "k < length l \<and> le_term (l ! k) = le_term e")
    case True
    then show ?thesis using 2 by simp
  next
    case False
    have "l = take k (graft l k (e # es)) @ given_way l k (e # es)"
      using False "2.prems" by auto
    then show ?thesis by blast
  qed
qed

lemma replay_log: "replay_provisional es (s\<lparr>log := l\<rparr>) = (replay_provisional es s)\<lparr>log := l\<rparr>"
  by (simp add: replay_provisional_def Let_def send_def split: option.split)

lemma replay_none [simp]: "replay_provisional [] s = s"
  by (simp add: replay_provisional_def)

lemma append_loop_replays:
  assumes "numbered k es" and "k \<le> length (log s)"
  shows "append_loop es s = Inr ((replay_provisional (given_way (log s) k es) s)
    \<lparr>log := graft (log s) k es\<rparr>)"
  using assms
proof (induction es arbitrary: k s)
  case Nil
  then show ?case by simp
next
  case (Cons e es)
  have i: "le_index e - 1 = int k" "numbered (Suc k) es" using Cons.prems(1) by simp_all
  consider (same) "k < length (log s)" "le_term (log s ! k) = le_term e"
    | (conflict) "k < length (log s)" "le_term (log s ! k) \<noteq> le_term e"
    | (new) "k = length (log s)" using Cons.prems(2) by linarith
  then show ?case
  proof cases
    case same
    then have "append_entry e s = Inr s"
      using Cons.prems(1) i(1) by (simp add: append_entry_def)
    then show ?thesis using Cons.IH [OF i(2), of s] same by simp
  next
    case conflict
    let ?s = "(replay_provisional (drop k (log s)) s)\<lparr>log := take k (log s) @ [e]\<rparr>"
    have "append_entry e s = Inr ?s"
      using conflict Cons.prems(1) i(1)
      by (simp add: append_entry_def Let_def py_from_nonneg py_upto_nonneg replay_log)
    moreover have "length (log ?s) = Suc k" using conflict(1) by simp
    ultimately show ?thesis
      using Cons.IH [OF i(2), of ?s] conflict graft_end [of "log ?s" es]
        given_way_end [of "log ?s" es] by simp
  next
    case new
    let ?s = "s\<lparr>log := log s @ [e]\<rparr>"
    have "append_entry e s = Inr ?s"
      using new Cons.prems(1) by (simp add: append_entry_def)
    then show ?thesis
      using Cons.IH [OF i(2), of ?s] new graft_end [of "log ?s" es]
        given_way_end [of "log ?s" es] by simp
  qed
qed

text \<open>The commands of the entries logged in a partition.\<close>

definition provisional_commands :: "log_entry list \<Rightarrow> json list" where
  "provisional_commands es = map le_command (filter (\<lambda>e. le_partition_epoch e \<noteq> 0) es)"

lemma replay_outbox:
  assumes "protocol s \<noteq> Raft" and "current_leader_id s = Some l" and "l \<noteq> node_id s"
  shows "outbox (replay_provisional es s) = outbox s @
    (if provisional_commands es = [] then []
     else [(l, ReconcileBatch (current_term s) (node_id s) (Some (provisional_commands es)))])"
  using assms by (simp add: replay_provisional_def provisional_commands_def send_def Let_def)

lemma heard_ident:
  "protocol (heard sender p s) = protocol s" "node_id (heard sender p s) = node_id s"
  "outbox (heard sender p s) = outbox s"
  by (simp_all add: heard_def step_down_def reset_election_timer_nf Let_def)

lemma accepted_outbox:
  assumes "current_term s \<le> ae_term p" and "well_sent p"
    and "prev_matches (log s) (ae_prev_log_index p) (ae_prev_log_term p)"
    and "protocol s \<noteq> Raft" and "py_get (ae_leader_id p) sender = l" and "l \<noteq> node_id s"
  shows "\<exists>s' r. handle_append_entries sender p s = Inr s' \<and>
    (let prov = provisional_commands
        (given_way (log s) (nat (ae_prev_log_index p)) (py_get (ae_entries p) []))
     in outbox s' = outbox s @
       (if prov = [] then [] else [(l, ReconcileBatch (ae_term p) (node_id s) (Some prov))]) @
       [(sender, r)])"
proof -
  let ?k = "nat (ae_prev_log_index p)" and ?es = "py_get (ae_entries p) []"
  let ?h = "heard sender p s" and ?c = "py_get (ae_leader_commit p) 0"
  have "?k \<le> length (log ?h)"
    using assms(3) by (auto simp: prev_matches_def heard_frame)
  then have loop: "append_loop ?es ?h =
      Inr ((replay_provisional (given_way (log ?h) ?k ?es) ?h)\<lparr>log := graft (log ?h) ?k ?es\<rparr>)"
    using assms(2) by (intro append_loop_replays) (simp_all add: well_sent_def)
  have adv: "outbox (advance_follower_commit c s1) = outbox s1" for c s1
    by (simp add: advance_follower_commit_def)
  have "outbox (replay_provisional es ?h) = outbox s @
      (if provisional_commands es = [] then []
       else [(l, ReconcileBatch (ae_term p) (node_id s) (Some (provisional_commands es)))])" for es
    using replay_outbox [of ?h l es] assms(1,4-6)
    by (simp add: heard_ident heard_frame max_def)
  then show ?thesis
    using assms(1,3)
    by (simp add: handle_append_entries_heard heard_frame(1,3) loop append_response_frame adv Let_def)
qed


section \<open>What the leader makes of them\<close>

lemma fresh_commands_spec:
  "set (fst (fresh_commands recent cs)) \<subseteq> set cs \<and>
   distinct (map canon (fst (fresh_commands recent cs))) \<and>
   canon ` set (fst (fresh_commands recent cs)) = canon ` set cs - set recent"
proof (induction recent cs rule: fresh_commands.induct)
  case (1 recent)
  then show ?case by simp
next
  case (2 recent c cs)
  show ?case
  proof (cases "canon c \<in> set recent")
    case True
    then show ?thesis using 2(1) by auto
  next
    case False
    let ?f = "fst (fresh_commands (recent @ [canon c]) cs)"
    have IH: "set ?f \<subseteq> set cs" "distinct (map canon ?f)"
      "canon ` set ?f = canon ` set cs - set (recent @ [canon c])"
      using 2(2) False by auto
    have "fst (fresh_commands recent (c # cs)) = c # ?f"
      using False by (simp add: split_beta)
    moreover have "canon c \<notin> set (map canon ?f)" using IH(3) by simp
    ultimately show ?thesis using IH False by auto
  qed
qed

lemma replicate_each_commands:
  "commands_in (map le_command (log (replicate_each cs s))) =
     commands_in (map le_command (log s)) + commands_in (map fst cs)"
  by (induction cs arbitrary: s) (auto simp: replicate_each_def frame)

lemma reconcile_logs:
  assumes "leading s"
  shows "commands_in (map le_command (log (handle_reconcile_batch i (ReconcileBatch t n (Some cs)) s))) =
    commands_in (map le_command (log s)) +
    commands_in (fst (fresh_commands (recent_reconciles s) cs))"
  using assms
  by (simp add: handle_reconcile_batch_def Let_def split_beta now_s_nf replicate_each_commands frame
      comp_def commands_of_batch del: mset_concat)


section \<open>Properties\<close>

text \<open>C20. Provisional readings come back. When a follower of the energy-gated protocols accepts an
  AppendEntries that replaces entries it logged in a partition, it sends their commands, in
  order and in one message, to the leader the AppendEntries names, before it answers; and a
  node that leads when it handles that message logs the commands it has not seen, each once.\<close>

theorem provisional_commands_return:
  assumes "current_term s \<le> ae_term p" and "well_sent p"
    and "prev_matches (log s) (ae_prev_log_index p) (ae_prev_log_term p)"
    and "protocol s \<noteq> Raft" and "py_get (ae_leader_id p) sender = l" and "l \<noteq> node_id s"
    and "prov = provisional_commands
      (given_way (log s) (nat (ae_prev_log_index p)) (py_get (ae_entries p) []))"
    and "prov \<noteq> []" and "msg = ReconcileBatch (ae_term p) (node_id s) (Some prov)"
    and "leading ldr" and "ldr' = handle_reconcile_batch (node_id s) msg ldr"
  shows "\<exists>s' r fresh. handle_append_entries sender p s = Inr s' \<and>
    outbox s' = outbox s @ [(l, msg), (sender, r)] \<and>
    commands_in (map le_command (log ldr')) =
      commands_in (map le_command (log ldr)) + commands_in fresh \<and>
    set fresh \<subseteq> set prov \<and> distinct (map canon fresh) \<and>
    canon ` set fresh = canon ` set prov - set (recent_reconciles ldr)"
proof -
  obtain s' r where "handle_append_entries sender p s = Inr s'"
    "outbox s' = outbox s @ [(l, msg), (sender, r)]"
    using accepted_outbox [OF assms(1-6)] assms(7-9) by (auto simp: Let_def)
  moreover have "commands_in (map le_command (log ldr')) =
      commands_in (map le_command (log ldr)) +
      commands_in (fst (fresh_commands (recent_reconciles ldr) prov))"
    using reconcile_logs [OF assms(10)] by (simp add: assms(9,11))
  ultimately show ?thesis
    using fresh_commands_spec [of "recent_reconciles ldr" prov] by blast
qed

text \<open>A follower with three provisional readings, two of them alike, and a leader of term 2.\<close>

definition provisional_entry :: "int \<Rightarrow> rat \<Rightarrow> log_entry" where
  "provisional_entry i v = \<lparr>le_index = i, le_term = 1, le_command = reading ''temp'' v ''leaf'',
     le_trigger_type = ''delta'', le_partition_epoch = 1, le_timestamp = 0\<rparr>"

definition cut_off :: "rat list \<Rightarrow> coordinator" where
  "cut_off vs = idle_node\<lparr>node_id := ''b'', current_term := 1,
     log := map (\<lambda>(i, v). provisional_entry (int i + 1) v) (List.enumerate 0 vs)\<rparr>"

definition winner :: coordinator where
  "winner = idle_node\<lparr>protocol := Echo, current_term := 2, state := Leader\<rparr>"

definition winning_append :: payload where
  "winning_append = AppendEntries 2 (Some ''a'') 0 0
     (Some [\<lparr>le_index = 1, le_term = 2, le_command = reading ''temp'' 5 ''leaf'',
       le_trigger_type = ''delta'', le_partition_epoch = 0, le_timestamp = 0\<rparr>])
     (Some 0) ''delta'' 0"

lemma cut_off_fields:
  "current_term (cut_off vs) = 1" "protocol (cut_off vs) = Echod" "node_id (cut_off vs) = ''b''"
  "leading winner" "recent_reconciles winner = []" "log winner = []"
  by (simp_all add: cut_off_def winner_def idle_node_def blank_def leading_def)

lemma cut_off_prov:
  "provisional_commands (given_way (log (cut_off [20, 30, 20])) 0
      (py_get (ae_entries winning_append) [])) =
     [reading ''temp'' 20 ''leaf'', reading ''temp'' 30 ''leaf'', reading ''temp'' 20 ''leaf'']"
  by (simp add: cut_off_def winning_append_def provisional_commands_def provisional_entry_def)

theorem provisional_commands_return_witness:
  "\<exists>s'. handle_append_entries ''a'' winning_append (cut_off [20, 30, 20]) = Inr s' \<and>
     (\<exists>r. outbox s' = outbox (cut_off [20, 30, 20]) @
        [(''a'', ReconcileBatch 2 ''b'' (Some [reading ''temp'' 20 ''leaf'',
            reading ''temp'' 30 ''leaf'', reading ''temp'' 20 ''leaf''])), (''a'', r)])"
proof -
  let ?prov = "[reading ''temp'' 20 ''leaf'', reading ''temp'' 30 ''leaf'',
    reading ''temp'' 20 ''leaf'']"
  have "well_sent winning_append" "ae_prev_log_index winning_append = 0"
    "ae_term winning_append = 2" "py_get (ae_leader_id winning_append) ''a'' = ''a''"
    by (simp_all add: winning_append_def well_sent_def)
  then show ?thesis
    using provisional_commands_return [of "cut_off [20, 30, 20]" winning_append "''a''" "''a''"
        ?prov "ReconcileBatch 2 ''b'' (Some ?prov)" winner
        "handle_reconcile_batch ''b'' (ReconcileBatch 2 ''b'' (Some ?prov)) winner"]
      cut_off_prov
    by (auto simp: cut_off_fields prev_matches_def)
qed

text \<open>What the leader has seen is told apart by the command alone, within one message as well:
  of three readings of which the first and the last agree it logs two.\<close>

theorem equal_readings_are_merged:
  "map le_command (log (handle_reconcile_batch ''b'' (ReconcileBatch 2 ''b''
      (Some [reading ''temp'' 20 ''leaf'', reading ''temp'' 30 ''leaf'',
        reading ''temp'' 20 ''leaf''])) winner)) =
     [reading ''temp'' 20 ''leaf'', reading ''temp'' 30 ''leaf'']"
  by code_simp

end
