(* ===== verification/SimLog.thy ===== *)
theory SimLog
  imports Json Freshness
begin

text \<open>
  \<open>simulation/core/log.py\<close>: the replicated log of a simulated node, with 1-based indices.
  Entries carry no timestamp here: no code of the simulation reads one.
\<close>

section \<open>Entries\<close>

datatype trigger_type = DELTA | JOIN | PARTITION | RECONCILE | LIVENESS

record sim_entry =
  e_index :: int
  e_term :: int
  e_command :: json
  e_trigger_type :: trigger_type
  e_partition_epoch :: int


section \<open>The log and its operations\<close>

record replicated_log =
  entries :: "sim_entry list"
  commit_index :: int
  last_applied :: int

definition new_log :: replicated_log where
  "new_log = \<lparr>entries = [], commit_index = 0, last_applied = 0\<rparr>"

definition last_index :: "replicated_log \<Rightarrow> int" where
  "last_index l = int (length (entries l))"

definition last_term :: "replicated_log \<Rightarrow> int" where
  "last_term l = (if entries l \<noteq> [] then e_term (last (entries l)) else 0)"

definition get :: "int \<Rightarrow> replicated_log \<Rightarrow> sim_entry option" where
  "get i l = (if 1 \<le> i \<and> i \<le> last_index l then Some (entries l ! nat (i - 1)) else None)"

definition entries_from :: "int \<Rightarrow> replicated_log \<Rightarrow> sim_entry list" where
  "entries_from start l =
     (let start = (if start < 1 then 1 else start) in py_from (entries l) (start - 1))"

definition term_at :: "int \<Rightarrow> replicated_log \<Rightarrow> int" where
  "term_at i l = (case get i l of Some e \<Rightarrow> e_term e | None \<Rightarrow> 0)"

definition append_log :: "sim_entry \<Rightarrow> replicated_log \<Rightarrow> replicated_log" where
  "append_log e l = l\<lparr>entries := entries l @ [e]\<rparr>"

definition append_all :: "sim_entry list \<Rightarrow> replicated_log \<Rightarrow> replicated_log" where
  "append_all es l = l\<lparr>entries := entries l @ es\<rparr>"

definition truncate_from :: "int \<Rightarrow> replicated_log \<Rightarrow> replicated_log" where
  "truncate_from i l = (if i \<ge> 1 then l\<lparr>entries := py_upto (entries l) (i - 1)\<rparr> else l)"

text \<open>\<open>commit\<close> returns the entries the caller is to apply, \<open>self._entries[old:new]\<close>.\<close>

definition commit :: "int \<Rightarrow> replicated_log \<Rightarrow> sim_entry list \<times> replicated_log" where
  "commit n l =
     (if n \<le> commit_index l then ([], l)
      else (let old = commit_index l;
                l = l\<lparr>commit_index := min n (last_index l)\<rparr>
            in (drop (py_bound (entries l) old)
                  (take (py_bound (entries l) (commit_index l)) (entries l)), l)))"

definition is_up_to_date :: "replicated_log \<Rightarrow> int \<Rightarrow> int \<Rightarrow> bool" where
  "is_up_to_date l i t = (if t \<noteq> last_term l then t > last_term l else i \<ge> last_index l)"


section \<open>The comparison rule\<close>

definition last_of_log :: "replicated_log \<Rightarrow> int \<times> int" where
  "last_of_log l = (last_term l, last_index l)"

interpretation sim_log: log_freshness last_of_log is_up_to_date
  by unfold_locales (auto simp: last_of_log_def is_up_to_date_def)


section \<open>Queries\<close>

lemma get_Some_iff: "get i l = Some e \<longleftrightarrow> 1 \<le> i \<and> i \<le> last_index l \<and> e = entries l ! nat (i - 1)"
  by (auto simp: get_def)

lemma last_index_append [simp]: "last_index (append_log e l) = last_index l + 1"
  by (simp add: last_index_def append_log_def)

lemma entries_append [simp]: "entries (append_log e l) = entries l @ [e]"
  "commit_index (append_log e l) = commit_index l"
  by (simp_all add: append_log_def)

lemma entries_truncate:
  "1 \<le> i \<Longrightarrow> entries (truncate_from i l) = take (nat (i - 1)) (entries l)"
  by (simp add: truncate_from_def py_upto_nonneg)

lemma commit_index_truncate [simp]: "commit_index (truncate_from i l) = commit_index l"
  by (simp add: truncate_from_def)

lemma entries_commit [simp]: "entries (snd (commit n l)) = entries l"
  by (simp add: commit_def Let_def)

lemma entries_from_pos: "1 \<le> i \<Longrightarrow> entries_from i l = drop (nat (i - 1)) (entries l)"
  by (simp add: entries_from_def py_from_nonneg)

section \<open>Commits apply every entry once\<close>

text \<open>The ways a log is changed; \<open>log_do\<close> collects what the commits returned.\<close>

datatype log_op = Append sim_entry | AppendAll "sim_entry list" | Truncate int | Commit int

fun log_do :: "log_op \<Rightarrow> sim_entry list \<times> replicated_log \<Rightarrow> sim_entry list \<times> replicated_log" where
  "log_do (Append e) (out, l) = (out, append_log e l)"
| "log_do (AppendAll es) (out, l) = (out, append_all es l)"
| "log_do (Truncate i) (out, l) = (out, truncate_from i l)"
| "log_do (Commit n) (out, l) = (let (es, l) = commit n l in (out @ es, l))"

text \<open>No truncation reaches down to a committed entry.\<close>

fun keeps_committed :: "log_op list \<Rightarrow> sim_entry list \<times> replicated_log \<Rightarrow> bool" where
  "keeps_committed [] x = True"
| "keeps_committed (op # ops) x =
     ((case op of Truncate i \<Rightarrow> i > commit_index (snd x) | _ \<Rightarrow> True) \<and>
      keeps_committed ops (log_do op x))"

definition applied :: "sim_entry list \<times> replicated_log \<Rightarrow> bool" where
  "applied x \<longleftrightarrow> 0 \<le> commit_index (snd x) \<and> commit_index (snd x) \<le> last_index (snd x) \<and>
     fst x = take (nat (commit_index (snd x))) (entries (snd x))"

lemma commit_applied:
  assumes "applied (out, l)"
  shows "applied (log_do (Commit n) (out, l))"
proof (cases "n \<le> commit_index l")
  case True
  then show ?thesis using assms by (simp add: commit_def)
next
  case False
  let ?m = "min n (last_index l)"
  have b: "0 \<le> commit_index l" "commit_index l \<le> last_index l" "commit_index l \<le> ?m"
    "out = take (nat (commit_index l)) (entries l)"
    using assms False by (simp_all add: applied_def)
  have "commit n l = (drop (nat (commit_index l)) (take (nat ?m) (entries l)),
      l\<lparr>commit_index := ?m\<rparr>)"
    using b False by (simp add: commit_def py_bound_nonneg last_index_def min_def)
  moreover have "out @ drop (nat (commit_index l)) (take (nat ?m) (entries l)) =
      take (nat ?m) (entries l)"
    using b append_take_drop_id [of "nat (commit_index l)" "take (nat ?m) (entries l)"]
    by (simp add: take_take min_absorb1 nat_mono del: append_take_drop_id)
  ultimately show ?thesis
    using b by (simp add: applied_def last_index_def)
qed

lemma log_do_applied:
  assumes "applied x" and "case op of Truncate i \<Rightarrow> i > commit_index (snd x) | _ \<Rightarrow> True"
  shows "applied (log_do op x)"
proof -
  obtain out l where x: "x = (out, l)" by (cases x)
  show ?thesis
  proof (cases op)
    case (Commit n)
    then show ?thesis using commit_applied assms(1) x by simp
  next
    case (Truncate i)
    have "commit_index l < i" "0 \<le> commit_index l"
      using assms x Truncate by (simp_all add: applied_def)
    then have "min (nat (commit_index l)) (nat (i - 1)) = nat (commit_index l)"
      by (simp add: min_def)
    then show ?thesis
      using assms x Truncate
      by (auto simp: applied_def entries_truncate last_index_def take_take)
  qed (use assms x in \<open>auto simp: applied_def append_all_def last_index_def nat_le_iff\<close>)
qed

lemma fold_applied: "applied x \<Longrightarrow> keeps_committed ops x \<Longrightarrow> applied (fold log_do ops x)"
  by (induction ops arbitrary: x) (simp_all add: log_do_applied)

text \<open>C27. Whatever appends, truncations above the commit index and commits a log goes through, the
  entries its commits hand out are, one after the other, exactly the committed prefix of the
  log: each entry is applied once, in order, and the commit index stays within the log.\<close>

theorem commits_apply_each_entry_once:
  assumes "fold log_do ops ([], new_log) = (out, l)" and "keeps_committed ops ([], new_log)"
  shows "out = take (nat (commit_index l)) (entries l) \<and> commit_index l \<le> last_index l"
  using fold_applied [OF _ assms(2)] assms(1)
  by (simp add: applied_def new_log_def last_index_def)

abbreviation plain_entry :: "int \<Rightarrow> sim_entry" where
  "plain_entry i \<equiv> \<lparr>e_index = i, e_term = 1, e_command = JNull, e_trigger_type = DELTA,
     e_partition_epoch = 0\<rparr>"

theorem commits_apply_each_entry_once_witness:
  "fold log_do [Append (plain_entry 1), Append (plain_entry 2), Commit 1, Truncate 2,
      Append (plain_entry 3), Commit 9] ([], new_log) =
     ([plain_entry 1, plain_entry 3],
      \<lparr>entries = [plain_entry 1, plain_entry 3], commit_index = 2, last_applied = 0\<rparr>) \<and>
   [plain_entry 1, plain_entry 3] = take (nat 2) [plain_entry 1, plain_entry 3]"
proof -
  let ?ops = "[Append (plain_entry 1), Append (plain_entry 2), Commit 1, Truncate 2,
      Append (plain_entry 3), Commit 9]"
  let ?l = "\<lparr>entries = [plain_entry 1, plain_entry 3], commit_index = 2, last_applied = 0\<rparr>"
  have run: "fold log_do ?ops ([], new_log) = ([plain_entry 1, plain_entry 3], ?l)"
    by (simp add: new_log_def append_log_def commit_def truncate_from_def last_index_def
        py_bound_def py_upto_def)
  have "keeps_committed ?ops ([], new_log)"
    by (simp add: new_log_def append_log_def commit_def truncate_from_def last_index_def
        py_bound_def py_upto_def)
  from commits_apply_each_entry_once [OF run this] run show ?thesis by simp
qed

end
