(* ===== verification/SimConfig.thy ===== *)
theory SimConfig
  imports Prelude
begin

text \<open>
  The constants of \<open>simulation/core/config.py\<close>: times in milliseconds, battery thresholds in
  percent, energy costs in battery units on the scale from 0 to 1. A name that
  \<open>rpi/config.py\<close> uses too carries the suffix \<open>_sim\<close>.
\<close>

definition ELECTION_TIMEOUT_MIN_sim :: int where "ELECTION_TIMEOUT_MIN_sim = 150"
definition ELECTION_TIMEOUT_MAX_sim :: int where "ELECTION_TIMEOUT_MAX_sim = 300"
definition LIVENESS_PING_INTERVAL_sim :: int where "LIVENESS_PING_INTERVAL_sim = 50"
definition PARTITION_TIMEOUT :: int where "PARTITION_TIMEOUT = 2000"

definition T_LOW_sim :: int where "T_LOW_sim = 15"
definition T_RESTORE_sim :: int where "T_RESTORE_sim = 25"

definition DELTA_THRESHOLD_sim :: rat where "DELTA_THRESHOLD_sim = 5 / 100"
definition SAMPLE_INTERVAL :: int where "SAMPLE_INTERVAL = 100"

definition BATCH_WINDOW_MS :: int where "BATCH_WINDOW_MS = 50"
definition MAX_BATCH_SIZE_sim :: nat where "MAX_BATCH_SIZE_sim = 10"

definition ECHOD_PING_MAX_INTERVAL_sim :: int where "ECHOD_PING_MAX_INTERVAL_sim = 250"
definition LIVENESS_BACKOFF_FACTOR_sim :: rat where "LIVENESS_BACKOFF_FACTOR_sim = 2"
definition LEAF_KEEPALIVE_INTERVAL_sim :: int where "LEAF_KEEPALIVE_INTERVAL_sim = 1000"

definition ECHOD_ELECTION_TIMEOUT_MIN_sim :: int where "ECHOD_ELECTION_TIMEOUT_MIN_sim = 300"
definition ECHOD_ELECTION_TIMEOUT_MAX_sim :: int where "ECHOD_ELECTION_TIMEOUT_MAX_sim = 600"
definition ELECTION_TIE_BREAK_MS :: int where "ELECTION_TIE_BREAK_MS = 30"

definition T_HANDOFF_sim :: int where "T_HANDOFF_sim = 20"

definition ENERGY_TX_COST :: rat where "ENERGY_TX_COST = 1 / 10000"
definition ENERGY_RX_COST :: rat where "ENERGY_RX_COST = 2 / 100000"

definition DRAIN_MULT_LEADER :: rat where "DRAIN_MULT_LEADER = 3"
definition DRAIN_MULT_CANDIDATE :: rat where "DRAIN_MULT_CANDIDATE = 2"
definition DRAIN_MULT_FOLLOWER :: rat where "DRAIN_MULT_FOLLOWER = 1"
definition DRAIN_MULT_OBSERVER :: rat where "DRAIN_MULT_OBSERVER = 2 / 10"
definition DRAIN_MULT_LEAF :: rat where "DRAIN_MULT_LEAF = 5 / 10"

lemmas sim_config_defs =
  ELECTION_TIMEOUT_MIN_sim_def ELECTION_TIMEOUT_MAX_sim_def LIVENESS_PING_INTERVAL_sim_def
  PARTITION_TIMEOUT_def T_LOW_sim_def T_RESTORE_sim_def DELTA_THRESHOLD_sim_def
  SAMPLE_INTERVAL_def BATCH_WINDOW_MS_def MAX_BATCH_SIZE_sim_def ECHOD_PING_MAX_INTERVAL_sim_def
  LIVENESS_BACKOFF_FACTOR_sim_def LEAF_KEEPALIVE_INTERVAL_sim_def
  ECHOD_ELECTION_TIMEOUT_MIN_sim_def ECHOD_ELECTION_TIMEOUT_MAX_sim_def ELECTION_TIE_BREAK_MS_def
  T_HANDOFF_sim_def ENERGY_TX_COST_def ENERGY_RX_COST_def DRAIN_MULT_LEADER_def
  DRAIN_MULT_CANDIDATE_def DRAIN_MULT_FOLLOWER_def DRAIN_MULT_OBSERVER_def DRAIN_MULT_LEAF_def

end
