(* ===== verification/SimMessages.thy ===== *)
theory SimMessages
  imports SimLog SimConfig
begin

text \<open>
  \<open>simulation/core/messages.py\<close>: node states, the RPC dataclasses and the envelope. The
  dataclasses are frozen, so a message is a value. Left out are the timestamps and the
  signature and capabilities fields, which no code of the simulation reads.
\<close>

text \<open>The members of the enums \<open>NodeState\<close> (the first five) and \<open>LeafState\<close>; a node's state
  is a member of either.\<close>

datatype sim_state =
    FOLLOWER | CANDIDATE | LEADER | OBSERVER | LOCAL_LEADER
  | UNREGISTERED | ACTIVE | SEARCHING

datatype rpc =
    RequestVoteRPC (q_term: int) (q_candidate_id: string) (q_last_log_index: int)
      (q_last_log_term: int) (q_battery_level: int)
  | RequestVoteResponse (v_term: int) (v_vote_granted: bool) (v_voter_id: string)
      (v_voter_battery: int)
  | AppendEntriesRPC (a_term: int) (a_leader_id: string) (a_prev_log_index: int)
      (a_prev_log_term: int) (a_entries: "sim_entry list") (a_leader_commit: int)
      (a_trigger_type: trigger_type) (a_partition_epoch: int)
  | AppendEntriesResponse (r_term: int) (r_success: bool) (r_responder_id: string)
      (r_match_index: int) (r_responder_battery: int)
  | LivenessPingMsg (p_term: int) (p_leader_id: string)
  | LeadershipHandoffMsg (h_term: int) (h_leader_id: string)
  | LeafRegisterRequest (l_leaf_id: string)
  | LeafRegisterReply (l_accepted: bool) (l_coordinator_id: string) (l_term: int)
  | SensorDataReport (s_leaf_id: string) (s_sensor_type: string) (s_value: rat)

text \<open>\<open>type(payload).__name__\<close>\<close>

fun type_name :: "rpc \<Rightarrow> string" where
  "type_name (RequestVoteRPC _ _ _ _ _) = ''RequestVoteRPC''"
| "type_name (RequestVoteResponse _ _ _ _) = ''RequestVoteResponse''"
| "type_name (AppendEntriesRPC _ _ _ _ _ _ _ _) = ''AppendEntriesRPC''"
| "type_name (AppendEntriesResponse _ _ _ _ _) = ''AppendEntriesResponse''"
| "type_name (LivenessPingMsg _ _) = ''LivenessPing''"
| "type_name (LeadershipHandoffMsg _ _) = ''LeadershipHandoff''"
| "type_name (LeafRegisterRequest _) = ''LeafRegisterRequest''"
| "type_name (LeafRegisterReply _ _ _) = ''LeafRegisterResponse''"
| "type_name (SensorDataReport _ _ _) = ''SensorDataReport''"

record message =
  sender_id :: string
  recipient_id :: string
  payload_of :: rpc

end
