(* ===== verification/SimMetrics.thy ===== *)
theory SimMetrics
  imports SimMessages
begin

text \<open>
  \<open>simulation/metrics/collector.py\<close>: the collector that the message bus calls for every
  delivered message, and the figures it reports. \<open>time.monotonic()\<close> reads the clock tape.
\<close>

section \<open>State\<close>

record consensus_round =
  trigger_time :: rat
  commit_time :: "rat option"
  messages :: nat
  round_trigger_type :: trigger_type

text \<open>
  \<open>_active_round\<close> is a reference that leaves the collector when the round is appended to
  \<open>rounds\<close> and is set to \<open>None\<close> in the same step, so rounds are values.
\<close>

record metrics =
  rounds :: "consensus_round list"
  active_round :: "consensus_round option"
  total_messages_m :: nat
  leader_changes_m :: nat
  last_leader :: "string option"
  messages_by_type :: "(string, nat) dict"
  energy_snapshots :: "(string, rat list) dict"
  cluster_up_time :: rat
  cluster_down_time :: rat
  last_check :: rat

definition new_metrics :: "world \<Rightarrow> metrics \<times> world" where
  "new_metrics w =
     (let (now, w) = monotonic w
      in (\<lparr>rounds = [], active_round = None, total_messages_m = 0, leader_changes_m = 0,
           last_leader = None, messages_by_type = [], energy_snapshots = [],
           cluster_up_time = 0, cluster_down_time = 0, last_check = now\<rparr>, w))"


section \<open>Hooks\<close>

text \<open>The three \<open>if\<close> blocks of \<open>on_message\<close>, in the order of the code.\<close>

definition count_message :: "rpc \<Rightarrow> metrics \<Rightarrow> metrics" where
  "count_message p m =
     m\<lparr>total_messages_m := total_messages_m m + 1,
       messages_by_type := bump (type_name p) (messages_by_type m),
       active_round := map_option (\<lambda>r. r\<lparr>messages := messages r + 1\<rparr>) (active_round m)\<rparr>"

definition open_round :: "rpc \<Rightarrow> metrics \<Rightarrow> world \<Rightarrow> metrics \<times> world" where
  "open_round p m w =
     (case p of
        AppendEntriesRPC _ _ _ _ es _ trig _ \<Rightarrow>
          if es \<noteq> [] \<and> active_round m = None
          then (let (now, w) = monotonic w
                in (m\<lparr>active_round := Some \<lparr>trigger_time = now, commit_time = None,
                       messages = 0, round_trigger_type = trig\<rparr>\<rparr>, w))
          else (m, w)
      | _ \<Rightarrow> (m, w))"

definition close_round :: "rpc \<Rightarrow> metrics \<Rightarrow> world \<Rightarrow> metrics \<times> world" where
  "close_round p m w =
     (case p of
        AppendEntriesResponse _ success _ _ _ \<Rightarrow>
          (case active_round m of
             Some r \<Rightarrow>
               if success \<and> commit_time r = None
               then (let (now, w) = monotonic w
                     in (m\<lparr>rounds := rounds m @ [r\<lparr>commit_time := Some now\<rparr>],
                           active_round := None\<rparr>, w))
               else (m, w)
           | None \<Rightarrow> (m, w))
      | _ \<Rightarrow> (m, w))"

definition on_message :: "message \<Rightarrow> metrics \<Rightarrow> world \<Rightarrow> metrics \<times> world" where
  "on_message msg m w =
     (let p = payload_of msg;
          m = count_message p m;
          (m, w) = open_round p m w
      in close_round p m w)"

definition record_leader_change :: "string \<Rightarrow> metrics \<Rightarrow> metrics" where
  "record_leader_change new m =
     (if Some new \<noteq> last_leader m
      then m\<lparr>leader_changes_m := leader_changes_m m + 1, last_leader := Some new\<rparr> else m)"

definition snapshot_energy :: "string \<Rightarrow> rat \<Rightarrow> metrics \<Rightarrow> metrics" where
  "snapshot_energy n b m =
     m\<lparr>energy_snapshots := dput n (dget_or (energy_snapshots m) n [] @ [b]) (energy_snapshots m)\<rparr>"

definition record_availability :: "bool \<Rightarrow> metrics \<Rightarrow> world \<Rightarrow> metrics \<times> world" where
  "record_availability has_leader m w =
     (let (now, w) = monotonic w;
          dt = now - last_check m;
          m = (if has_leader then m\<lparr>cluster_up_time := cluster_up_time m + dt\<rparr>
               else m\<lparr>cluster_down_time := cluster_down_time m + dt\<rparr>)
      in (m\<lparr>last_check := now\<rparr>, w))"


section \<open>Computed metrics\<close>

definition consensus_latencies_ms :: "metrics \<Rightarrow> rat list" where
  "consensus_latencies_ms m =
     List.map_filter (\<lambda>r. map_option (\<lambda>c. (c - trigger_time r) * 1000) (commit_time r)) (rounds m)"

definition avg_consensus_latency_ms :: "metrics \<Rightarrow> rat" where
  "avg_consensus_latency_ms m =
     (let lats = consensus_latencies_ms m
      in if lats \<noteq> [] then sum_list lats / of_nat (length lats) else 0)"

definition avg_messages_per_round :: "metrics \<Rightarrow> rat" where
  "avg_messages_per_round m =
     (if rounds m = [] then 0
      else of_nat (sum_list (map messages (rounds m))) / of_nat (length (rounds m)))"

definition energy_per_node :: "metrics \<Rightarrow> (string, rat) dict" where
  "energy_per_node m =
     List.map_filter (\<lambda>(n, rs). if rs \<noteq> [] then Some (n, hd rs - last rs) else None)
       (energy_snapshots m)"

definition availability_pct :: "metrics \<Rightarrow> rat" where
  "availability_pct m =
     (let total = cluster_up_time m + cluster_down_time m
      in if total = 0 then 100 else cluster_up_time m / total * 100)"

record metrics_summary =
  sum_total_messages :: nat
  sum_messages_by_type :: "(string, nat) dict"
  sum_consensus_rounds :: nat
  sum_avg_latency_ms :: rat
  sum_avg_messages :: rat
  sum_leader_changes :: nat
  sum_availability_pct :: rat
  sum_energy_per_node :: "(string, rat) dict"

definition summary :: "metrics \<Rightarrow> metrics_summary" where
  "summary m = \<lparr>
     sum_total_messages = total_messages_m m,
     sum_messages_by_type = sort_key fst (messages_by_type m),
     sum_consensus_rounds = length (rounds m),
     sum_avg_latency_ms = py_round (avg_consensus_latency_ms m) 3,
     sum_avg_messages = py_round (avg_messages_per_round m) 1,
     sum_leader_changes = leader_changes_m m,
     sum_availability_pct = py_round (availability_pct m) 2,
     sum_energy_per_node = map (\<lambda>(k, v). (k, py_round v 4)) (energy_per_node m)\<rparr>"


section \<open>Exported rows\<close>

text \<open>
  \<open>simulation/metrics/reporter.py\<close>: the rows of the two CSV files, in the order of their
  columns; a dict of collectors is listed in insertion order.
\<close>

record csv_row =
  row_protocol :: string
  row_total_messages :: nat
  row_consensus_rounds :: nat
  row_avg_consensus_latency_ms :: rat
  row_avg_messages_per_round :: rat
  row_leader_changes :: nat
  row_availability_pct :: rat

definition export_csv :: "(string, metrics) dict \<Rightarrow> csv_row list" where
  "export_csv cols = map (\<lambda>(name, col). let r = summary col in
     \<lparr>row_protocol = name,
      row_total_messages = sum_total_messages r,
      row_consensus_rounds = sum_consensus_rounds r,
      row_avg_consensus_latency_ms = sum_avg_latency_ms r,
      row_avg_messages_per_round = sum_avg_messages r,
      row_leader_changes = sum_leader_changes r,
      row_availability_pct = sum_availability_pct r\<rparr>) cols"

definition export_energy_csv :: "(string, metrics) dict \<Rightarrow> (string \<times> string \<times> rat) list" where
  "export_energy_csv cols = concat (map (\<lambda>(name, col).
     map (\<lambda>(n, energy). (name, n, py_round energy 6)) (energy_per_node col)) cols)"

end
