(* ===== verification/SimNode.thy ===== *)
theory SimNode
  imports SimMetrics
begin

text \<open>
  The nodes of the simulation, the message bus and the cluster they share:
  \<open>simulation/core/node.py\<close>, the bus of \<open>simulation/core/cluster.py\<close> and the message hook of
  \<open>simulation/main.py\<close>.

  All nodes of a run live in one cluster object and change each other: sending a message
  drains the batteries of its two ends, and a drained coordinator turns observer in the
  middle of whatever its handler is doing. So the state is one \<open>cluster\<close> record, whose
  \<open>heap\<close> holds the node objects by \<open>node_id\<close>, and every method takes the id of \<open>self\<close>. No
  coroutine of the simulation suspends inside a handler, so a handler is one step.
\<close>

section \<open>Node objects\<close>

text \<open>The class of a node, which decides what a method call dispatches to.\<close>

datatype node_class = RaftNode | EchoCoordinator | EchoDCoordinator | EchoLeaf | EchoDLeaf

text \<open>
  One record for all classes; a field a class does not have keeps its default. \<open>attached\<close>
  says that the back reference \<open>self.cluster\<close> is set.
\<close>

record sim_node =
  cls :: node_class
  battery :: rat
  current_term :: int
  voted_for :: "string option"
  log :: replicated_log
  state :: sim_state
  attached :: bool
  inbox :: "message list"
  running :: bool
  \<comment> \<open>\<open>CoordinatorNode\<close>\<close>
  election_deadline :: rat
  votes_received :: "(string, int) dict"
  next_index :: "(string, int) dict"
  match_index :: "(string, int) dict"
  last_ping_time :: rat
  leaves :: "string list"
  last_sensor :: "(string, rat) dict"
  partition_epoch :: int
  current_leader_id :: "string option"
  peer_batteries :: "(string, int) dict"
  \<comment> \<open>\<open>EchoCoordinator\<close>\<close>
  partition_detect_time :: "rat option"
  pending_triggers :: "(json \<times> trigger_type) list"
  \<comment> \<open>\<open>EchoDCoordinator\<close>\<close>
  tie_break_ms :: int
  batch_buffer :: "json list"
  batch_deadline :: "rat option"
  ping_interval_ms :: rat
  last_consensus_activity :: rat
  last_leaf_keepalive :: rat
  handoff_sent :: bool
  \<comment> \<open>\<open>LeafNode\<close> and \<open>EchoDLeaf\<close>\<close>
  sensor_type :: string
  coordinator_id :: "string option"
  auto_report :: bool
  last_coordinator_contact :: rat
  last_sample_time :: rat
  sensor_value :: rat
  last_transmitted :: "rat option"
  suppressed_count :: nat

text \<open>\<open>tier\<close> is \<open>coordinator\<close> or \<open>leaf\<close>.\<close>

definition coordinator_tier :: "sim_node \<Rightarrow> bool" where
  "coordinator_tier n \<longleftrightarrow> cls n \<noteq> EchoLeaf \<and> cls n \<noteq> EchoDLeaf"

definition battery_pct :: "sim_node \<Rightarrow> int" where
  "battery_pct n = py_int (battery n * 100)"

text \<open>\<open>Node.__init__\<close>, with the defaults of the subclasses' fields.\<close>

definition new_node :: "node_class \<Rightarrow> rat \<Rightarrow> sim_node" where
  "new_node k b = \<lparr>cls = k, battery = b, current_term = 0, voted_for = None, log = new_log,
     state = (if k = EchoLeaf \<or> k = EchoDLeaf then UNREGISTERED else FOLLOWER),
     attached = False, inbox = [], running = False,
     election_deadline = 0, votes_received = [], next_index = [], match_index = [],
     last_ping_time = 0, leaves = [], last_sensor = [], partition_epoch = 0,
     current_leader_id = None, peer_batteries = [],
     partition_detect_time = None, pending_triggers = [],
     tie_break_ms = 0, batch_buffer = [], batch_deadline = None,
     ping_interval_ms = of_int LIVENESS_PING_INTERVAL_sim, last_consensus_activity = 0,
     last_leaf_keepalive = 0, handoff_sent = False,
     sensor_type = [], coordinator_id = None, auto_report = True,
     last_coordinator_contact = 0, last_sample_time = 0, sensor_value = 0,
     last_transmitted = None, suppressed_count = 0\<rparr>"

text \<open>\<open>tick_battery\<close>: drain, and the observer gate of the coordinator tier.\<close>

definition tick_battery :: "rat \<Rightarrow> sim_node \<Rightarrow> sim_node" where
  "tick_battery delta n =
     (let n = n\<lparr>battery := max 0 (min 1 (battery n - delta))\<rparr>;
          pct = battery n * 100
      in if \<not> coordinator_tier n then n
         else if pct < of_int T_LOW_sim \<and> state n \<noteq> OBSERVER
           then n\<lparr>state := OBSERVER, voted_for := None\<rparr>
         else if pct \<ge> of_int T_RESTORE_sim \<and> state n = OBSERVER
           then n\<lparr>state := FOLLOWER\<rparr>
         else n)"

definition step_down_sim :: "int \<Rightarrow> sim_node \<Rightarrow> sim_node" where
  "step_down_sim t n =
     (let n = n\<lparr>current_term := t, voted_for := None\<rparr>
      in if coordinator_tier n \<and> state n \<in> {CANDIDATE, LEADER, LOCAL_LEADER}
         then n\<lparr>state := FOLLOWER\<rparr> else n)"


section \<open>The cluster and its message bus\<close>

text \<open>
  \<open>members\<close> are the keys of \<open>Cluster.nodes\<close> and \<open>bus_nodes\<close> those of \<open>MessageBus._nodes\<close>, in
  insertion order. \<open>energy_hook\<close> says that \<open>on_message\<close> is the hook \<open>run_scenario\<close> installs
  (otherwise \<open>None\<close>); \<open>collector\<close> is the collector it feeds. \<open>tasks\<close> are the ids with a
  running task.
\<close>

record cluster =
  heap :: "string \<Rightarrow> sim_node"
  members :: "string list"
  bus_nodes :: "string list"
  partitions :: "string set list"
  energy_hook :: bool
  total_messages :: nat
  collector :: metrics
  tasks :: "string list"
  failed :: "string list"
  sim_start :: rat
  env :: world

definition upd :: "string \<Rightarrow> (sim_node \<Rightarrow> sim_node) \<Rightarrow> cluster \<Rightarrow> cluster" where
  "upd i f c = c\<lparr>heap := (heap c)(i := f (heap c i))\<rparr>"

definition now :: "cluster \<Rightarrow> rat \<times> cluster" where
  "now c = (let (t, w) = monotonic (env c) in (t, c\<lparr>env := w\<rparr>))"

text \<open>\<open>self.cluster.nodes.items()\<close> filtered by the coordinator tier.\<close>

definition coordinator_ids :: "cluster \<Rightarrow> string list" where
  "coordinator_ids c = filter (\<lambda>i. coordinator_tier (heap c i)) (members c)"

definition can_reach :: "string \<Rightarrow> string \<Rightarrow> cluster \<Rightarrow> bool" where
  "can_reach src dst c \<longleftrightarrow>
     partitions c = [] \<or> (\<exists>g\<in>set (partitions c). src \<in> g \<and> dst \<in> g)"

definition deliver :: "message \<Rightarrow> sim_node \<Rightarrow> sim_node" where
  "deliver msg n = n\<lparr>inbox := inbox n @ [msg]\<rparr>"

text \<open>The hook of \<open>run_scenario\<close>: count the message, then drain both ends.\<close>

definition run_hook :: "message \<Rightarrow> cluster \<Rightarrow> cluster" where
  "run_hook msg c =
     (let (m, w) = on_message msg (collector c) (env c);
          c = c\<lparr>collector := m, env := w\<rparr>;
          src = sender_id msg;
          dst = recipient_id msg;
          c = (if src \<in> set (members c) then upd src (tick_battery ENERGY_TX_COST) c else c)
      in if dst \<in> set (members c) then upd dst (tick_battery ENERGY_RX_COST) c else c)"

definition route :: "message \<Rightarrow> cluster \<Rightarrow> bool \<times> cluster" where
  "route msg c =
     (if recipient_id msg \<notin> set (bus_nodes c) then (False, c)
      else if \<not> can_reach (sender_id msg) (recipient_id msg) c then (False, c)
      else (let c = upd (recipient_id msg) (deliver msg) c;
                c = c\<lparr>total_messages := total_messages c + 1\<rparr>;
                c = (if energy_hook c then run_hook msg c else c)
            in (True, c)))"

definition send_msg :: "string \<Rightarrow> string \<Rightarrow> rpc \<Rightarrow> cluster \<Rightarrow> cluster" where
  "send_msg self recipient p c =
     (if \<not> attached (heap c self) then c
      else snd (route \<lparr>sender_id = self, recipient_id = recipient, payload_of = p\<rparr> c))"

text \<open>A loop that sends one payload to each of a list of nodes.\<close>

definition send_each :: "string \<Rightarrow> rpc \<Rightarrow> string list \<Rightarrow> cluster \<Rightarrow> cluster" where
  "send_each self p is c = fold (\<lambda>i c. send_msg self i p c) is c"

definition broadcast_msg :: "string \<Rightarrow> rpc \<Rightarrow> cluster \<Rightarrow> cluster" where
  "broadcast_msg self p c =
     (if \<not> attached (heap c self) then c
      else send_each self p (filter (\<lambda>i. i \<noteq> self) (members c)) c)"

lemma heap_upd [simp]: "heap (upd i f c) j = (if j = i then f (heap c i) else heap c j)"
  by (simp add: upd_def)

lemma upd_frame [simp, frame]:
  "members (upd i f c) = members c" "bus_nodes (upd i f c) = bus_nodes c"
  "partitions (upd i f c) = partitions c" "energy_hook (upd i f c) = energy_hook c"
  "total_messages (upd i f c) = total_messages c" "collector (upd i f c) = collector c"
  "tasks (upd i f c) = tasks c" "failed (upd i f c) = failed c" "env (upd i f c) = env c"
  "sim_start (upd i f c) = sim_start c"
  by (simp_all add: upd_def)

end
