(* ===== verification/SimCoordinator.thy ===== *)
theory SimCoordinator
  imports SimNode
begin

text \<open>
  \<open>simulation/core/coordinator.py\<close> and the coordinator classes that override its methods:
  \<open>RaftNode\<close> (\<open>protocols/raft.py\<close>), \<open>EchoCoordinator\<close> (\<open>protocols/echo.py\<close>) and
  \<open>EchoDCoordinator\<close> (\<open>protocols/echod.py\<close>). A method that a subclass overrides has one
  definition per class, suffixed \<open>_base\<close>, \<open>_raft\<close>, \<open>_echo\<close> or \<open>_echod\<close>, and one that
  dispatches on the class of \<open>self\<close>; \<open>super()\<close> is the definition of the parent.
\<close>

section \<open>Timers\<close>

definition new_election_deadline_base :: "string \<Rightarrow> cluster \<Rightarrow> rat \<times> cluster" where
  "new_election_deadline_base self c =
     (let (ms, w) = randint ELECTION_TIMEOUT_MIN_sim ELECTION_TIMEOUT_MAX_sim (env c);
          timeout_s = of_int ms / 1000;
          (t, c) = now (c\<lparr>env := w\<rparr>)
      in (t + timeout_s, c))"

definition echod_timeout_ms :: "sim_node \<Rightarrow> rat" where
  "echod_timeout_ms n =
     (let spread = of_int (ECHOD_ELECTION_TIMEOUT_MAX_sim - ECHOD_ELECTION_TIMEOUT_MIN_sim)
      in of_int ECHOD_ELECTION_TIMEOUT_MIN_sim + (1 - battery n) * spread + of_int (tie_break_ms n))"

definition new_election_deadline_echod :: "string \<Rightarrow> cluster \<Rightarrow> rat \<times> cluster" where
  "new_election_deadline_echod self c =
     (let timeout_ms = echod_timeout_ms (heap c self);
          (t, c) = now c
      in (t + timeout_ms / 1000, c))"

definition new_election_deadline_sim :: "string \<Rightarrow> cluster \<Rightarrow> rat \<times> cluster" where
  "new_election_deadline_sim self c =
     (if cls (heap c self) = EchoDCoordinator then new_election_deadline_echod self c
      else new_election_deadline_base self c)"

definition reset_election_timer_sim :: "string \<Rightarrow> cluster \<Rightarrow> cluster" where
  "reset_election_timer_sim self c =
     (let (d, c) = new_election_deadline_sim self c
      in upd self (\<lambda>n. n\<lparr>election_deadline := d\<rparr>) c)"

text \<open>How long the event loop may block on the inbox.\<close>

definition wakeup_interval_node :: rat where
  "wakeup_interval_node = 5 / 100"

definition wakeup_interval_base :: "string \<Rightarrow> cluster \<Rightarrow> rat \<times> cluster" where
  "wakeup_interval_base self c =
     (let base = wakeup_interval_node
      in if state (heap c self) \<in> {LEADER, LOCAL_LEADER, OBSERVER} then (base, c)
         else (let (t, c) = now c;
                   remaining = election_deadline (heap c self) - t
               in (max (1 / 1000) (min base remaining), c)))"

definition wakeup_interval_echod :: "string \<Rightarrow> cluster \<Rightarrow> rat \<times> cluster" where
  "wakeup_interval_echod self c =
     (let (base, c) = wakeup_interval_base self c
      in if state (heap c self) \<notin> {LEADER, LOCAL_LEADER} then (base, c)
         else (let (t, c) = now c;
                   n = heap c self;
                   wake = base;
                   wake = (case batch_deadline n of
                       None \<Rightarrow> wake
                     | Some d \<Rightarrow> min wake (max (1 / 1000) (d - t)));
                   next_ping = last_ping_time n + ping_interval_ms n / 1000
               in (min wake (max (1 / 1000) (next_ping - t)), c)))"


section \<open>Liveness pings\<close>

definition send_liveness_ping_base :: "string \<Rightarrow> cluster \<Rightarrow> cluster" where
  "send_liveness_ping_base self c =
     broadcast_msg self (LivenessPingMsg (current_term (heap c self)) self) c"

text \<open>\<open>if self.cluster:\<close> and the loop over the other coordinators, as echoD writes it.\<close>

definition send_coordinators :: "string \<Rightarrow> rpc \<Rightarrow> cluster \<Rightarrow> cluster" where
  "send_coordinators self p c =
     (if attached (heap c self)
      then send_each self p (filter (\<lambda>i. i \<noteq> self) (coordinator_ids c)) c else c)"

definition backed_off :: "sim_node \<Rightarrow> rat" where
  "backed_off n =
     (if last_consensus_activity n \<ge> last_ping_time n then of_int LIVENESS_PING_INTERVAL_sim
      else min (ping_interval_ms n * LIVENESS_BACKOFF_FACTOR_sim)
             (of_int ECHOD_PING_MAX_INTERVAL_sim))"

definition send_liveness_ping_echod :: "string \<Rightarrow> cluster \<Rightarrow> cluster" where
  "send_liveness_ping_echod self c =
     (let c = send_coordinators self (LivenessPingMsg (current_term (heap c self)) self) c
      in upd self (\<lambda>n. n\<lparr>ping_interval_ms := backed_off n\<rparr>) c)"

definition send_liveness_ping_sim :: "string \<Rightarrow> cluster \<Rightarrow> cluster" where
  "send_liveness_ping_sim self c =
     (if cls (heap c self) = EchoDCoordinator then send_liveness_ping_echod self c
      else send_liveness_ping_base self c)"

definition handle_liveness_ping_coord :: "string \<Rightarrow> string \<Rightarrow> rpc \<Rightarrow> cluster \<Rightarrow> cluster" where
  "handle_liveness_ping_coord self sender p c =
     (if p_term p \<ge> current_term (heap c self)
      then (let c = (if p_term p > current_term (heap c self)
                     then upd self (step_down_sim (p_term p)) c else c);
                c = upd self (\<lambda>n. n\<lparr>current_leader_id := Some (p_leader_id p)\<rparr>) c
            in reset_election_timer_sim self c)
      else c)"


section \<open>Log replication\<close>

definition send_append_entries_sim :: "string \<Rightarrow> string \<Rightarrow> cluster \<Rightarrow> cluster" where
  "send_append_entries_sim self peer c =
     (let n = heap c self;
          prev_idx = dget_or (next_index n) peer 1 - 1
      in send_msg self peer
           (AppendEntriesRPC (current_term n) self prev_idx (term_at prev_idx (log n))
              (entries_from (prev_idx + 1) (log n)) (commit_index (log n)) DELTA
              (partition_epoch n)) c)"

text \<open>\<open>for nid in list(self.next_index)\<close>\<close>

definition send_all_append_entries :: "string \<Rightarrow> cluster \<Rightarrow> cluster" where
  "send_all_append_entries self c =
     fold (send_append_entries_sim self) (keys (next_index (heap c self))) c"

definition replicate_entry_sim :: "string \<Rightarrow> json \<Rightarrow> trigger_type \<Rightarrow> cluster \<Rightarrow> cluster" where
  "replicate_entry_sim self cmd trig c =
     (let n = heap c self;
          e = \<lparr>e_index = last_index (log n) + 1, e_term = current_term n, e_command = cmd,
               e_trigger_type = trig, e_partition_epoch = partition_epoch n\<rparr>;
          c = upd self (\<lambda>n. n\<lparr>log := append_log e (log n)\<rparr>) c
      in if attached (heap c self) then send_all_append_entries self c else c)"

text \<open>The conflict rule for one received entry.\<close>

definition splice_entry :: "sim_entry \<Rightarrow> replicated_log \<Rightarrow> replicated_log" where
  "splice_entry e l =
     (let l = (case get (e_index e) l of
                 Some x \<Rightarrow> if e_term x \<noteq> e_term e then truncate_from (e_index e) l else l
               | None \<Rightarrow> l)
      in if last_index l < e_index e then append_log e l else l)"

definition accept_entries :: "rpc \<Rightarrow> replicated_log \<Rightarrow> replicated_log" where
  "accept_entries p l =
     (let l = fold splice_entry (a_entries p) l
      in if a_leader_commit p > commit_index l
         then snd (commit (min (a_leader_commit p) (last_index l)) l) else l)"

definition append_reply :: "string \<Rightarrow> string \<Rightarrow> bool \<Rightarrow> int \<Rightarrow> cluster \<Rightarrow> cluster" where
  "append_reply self sender ok match c =
     send_msg self sender
       (AppendEntriesResponse (current_term (heap c self)) ok self match
          (battery_pct (heap c self))) c"

definition handle_append_entries_base :: "string \<Rightarrow> string \<Rightarrow> rpc \<Rightarrow> cluster \<Rightarrow> cluster" where
  "handle_append_entries_base self sender p c =
     (let c = (if a_term p > current_term (heap c self)
               then upd self (step_down_sim (a_term p)) c else c)
      in if a_term p < current_term (heap c self) then append_reply self sender False 0 c
         else (let c = reset_election_timer_sim self c;
                   c = upd self (\<lambda>n. n\<lparr>current_leader_id := Some (a_leader_id p)\<rparr>) c;
                   c = (if state (heap c self) = CANDIDATE
                        then upd self (\<lambda>n. n\<lparr>state := FOLLOWER\<rparr>) c else c)
               in if a_prev_log_index p > 0 \<and>
                     term_at (a_prev_log_index p) (log (heap c self)) \<noteq> a_prev_log_term p
                  then append_reply self sender False 0 c
                  else (let c = upd self (\<lambda>n. n\<lparr>log := accept_entries p (log n)\<rparr>) c
                        in append_reply self sender True (last_index (log (heap c self))) c)))"

text \<open>
  The commit rule: the candidates are \<open>range(last_index, commit_index, -1)\<close>, and the loop
  stops at the first index of the current term that a majority has.
\<close>

definition peer_coordinators :: "string \<Rightarrow> cluster \<Rightarrow> string list" where
  "peer_coordinators self c = filter (\<lambda>i. i \<noteq> self) (coordinator_ids c)"

definition repl_count :: "string \<Rightarrow> int \<Rightarrow> cluster \<Rightarrow> nat" where
  "repl_count self n c =
     1 + length (filter (\<lambda>i. dget_or (match_index (heap c self)) i 0 \<ge> n) (peer_coordinators self c))"

definition may_commit :: "string \<Rightarrow> cluster \<Rightarrow> int \<Rightarrow> bool" where
  "may_commit self c n =
     (case get n (log (heap c self)) of
        None \<Rightarrow> False
      | Some e \<Rightarrow> e_term e = current_term (heap c self) \<and>
          repl_count self n c > (length (peer_coordinators self c) + 1) div 2)"

definition try_advance_commit_sim :: "string \<Rightarrow> cluster \<Rightarrow> cluster" where
  "try_advance_commit_sim self c =
     (if \<not> attached (heap c self) then c
      else (let l = log (heap c self);
                ns = rev [commit_index l + 1..last_index l]
            in case find (may_commit self c) ns of
                 None \<Rightarrow> c
               | Some n \<Rightarrow> upd self (\<lambda>x. x\<lparr>log := snd (commit n (log x))\<rparr>) c))"

definition handle_append_entries_response_sim ::
    "string \<Rightarrow> string \<Rightarrow> rpc \<Rightarrow> cluster \<Rightarrow> cluster" where
  "handle_append_entries_response_sim self sender p c =
     (if r_term p > current_term (heap c self) then upd self (step_down_sim (r_term p)) c
      else (let c = (if r_responder_battery p \<noteq> 0
                     then upd self (\<lambda>n. n\<lparr>peer_batteries :=
                            dput sender (r_responder_battery p) (peer_batteries n)\<rparr>) c
                     else c)
            in if state (heap c self) \<noteq> LEADER then c
               else if r_success p
               then (let c = upd self (\<lambda>n. n\<lparr>
                             next_index := dput sender (r_match_index p + 1) (next_index n),
                             match_index := dput sender (r_match_index p) (match_index n)\<rparr>) c
                     in try_advance_commit_sim self c)
               else upd self (\<lambda>n. n\<lparr>next_index :=
                      dput sender (max 1 (dget_or (next_index n) sender 1 - 1)) (next_index n)\<rparr>) c))"


section \<open>Buffered triggers and provisional mode (ECHO)\<close>

definition is_leading :: "sim_node \<Rightarrow> bool" where
  "is_leading n \<longleftrightarrow> state n = LEADER \<or> state n = LOCAL_LEADER"

definition flush_pending_triggers_echo :: "string \<Rightarrow> cluster \<Rightarrow> cluster" where
  "flush_pending_triggers_echo self c =
     (let pending = pending_triggers (heap c self);
          c = upd self (\<lambda>n. n\<lparr>pending_triggers := []\<rparr>) c
      in fold (\<lambda>(cmd, trig) c. replicate_entry_sim self cmd trig c) pending c)"

definition batch_of :: "json list \<Rightarrow> json" where
  "batch_of cmds = JObj [(''batch'', JList cmds), (''count'', JInt (int (length cmds)))]"

definition flush_pending_triggers_echod :: "string \<Rightarrow> cluster \<Rightarrow> cluster" where
  "flush_pending_triggers_echod self c =
     (if pending_triggers (heap c self) = [] then c
      else (let pending = pending_triggers (heap c self);
                c = upd self (\<lambda>n. n\<lparr>pending_triggers := []\<rparr>) c;
                (t, c) = now c;
                c = upd self (\<lambda>n. n\<lparr>last_consensus_activity := t\<rparr>) c
            in if length pending = 1
               then replicate_entry_sim self (fst (hd pending)) (snd (hd pending)) c
               else replicate_entry_sim self (batch_of (map fst pending)) (snd (hd pending)) c))"

definition flush_pending_triggers_sim :: "string \<Rightarrow> cluster \<Rightarrow> cluster" where
  "flush_pending_triggers_sim self c =
     (if cls (heap c self) = EchoDCoordinator then flush_pending_triggers_echod self c
      else flush_pending_triggers_echo self c)"

definition trigger_consensus_sim :: "string \<Rightarrow> json \<Rightarrow> trigger_type \<Rightarrow> cluster \<Rightarrow> cluster" where
  "trigger_consensus_sim self cmd trig c =
     (if \<not> is_leading (heap c self)
      then upd self (\<lambda>n. n\<lparr>pending_triggers := pending_triggers n @ [(cmd, trig)]\<rparr>) c
      else replicate_entry_sim self cmd trig c)"

definition enter_provisional_mode_sim :: "string \<Rightarrow> cluster \<Rightarrow> cluster" where
  "enter_provisional_mode_sim self c =
     (let c = upd self (\<lambda>n. n\<lparr>partition_epoch := partition_epoch n + 1\<rparr>) c;
          c = (if state (heap c self) = LEADER
               then upd self (\<lambda>n. n\<lparr>state := LOCAL_LEADER\<rparr>) c else c);
          (t, c) = now c
      in upd self (\<lambda>n. n\<lparr>partition_detect_time := Some t\<rparr>) c)"

definition exit_provisional_mode_sim :: "sim_node \<Rightarrow> sim_node" where
  "exit_provisional_mode_sim n =
     (let n = (if state n = LOCAL_LEADER then n\<lparr>state := FOLLOWER\<rparr> else n)
      in n\<lparr>partition_epoch := 0, partition_detect_time := None\<rparr>)"

definition reconcile_log :: "sim_entry list \<Rightarrow> int \<Rightarrow> replicated_log \<Rightarrow> replicated_log" where
  "reconcile_log others other_commit l =
     (if other_commit > commit_index l
      then snd (commit other_commit (fold append_log others (truncate_from (commit_index l + 1) l)))
      else l)"

definition reconcile_sim :: "string \<Rightarrow> sim_entry list \<Rightarrow> int \<Rightarrow> cluster \<Rightarrow> cluster" where
  "reconcile_sim self others other_commit c =
     (let provisional = filter (\<lambda>e. e_partition_epoch e > 0) (entries_from 1 (log (heap c self)));
          c = upd self (\<lambda>n. n\<lparr>log := reconcile_log others other_commit (log n)\<rparr>) c;
          c = upd self exit_provisional_mode_sim c;
          c = upd self (\<lambda>n. n\<lparr>pending_triggers := pending_triggers n @
                map (\<lambda>e. (e_command e, e_trigger_type e)) provisional\<rparr>) c
      in flush_pending_triggers_sim self c)"

definition handle_append_entries_echo :: "string \<Rightarrow> string \<Rightarrow> rpc \<Rightarrow> cluster \<Rightarrow> cluster" where
  "handle_append_entries_echo self sender p c =
     (let c = handle_append_entries_base self sender p c
      in if a_partition_epoch p > 0 \<and> partition_epoch (heap c self) = 0
         then enter_provisional_mode_sim self c else c)"

definition handle_append_entries_coord :: "string \<Rightarrow> string \<Rightarrow> rpc \<Rightarrow> cluster \<Rightarrow> cluster" where
  "handle_append_entries_coord self sender p c =
     (if cls (heap c self) = RaftNode then handle_append_entries_base self sender p c
      else handle_append_entries_echo self sender p c)"

end
