(* ===== verification/SimElection.thy ===== *)
theory SimElection
  imports SimCoordinator
begin

text \<open>
  Elections, sensor data, batching and the idle tick of the simulated coordinators
  (\<open>core/coordinator.py\<close> and \<open>protocols/{raft,echo,echod}.py\<close>).
\<close>

section \<open>Election\<close>

text \<open>What both versions of \<open>start_election\<close> do before they send.\<close>

definition stand :: "string \<Rightarrow> cluster \<Rightarrow> cluster" where
  "stand self c =
     (let c = upd self (\<lambda>n. n\<lparr>current_term := current_term n + 1, state := CANDIDATE,
            voted_for := Some self, votes_received := [(self, battery_pct n)]\<rparr>) c
      in reset_election_timer_sim self c)"

definition vote_request_sim :: "string \<Rightarrow> sim_node \<Rightarrow> rpc" where
  "vote_request_sim self n = RequestVoteRPC (current_term n) self (last_index (log n))
     (last_term (log n)) (battery_pct n)"

definition start_election_base :: "string \<Rightarrow> cluster \<Rightarrow> cluster" where
  "start_election_base self c =
     (if state (heap c self) = OBSERVER then c
      else (let c = stand self c
            in broadcast_msg self (vote_request_sim self (heap c self)) c))"

definition start_election_echod :: "string \<Rightarrow> cluster \<Rightarrow> cluster" where
  "start_election_echod self c =
     (if state (heap c self) = OBSERVER then c
      else (let c = stand self c
            in send_coordinators self (vote_request_sim self (heap c self)) c))"

definition start_election_sim :: "string \<Rightarrow> cluster \<Rightarrow> cluster" where
  "start_election_sim self c =
     (if cls (heap c self) = EchoDCoordinator then start_election_echod self c
      else start_election_base self c)"

definition vote_reply :: "string \<Rightarrow> string \<Rightarrow> bool \<Rightarrow> cluster \<Rightarrow> cluster" where
  "vote_reply self sender grant c =
     send_msg self sender
       (RequestVoteResponse (current_term (heap c self)) grant self (battery_pct (heap c self))) c"

definition grants_base :: "rpc \<Rightarrow> sim_node \<Rightarrow> bool" where
  "grants_base p n \<longleftrightarrow> q_term p = current_term n \<and> state n \<noteq> OBSERVER \<and>
     (voted_for n = None \<or> voted_for n = Some (q_candidate_id p)) \<and>
     is_up_to_date (log n) (q_last_log_index p) (q_last_log_term p)"

definition grants_echo :: "rpc \<Rightarrow> sim_node \<Rightarrow> bool" where
  "grants_echo p n \<longleftrightarrow> q_term p = current_term n \<and> state n \<noteq> OBSERVER \<and>
     q_battery_level p \<ge> T_LOW_sim \<and>
     (voted_for n = None \<or> voted_for n = Some (q_candidate_id p)) \<and>
     is_up_to_date (log n) (q_last_log_index p) (q_last_log_term p)"

definition handle_request_vote_by ::
    "(rpc \<Rightarrow> sim_node \<Rightarrow> bool) \<Rightarrow> string \<Rightarrow> string \<Rightarrow> rpc \<Rightarrow> cluster \<Rightarrow> cluster" where
  "handle_request_vote_by rule self sender p c =
     (let c = (if q_term p > current_term (heap c self)
               then upd self (step_down_sim (q_term p)) c else c)
      in if rule p (heap c self)
         then (let c = upd self (\<lambda>n. n\<lparr>voted_for := Some (q_candidate_id p)\<rparr>) c;
                   c = reset_election_timer_sim self c
               in vote_reply self sender True c)
         else vote_reply self sender False c)"

definition handle_request_vote_base :: "string \<Rightarrow> string \<Rightarrow> rpc \<Rightarrow> cluster \<Rightarrow> cluster" where
  "handle_request_vote_base = handle_request_vote_by grants_base"

definition handle_request_vote_echo :: "string \<Rightarrow> string \<Rightarrow> rpc \<Rightarrow> cluster \<Rightarrow> cluster" where
  "handle_request_vote_echo = handle_request_vote_by grants_echo"

definition handle_request_vote_sim :: "string \<Rightarrow> string \<Rightarrow> rpc \<Rightarrow> cluster \<Rightarrow> cluster" where
  "handle_request_vote_sim self sender p c =
     (if cls (heap c self) = RaftNode then handle_request_vote_base self sender p c
      else handle_request_vote_echo self sender p c)"

definition has_majority :: "string \<Rightarrow> cluster \<Rightarrow> bool" where
  "has_majority self c =
     (if \<not> attached (heap c self) then False
      else length (votes_received (heap c self)) > length (coordinator_ids c) div 2)"

definition become_leader_base :: "string \<Rightarrow> cluster \<Rightarrow> cluster" where
  "become_leader_base self c =
     (let c = upd self (\<lambda>n. n\<lparr>state := LEADER\<rparr>) c;
          c = (if attached (heap c self)
               then fold (\<lambda>i c. upd self (\<lambda>n. n\<lparr>
                        next_index := dput i (last_index (log n) + 1) (next_index n),
                        match_index := dput i 0 (match_index n)\<rparr>) c)
                      (peer_coordinators self c) c
               else c);
          (t, c) = now c;
          c = upd self (\<lambda>n. n\<lparr>last_ping_time := t\<rparr>) c
      in send_liveness_ping_sim self c)"

definition become_leader_echo :: "string \<Rightarrow> cluster \<Rightarrow> cluster" where
  "become_leader_echo self c = flush_pending_triggers_sim self (become_leader_base self c)"

definition become_leader_echod :: "string \<Rightarrow> cluster \<Rightarrow> cluster" where
  "become_leader_echod self c =
     (let c = upd self (\<lambda>n. n\<lparr>handoff_sent := False,
            ping_interval_ms := of_int LIVENESS_PING_INTERVAL_sim\<rparr>) c
      in become_leader_echo self c)"

definition become_leader_sim :: "string \<Rightarrow> cluster \<Rightarrow> cluster" where
  "become_leader_sim self c =
     (case cls (heap c self) of
        RaftNode \<Rightarrow> become_leader_base self c
      | EchoDCoordinator \<Rightarrow> become_leader_echod self c
      | _ \<Rightarrow> become_leader_echo self c)"

text \<open>\<open>EchoCoordinator\<close> overrides this method with the text of its parent.\<close>

definition handle_request_vote_response_base ::
    "string \<Rightarrow> string \<Rightarrow> rpc \<Rightarrow> cluster \<Rightarrow> cluster" where
  "handle_request_vote_response_base self sender p c =
     (if v_term p > current_term (heap c self) then upd self (step_down_sim (v_term p)) c
      else if state (heap c self) \<noteq> CANDIDATE \<or> v_term p \<noteq> current_term (heap c self) then c
      else (let c = (if v_vote_granted p
                     then upd self (\<lambda>n. n\<lparr>votes_received :=
                            dput sender (v_voter_battery p) (votes_received n)\<rparr>) c
                     else c)
            in if has_majority self c then become_leader_sim self c else c))"

definition handle_request_vote_response_echo ::
    "string \<Rightarrow> string \<Rightarrow> rpc \<Rightarrow> cluster \<Rightarrow> cluster" where
  "handle_request_vote_response_echo self sender p c =
     (if v_term p > current_term (heap c self) then upd self (step_down_sim (v_term p)) c
      else if state (heap c self) \<noteq> CANDIDATE \<or> v_term p \<noteq> current_term (heap c self) then c
      else (let c = (if v_vote_granted p
                     then upd self (\<lambda>n. n\<lparr>votes_received :=
                            dput sender (v_voter_battery p) (votes_received n)\<rparr>) c
                     else c)
            in if has_majority self c then become_leader_sim self c else c))"

definition handle_request_vote_response_sim ::
    "string \<Rightarrow> string \<Rightarrow> rpc \<Rightarrow> cluster \<Rightarrow> cluster" where
  "handle_request_vote_response_sim self sender p c =
     (if cls (heap c self) = RaftNode then handle_request_vote_response_base self sender p c
      else handle_request_vote_response_echo self sender p c)"

text \<open>\<open>max(values) or 1\<close>: a zero maximum is replaced.\<close>

definition election_score :: "sim_node \<Rightarrow> rat" where
  "election_score n =
     (if votes_received n = [] then 0
      else (let m = Max (set (map snd (votes_received n)));
                max_bat = (if m = 0 then 1 else m)
            in of_nat (length (votes_received n)) * (of_int (battery_pct n) / of_int max_bat)))"


section \<open>Leadership hand-off (echoD)\<close>

definition handoff_candidates_sim :: "string \<Rightarrow> cluster \<Rightarrow> (string \<times> int) list" where
  "handoff_candidates_sim self c =
     sort_key (\<lambda>(i, b). (- b, i))
       (map (\<lambda>i. (i, dget_or (peer_batteries (heap c self)) i 100))
         (filter (\<lambda>i. state (heap c i) \<noteq> OBSERVER) (peer_coordinators self c)))"

definition initiate_handoff_sim :: "string \<Rightarrow> cluster \<Rightarrow> cluster" where
  "initiate_handoff_sim self c =
     (let c = upd self (\<lambda>n. n\<lparr>handoff_sent := True\<rparr>) c
      in if \<not> attached (heap c self) then c
         else (let own = battery_pct (heap c self)
               in case handoff_candidates_sim self c of
                    [] \<Rightarrow> c
                  | (succ, succ_battery) # _ \<Rightarrow>
                      if succ_battery \<le> own then c
                      else (let c = send_msg self succ
                                  (LeadershipHandoffMsg (current_term (heap c self)) self) c;
                                c = upd self (\<lambda>n. n\<lparr>state := FOLLOWER\<rparr>) c
                            in reset_election_timer_sim self c)))"

definition handle_leadership_handoff_sim :: "string \<Rightarrow> string \<Rightarrow> rpc \<Rightarrow> cluster \<Rightarrow> cluster" where
  "handle_leadership_handoff_sim self sender p c =
     (if state (heap c self) = OBSERVER then c
      else if h_term p < current_term (heap c self) then c
      else (let c = (if h_term p > current_term (heap c self)
                     then upd self (step_down_sim (h_term p)) c else c)
            in start_election_sim self c))"


section \<open>Leaves and sensor data\<close>

definition handle_leaf_register_sim :: "string \<Rightarrow> string \<Rightarrow> rpc \<Rightarrow> cluster \<Rightarrow> cluster" where
  "handle_leaf_register_sim self sender p c =
     (let c = upd self (\<lambda>n. n\<lparr>leaves := py_add (l_leaf_id p) (leaves n)\<rparr>) c
      in send_msg self sender (LeafRegisterReply True self (current_term (heap c self))) c)"

definition sensor_key_sim :: "rpc \<Rightarrow> string" where
  "sensor_key_sim p = s_leaf_id p @ '':'' @ s_sensor_type p"

text \<open>\<open>abs(value - prev) / max(abs(prev), 1e-9) < DELTA_THRESHOLD\<close>\<close>

definition below_delta :: "rat \<Rightarrow> rat \<Rightarrow> bool" where
  "below_delta prev value \<longleftrightarrow>
     \<bar>value - prev\<bar> / max \<bar>prev\<bar> (1 / 1000000000) < DELTA_THRESHOLD_sim"

definition suppressed_sim :: "rpc \<Rightarrow> sim_node \<Rightarrow> bool" where
  "suppressed_sim p n =
     (case dget (last_sensor n) (sensor_key_sim p) of
        None \<Rightarrow> False
      | Some prev \<Rightarrow> below_delta prev (s_value p))"

definition sensor_command :: "rpc \<Rightarrow> json" where
  "sensor_command p = JObj [(''sensor'', JStr (s_sensor_type p)), (''value'', JFloat (s_value p)),
     (''leaf'', JStr (s_leaf_id p))]"

definition note_sensor :: "rpc \<Rightarrow> sim_node \<Rightarrow> sim_node" where
  "note_sensor p n = n\<lparr>last_sensor := dput (sensor_key_sim p) (s_value p) (last_sensor n)\<rparr>"

definition handle_sensor_data_base :: "string \<Rightarrow> string \<Rightarrow> rpc \<Rightarrow> cluster \<Rightarrow> cluster" where
  "handle_sensor_data_base self sender p c =
     (if state (heap c self) \<noteq> LEADER then c
      else if suppressed_sim p (heap c self) then c
      else replicate_entry_sim self (sensor_command p) DELTA (upd self (note_sensor p) c))"

definition forward_report :: "string \<Rightarrow> rpc \<Rightarrow> cluster \<Rightarrow> cluster" where
  "forward_report self p c =
     (case current_leader_id (heap c self) of
        None \<Rightarrow> c
      | Some l \<Rightarrow> if l \<noteq> self then send_msg self l p c else c)"

definition handle_sensor_data_echo :: "string \<Rightarrow> string \<Rightarrow> rpc \<Rightarrow> cluster \<Rightarrow> cluster" where
  "handle_sensor_data_echo self sender p c =
     (if is_leading (heap c self) then handle_sensor_data_base self sender p c
      else forward_report self p c)"

definition flush_batch_sim :: "string \<Rightarrow> cluster \<Rightarrow> cluster" where
  "flush_batch_sim self c =
     (if batch_buffer (heap c self) = []
      then upd self (\<lambda>n. n\<lparr>batch_deadline := None\<rparr>) c
      else (let cmds = batch_buffer (heap c self);
                c = upd self (\<lambda>n. n\<lparr>batch_buffer := [], batch_deadline := None\<rparr>) c;
                cmd = (if length cmds = 1 then hd cmds else batch_of cmds);
                (t, c) = now c;
                c = upd self (\<lambda>n. n\<lparr>last_consensus_activity := t\<rparr>) c
            in replicate_entry_sim self cmd DELTA c))"

definition buffer_reading :: "string \<Rightarrow> rpc \<Rightarrow> cluster \<Rightarrow> cluster" where
  "buffer_reading self p c =
     (let c = upd self (\<lambda>n. n\<lparr>batch_buffer := batch_buffer n @ [sensor_command p]\<rparr>)
                (upd self (note_sensor p) c)
      in if batch_deadline (heap c self) = None
         then (let (t, c) = now c
               in upd self (\<lambda>n. n\<lparr>batch_deadline := Some (t + of_int BATCH_WINDOW_MS / 1000)\<rparr>) c)
         else c)"

definition handle_sensor_data_echod :: "string \<Rightarrow> string \<Rightarrow> rpc \<Rightarrow> cluster \<Rightarrow> cluster" where
  "handle_sensor_data_echod self sender p c =
     (if \<not> is_leading (heap c self) then forward_report self p c
      else if suppressed_sim p (heap c self) then c
      else (let c = buffer_reading self p c
            in if length (batch_buffer (heap c self)) \<ge> MAX_BATCH_SIZE_sim
               then flush_batch_sim self c else c))"

definition handle_sensor_data_coord :: "string \<Rightarrow> string \<Rightarrow> rpc \<Rightarrow> cluster \<Rightarrow> cluster" where
  "handle_sensor_data_coord self sender p c =
     (case cls (heap c self) of
        RaftNode \<Rightarrow> handle_sensor_data_base self sender p c
      | EchoDCoordinator \<Rightarrow> handle_sensor_data_echod self sender p c
      | _ \<Rightarrow> handle_sensor_data_echo self sender p c)"


section \<open>The idle tick\<close>

definition on_idle_base :: "string \<Rightarrow> cluster \<Rightarrow> cluster" where
  "on_idle_base self c =
     (let (t, c) = now c; n = heap c self
      in if state n = OBSERVER then c
         else if is_leading n
         then (if t - last_ping_time n \<ge> of_int LIVENESS_PING_INTERVAL_sim / 1000
               then upd self (\<lambda>n. n\<lparr>last_ping_time := t\<rparr>) (send_liveness_ping_sim self c)
               else c)
         else if t \<ge> election_deadline n then start_election_sim self c
         else c)"

text \<open>A Raft leader sends its log as heartbeat; \<open>LOCAL_LEADER\<close> is no special case here.\<close>

definition on_idle_raft :: "string \<Rightarrow> cluster \<Rightarrow> cluster" where
  "on_idle_raft self c =
     (let (t, c) = now c; n = heap c self
      in if state n = OBSERVER then c
         else if state n = LEADER
         then (if t - last_ping_time n \<ge> of_int LIVENESS_PING_INTERVAL_sim / 1000
               then upd self (\<lambda>n. n\<lparr>last_ping_time := t\<rparr>) (send_all_append_entries self c)
               else c)
         else if t \<ge> election_deadline n then start_election_sim self c
         else c)"

definition replicate_raft :: "string \<Rightarrow> json \<Rightarrow> cluster \<Rightarrow> cluster" where
  "replicate_raft self cmd c = replicate_entry_sim self cmd LIVENESS c"

definition send_leaf_keepalives_sim :: "string \<Rightarrow> cluster \<Rightarrow> cluster" where
  "send_leaf_keepalives_sim self c =
     send_each self (LivenessPingMsg (current_term (heap c self)) self) (leaves (heap c self)) c"

definition lead_idle_echod :: "rat \<Rightarrow> string \<Rightarrow> cluster \<Rightarrow> cluster" where
  "lead_idle_echod t self c =
     (let c = (case batch_deadline (heap c self) of
                 Some d \<Rightarrow> if t \<ge> d then flush_batch_sim self c else c
               | None \<Rightarrow> c);
          n = heap c self;
          c = (if t - last_ping_time n \<ge> ping_interval_ms n / 1000
               then upd self (\<lambda>n. n\<lparr>last_ping_time := t\<rparr>) (send_liveness_ping_sim self c)
               else c);
          n = heap c self
      in if battery_pct n < T_HANDOFF_sim \<and> \<not> handoff_sent n then initiate_handoff_sim self c
         else c)"

definition on_idle_echod :: "string \<Rightarrow> cluster \<Rightarrow> cluster" where
  "on_idle_echod self c =
     (let (t, c) = now c; n = heap c self
      in if state n = OBSERVER then c
         else (let c = (if is_leading n then lead_idle_echod t self c
                        else if t \<ge> election_deadline n then start_election_sim self c
                        else c);
                   n = heap c self
               in if leaves n \<noteq> [] \<and>
                     t - last_leaf_keepalive n \<ge> of_int LEAF_KEEPALIVE_INTERVAL_sim / 1000
                  then upd self (\<lambda>n. n\<lparr>last_leaf_keepalive := t\<rparr>)
                         (send_leaf_keepalives_sim self c)
                  else c))"

definition on_idle_coord :: "string \<Rightarrow> cluster \<Rightarrow> cluster" where
  "on_idle_coord self c =
     (case cls (heap c self) of
        RaftNode \<Rightarrow> on_idle_raft self c
      | EchoDCoordinator \<Rightarrow> on_idle_echod self c
      | _ \<Rightarrow> on_idle_base self c)"

end
