(* ===== verification/SimLeaf.thy ===== *)
theory SimLeaf
  imports SimElection
begin

text \<open>
  Leaf nodes: \<open>simulation/core/leaf.py\<close>, and the edge filter of \<open>EchoDLeaf\<close> in
  \<open>simulation/protocols/echod.py\<close>.
\<close>

section \<open>Registration\<close>

definition try_register :: "string \<Rightarrow> cluster \<Rightarrow> cluster" where
  "try_register self c =
     (if \<not> attached (heap c self) then c
      else (let coordinators = coordinator_ids c
            in if coordinators = [] then c
               else (let (target, w) = choice coordinators (env c)
                     in send_msg self target (LeafRegisterRequest self) (c\<lparr>env := w\<rparr>))))"

definition handle_leaf_register_response_leaf ::
    "string \<Rightarrow> string \<Rightarrow> rpc \<Rightarrow> cluster \<Rightarrow> cluster" where
  "handle_leaf_register_response_leaf self sender p c =
     (if l_accepted p
      then (let c = upd self (\<lambda>n. n\<lparr>coordinator_id := Some (l_coordinator_id p),
                  state := ACTIVE\<rparr>) c;
                (t, c) = now c
            in upd self (\<lambda>n. n\<lparr>last_coordinator_contact := t\<rparr>) c)
      else c)"


section \<open>Readings\<close>

definition send_reading_base :: "string \<Rightarrow> rat \<Rightarrow> cluster \<Rightarrow> cluster" where
  "send_reading_base self v c =
     (case coordinator_id (heap c self) of
        None \<Rightarrow> c
      | Some i \<Rightarrow> send_msg self i (SensorDataReport self (sensor_type (heap c self)) v) c)"

definition edge_filtered :: "rat \<Rightarrow> sim_node \<Rightarrow> bool" where
  "edge_filtered v n =
     (case last_transmitted n of None \<Rightarrow> False | Some prev \<Rightarrow> below_delta prev v)"

definition send_reading_echod :: "string \<Rightarrow> rat \<Rightarrow> cluster \<Rightarrow> cluster" where
  "send_reading_echod self v c =
     (if edge_filtered v (heap c self)
      then upd self (\<lambda>n. n\<lparr>suppressed_count := suppressed_count n + 1\<rparr>) c
      else send_reading_base self v (upd self (\<lambda>n. n\<lparr>last_transmitted := Some v\<rparr>) c))"

definition send_reading :: "string \<Rightarrow> rat \<Rightarrow> cluster \<Rightarrow> cluster" where
  "send_reading self v c =
     (if cls (heap c self) = EchoDLeaf then send_reading_echod self v c
      else send_reading_base self v c)"

definition report_sensor :: "string \<Rightarrow> cluster \<Rightarrow> cluster" where
  "report_sensor self c =
     (let (d, w) = uniform (- 1 / 2) (1 / 2) (env c);
          c = upd self (\<lambda>n. n\<lparr>sensor_value := sensor_value n + d\<rparr>) (c\<lparr>env := w\<rparr>)
      in send_reading self (sensor_value (heap c self)) c)"

definition inject_reading :: "string \<Rightarrow> rat \<Rightarrow> cluster \<Rightarrow> cluster" where
  "inject_reading self v c =
     send_reading self v (upd self (\<lambda>n. n\<lparr>sensor_value := v\<rparr>) c)"


section \<open>Following a coordinator\<close>

text \<open>\<open>PARTITION_TIMEOUT / 1000.0\<close>, set once in the constructor.\<close>

definition coordinator_timeout_s :: rat where
  "coordinator_timeout_s = of_int PARTITION_TIMEOUT / 1000"

definition on_idle_leaf :: "string \<Rightarrow> cluster \<Rightarrow> cluster" where
  "on_idle_leaf self c =
     (let (t, c) = now c; n = heap c self
      in if state n = UNREGISTERED then try_register self c
         else if state n = ACTIVE
         then (if t - last_coordinator_contact n > coordinator_timeout_s
               then upd self (\<lambda>n. n\<lparr>state := SEARCHING, coordinator_id := None\<rparr>) c
               else if auto_report n \<and> t - last_sample_time n \<ge> of_int SAMPLE_INTERVAL / 1000
               then upd self (\<lambda>n. n\<lparr>last_sample_time := t\<rparr>) (report_sensor self c)
               else c)
         else if state n = SEARCHING then try_register self c
         else c)"

definition from_own_coordinator :: "string \<Rightarrow> sim_node \<Rightarrow> bool" where
  "from_own_coordinator sender n \<longleftrightarrow> state n = ACTIVE \<and> Some sender = coordinator_id n"

text \<open>A leaf appends what it is sent without looking at indices or terms.\<close>

definition observe_entries :: "rpc \<Rightarrow> replicated_log \<Rightarrow> replicated_log" where
  "observe_entries p l =
     (let l = fold append_log (a_entries p) l
      in if a_leader_commit p > commit_index l
         then snd (commit (min (a_leader_commit p) (last_index l)) l) else l)"

definition handle_append_entries_leaf :: "string \<Rightarrow> string \<Rightarrow> rpc \<Rightarrow> cluster \<Rightarrow> cluster" where
  "handle_append_entries_leaf self sender p c =
     (if from_own_coordinator sender (heap c self)
      then (let (t, c) = now c
            in upd self (\<lambda>n. n\<lparr>last_coordinator_contact := t, log := observe_entries p (log n)\<rparr>) c)
      else c)"

definition handle_liveness_ping_leaf :: "string \<Rightarrow> string \<Rightarrow> rpc \<Rightarrow> cluster \<Rightarrow> cluster" where
  "handle_liveness_ping_leaf self sender p c =
     (if from_own_coordinator sender (heap c self)
      then (let (t, c) = now c in upd self (\<lambda>n. n\<lparr>last_coordinator_contact := t\<rparr>) c)
      else c)"

end
