(* ===== verification/PyStrings.thy ===== *)
theory PyStrings
  imports Prelude
begin

text \<open>
  The string operations of Python the code uses: \<open>s.split(sep)\<close> with a one-character
  separator, \<open>sep.join\<close>, \<open>s.strip()\<close>, and decimal numbers in \<open>f\<close>-strings.
\<close>

section \<open>Splitting and joining\<close>

fun py_split :: "char \<Rightarrow> string \<Rightarrow> string list" where
  "py_split sep [] = [[]]"
| "py_split sep (c # cs) =
     (if c = sep then [] # py_split sep cs
      else (c # hd (py_split sep cs)) # tl (py_split sep cs))"

fun py_join :: "char \<Rightarrow> string list \<Rightarrow> string" where
  "py_join sep [] = []"
| "py_join sep [s] = s"
| "py_join sep (s # t # ss) = s @ sep # py_join sep (t # ss)"

lemma py_split_nonempty [simp]: "py_split sep s \<noteq> []"
  by (cases s) simp_all

lemma py_split_plain: "sep \<notin> set s \<Longrightarrow> py_split sep s = [s]"
  by (induction s) auto

lemma py_split_append:
  "sep \<notin> set s \<Longrightarrow> py_split sep (s @ sep # t) = s # py_split sep t"
  by (induction s) auto

text \<open>Splitting inverts joining, unless there is nothing to join.\<close>

lemma py_split_join:
  "ss \<noteq> [] \<Longrightarrow> \<forall>s\<in>set ss. sep \<notin> set s \<Longrightarrow> py_split sep (py_join sep ss) = ss"
  by (induction sep ss rule: py_join.induct) (simp_all add: py_split_plain py_split_append)


section \<open>Stripping\<close>

text \<open>The ASCII characters \<open>str.isspace\<close> accepts.\<close>

definition py_space :: "char \<Rightarrow> bool" where
  "py_space c \<longleftrightarrow> (let k = (of_char c :: nat) in 9 \<le> k \<and> k \<le> 13 \<or> 28 \<le> k \<and> k \<le> 32)"

definition py_strip :: "string \<Rightarrow> string" where
  "py_strip s = rev (dropWhile py_space (rev (dropWhile py_space s)))"

lemma py_strip_plain:
  assumes "\<forall>c\<in>set s. \<not> py_space c"
  shows "py_strip s = s"
proof -
  have keep: "\<forall>c\<in>set xs. \<not> py_space c \<Longrightarrow> dropWhile py_space xs = xs" for xs
    by (cases xs) simp_all
  show ?thesis
    using assms keep [of s] keep [of "rev s"] by (simp add: py_strip_def)
qed

text \<open>\<open>[p.strip() for p in s.split(",") if p.strip()]\<close>\<close>

definition comma_list :: "string \<Rightarrow> string list" where
  "comma_list s = filter (\<lambda>t. t \<noteq> []) (map py_strip (py_split (CHR '','') s))"

lemma comma_list_join:
  assumes "ss \<noteq> []" and "\<forall>s\<in>set ss. s \<noteq> [] \<and> CHR '','' \<notin> set s \<and> (\<forall>c\<in>set s. \<not> py_space c)"
  shows "comma_list (py_join (CHR '','') ss) = ss"
proof -
  have "py_split (CHR '','') (py_join (CHR '','') ss) = ss"
    using assms by (intro py_split_join) auto
  moreover have "map py_strip ss = ss"
    using assms(2) by (intro map_idI) (auto intro: py_strip_plain)
  moreover have "filter (\<lambda>t. t \<noteq> []) ss = ss"
    using assms(2) by (intro filter_True) auto
  ultimately show ?thesis by (simp add: comma_list_def)
qed


section \<open>Decimal numbers\<close>

definition digit :: "nat \<Rightarrow> char" where
  "digit d = char_of (48 + d)"

fun decimal :: "nat \<Rightarrow> string" where
  "decimal n = (if n < 10 then [digit n] else decimal (n div 10) @ [digit (n mod 10)])"

declare decimal.simps [simp del]

end
