(* ===== verification/SimCluster.thy ===== *)
theory SimCluster
  imports SimLeaf PyStrings
begin

text \<open>
  What drives the simulated nodes: message dispatch and the event loop of
  \<open>simulation/core/node.py\<close>, and the operations of \<open>Cluster\<close> in
  \<open>simulation/core/cluster.py\<close> with the three cluster builders.
\<close>

section \<open>Dispatch\<close>

text \<open>
  \<open>handle_message\<close>: the handler of the payload's type, with the class of \<open>self\<close>. A handler
  a class does not override is the empty one of \<open>Node\<close>.
\<close>

definition on_leaf_or :: "string \<Rightarrow> (cluster \<Rightarrow> cluster) \<Rightarrow> (cluster \<Rightarrow> cluster) \<Rightarrow> cluster \<Rightarrow> cluster" where
  "on_leaf_or self leaf_handler coord_handler c =
     (if coordinator_tier (heap c self) then coord_handler c else leaf_handler c)"

definition handle_message :: "string \<Rightarrow> message \<Rightarrow> cluster \<Rightarrow> cluster" where
  "handle_message self msg c =
     (let p = payload_of msg; sender = sender_id msg
      in case p of
        RequestVoteRPC _ _ _ _ _ \<Rightarrow> on_leaf_or self id (handle_request_vote_sim self sender p) c
      | RequestVoteResponse _ _ _ _ \<Rightarrow>
          on_leaf_or self id (handle_request_vote_response_sim self sender p) c
      | AppendEntriesRPC _ _ _ _ _ _ _ _ \<Rightarrow>
          on_leaf_or self (handle_append_entries_leaf self sender p)
            (handle_append_entries_coord self sender p) c
      | AppendEntriesResponse _ _ _ _ _ \<Rightarrow>
          on_leaf_or self id (handle_append_entries_response_sim self sender p) c
      | LivenessPingMsg _ _ \<Rightarrow>
          on_leaf_or self (handle_liveness_ping_leaf self sender p)
            (handle_liveness_ping_coord self sender p) c
      | LeadershipHandoffMsg _ _ \<Rightarrow>
          (if cls (heap c self) = EchoDCoordinator
           then handle_leadership_handoff_sim self sender p c else c)
      | LeafRegisterRequest _ \<Rightarrow> on_leaf_or self id (handle_leaf_register_sim self sender p) c
      | LeafRegisterReply _ _ _ \<Rightarrow>
          on_leaf_or self (handle_leaf_register_response_leaf self sender p) id c
      | SensorDataReport _ _ _ \<Rightarrow> on_leaf_or self id (handle_sensor_data_coord self sender p) c)"

definition on_idle :: "string \<Rightarrow> cluster \<Rightarrow> cluster" where
  "on_idle self c = on_leaf_or self (on_idle_leaf self) (on_idle_coord self) c"

definition wakeup_interval :: "string \<Rightarrow> cluster \<Rightarrow> rat \<times> cluster" where
  "wakeup_interval self c =
     (if \<not> coordinator_tier (heap c self) then (wakeup_interval_node, c)
      else if cls (heap c self) = EchoDCoordinator then wakeup_interval_echod self c
      else wakeup_interval_base self c)"

text \<open>
  One round of the event loop. The timeout is computed first; then \<open>wait_for\<close> returns the
  oldest message of the inbox, or times out on an empty one. That a timeout can also win
  against a message enqueued in the same instant, which then waits for the next round, is not
  modelled.
\<close>

definition loop_round :: "string \<Rightarrow> cluster \<Rightarrow> cluster" where
  "loop_round self c =
     (if \<not> running (heap c self) then c
      else (let (timeout, c) = wakeup_interval self c
            in case inbox (heap c self) of
                 [] \<Rightarrow> on_idle self c
               | msg # rest \<Rightarrow>
                   handle_message self msg (upd self (\<lambda>n. n\<lparr>inbox := rest\<rparr>) c)))"

definition stop_node :: "sim_node \<Rightarrow> sim_node" where
  "stop_node n = n\<lparr>running := False\<rparr>"


section \<open>Membership, failures, partitions\<close>

definition add_node :: "string \<Rightarrow> sim_node \<Rightarrow> cluster \<Rightarrow> cluster" where
  "add_node i n c = c\<lparr>heap := (heap c)(i := n\<lparr>attached := True\<rparr>),
     members := py_add i (members c), bus_nodes := py_add i (bus_nodes c)\<rparr>"

definition remove_node :: "string \<Rightarrow> cluster \<Rightarrow> cluster" where
  "remove_node i c =
     (if i \<in> set (members c)
      then upd i (\<lambda>n. (stop_node n)\<lparr>attached := False\<rparr>)
             (c\<lparr>members := filter (\<lambda>j. j \<noteq> i) (members c)\<rparr>)
      else c)"

text \<open>A cancelled task stays in \<open>_tasks\<close>; cancelling ends the loop, which clears \<open>_running\<close>.\<close>

definition inject_failure :: "string \<Rightarrow> cluster \<Rightarrow> cluster" where
  "inject_failure i c =
     (let c = c\<lparr>failed := py_add i (failed c)\<rparr>
      in if i \<in> set (members c) \<or> i \<in> set (tasks c) then upd i stop_node c else c)"

text \<open>The new task starts the event loop, whose first action sets \<open>_running\<close>.\<close>

definition start_task :: "string \<Rightarrow> cluster \<Rightarrow> cluster" where
  "start_task i c = upd i (\<lambda>n. n\<lparr>running := True\<rparr>) (c\<lparr>tasks := py_add i (tasks c)\<rparr>)"

definition recover_node :: "string \<Rightarrow> cluster \<Rightarrow> cluster" where
  "recover_node i c =
     (let c = c\<lparr>failed := filter (\<lambda>j. j \<noteq> i) (failed c)\<rparr>
      in if i \<in> set (members c) then start_task i c else c)"

definition inject_partition :: "string list \<Rightarrow> string list \<Rightarrow> cluster \<Rightarrow> cluster" where
  "inject_partition group_a group_b c = c\<lparr>partitions := [set group_a, set group_b]\<rparr>"

definition heal_partition :: "cluster \<Rightarrow> cluster" where
  "heal_partition c = c\<lparr>partitions := []\<rparr>"

text \<open>The two ends of \<open>Cluster.run\<close>; in between the tasks take turns.\<close>

definition run_begin :: "cluster \<Rightarrow> cluster" where
  "run_begin c =
     (let (t, c) = now c; c = c\<lparr>sim_start := t\<rparr>
      in fold start_task (filter (\<lambda>i. i \<notin> set (failed c)) (members c)) c)"

definition run_end :: "cluster \<Rightarrow> cluster" where
  "run_end c = (fold (\<lambda>i. upd i stop_node) (members c) c)\<lparr>tasks := []\<rparr>"

definition elapsed_seconds :: "cluster \<Rightarrow> rat \<times> cluster" where
  "elapsed_seconds c =
     (if sim_start c \<noteq> 0 then (let (t, c) = now c in (t - sim_start c, c)) else (0, c))"


section \<open>Battery drain\<close>

definition tick_all_batteries :: "rat \<Rightarrow> cluster \<Rightarrow> cluster" where
  "tick_all_batteries delta c = fold (\<lambda>i. upd i (tick_battery delta)) (members c) c"

definition drain_mult :: "sim_node \<Rightarrow> rat" where
  "drain_mult n =
     (if \<not> coordinator_tier n then DRAIN_MULT_LEAF
      else if state n = LEADER \<or> state n = LOCAL_LEADER then DRAIN_MULT_LEADER
      else if state n = CANDIDATE then DRAIN_MULT_CANDIDATE
      else if state n = OBSERVER then DRAIN_MULT_OBSERVER
      else DRAIN_MULT_FOLLOWER)"

definition tick_batteries_weighted :: "rat \<Rightarrow> cluster \<Rightarrow> cluster" where
  "tick_batteries_weighted base c =
     fold (\<lambda>i. upd i (\<lambda>n. tick_battery (base * drain_mult n) n)) (members c) c"


section \<open>Building a cluster\<close>

definition new_cluster :: "world \<Rightarrow> cluster" where
  "new_cluster w =
     (let (m, w) = new_metrics w
      in \<lparr>heap = (\<lambda>_. new_node RaftNode 1), members = [], bus_nodes = [], partitions = [],
          energy_hook = False, total_messages = 0, collector = m, tasks = [], failed = [],
          sim_start = 0, env = w\<rparr>)"

text \<open>The constructors of the coordinator classes: the first deadline, then echoD's own state.\<close>

definition construct_coordinator :: "node_class \<Rightarrow> string \<Rightarrow> cluster \<Rightarrow> cluster" where
  "construct_coordinator k i c =
     (let n = (new_node k 1)\<lparr>tie_break_ms :=
                 (if k = EchoDCoordinator then crc32 i mod ELECTION_TIE_BREAK_MS else 0)\<rparr>;
          c = c\<lparr>heap := (heap c)(i := n)\<rparr>;
          c = reset_election_timer_sim i c
      in if k = EchoDCoordinator
         then (let (t, c) = now c in upd i (\<lambda>n. n\<lparr>last_consensus_activity := t\<rparr>) c)
         else c)"

definition construct_leaf :: "node_class \<Rightarrow> string \<Rightarrow> string \<Rightarrow> bool \<Rightarrow> cluster \<Rightarrow> cluster" where
  "construct_leaf k i sensor auto c =
     (let (t, c) = now c;
          (d, w) = uniform (- 2) 2 (env c);
          n = (new_node k 1)\<lparr>sensor_type := sensor, auto_report := auto,
                 last_coordinator_contact := t, sensor_value := 20 + d\<rparr>
      in c\<lparr>env := w, heap := (heap c)(i := n)\<rparr>)"

definition register_node :: "string \<Rightarrow> cluster \<Rightarrow> cluster" where
  "register_node i c = add_node i (heap c i) c"

definition build_raft_cluster :: "nat \<Rightarrow> cluster \<Rightarrow> cluster" where
  "build_raft_cluster k c =
     fold (\<lambda>j c. let i = ''raft-'' @ decimal j
                 in register_node i (construct_coordinator RaftNode i c)) [0..<k] c"

definition build_tiered ::
    "node_class \<Rightarrow> node_class \<Rightarrow> nat \<Rightarrow> nat \<Rightarrow> bool \<Rightarrow> cluster \<Rightarrow> cluster" where
  "build_tiered kc kl coords leaf_count auto c =
     (let c = fold (\<lambda>j c. let i = ''coord-'' @ decimal j
                          in register_node i (construct_coordinator kc i c)) [0..<coords] c
      in fold (\<lambda>j c. let i = ''leaf-'' @ decimal j
                     in register_node i (construct_leaf kl i ''temperature'' auto c))
           [0..<leaf_count] c)"

definition build_echo_cluster :: "nat \<Rightarrow> nat \<Rightarrow> bool \<Rightarrow> cluster \<Rightarrow> cluster" where
  "build_echo_cluster = build_tiered EchoCoordinator EchoLeaf"

definition build_echod_cluster :: "nat \<Rightarrow> nat \<Rightarrow> bool \<Rightarrow> cluster \<Rightarrow> cluster" where
  "build_echod_cluster = build_tiered EchoDCoordinator EchoDLeaf"

text \<open>A removed node stays on the bus: a message to it is still delivered and counted.\<close>

theorem removed_node_still_receives:
  assumes "i \<in> set (members c)" and "i \<in> set (bus_nodes c)" and "partitions c = []"
    and "\<not> energy_hook c"
  shows "fst (route \<lparr>sender_id = j, recipient_id = i, payload_of = p\<rparr> (remove_node i c))"
    and "total_messages (snd (route \<lparr>sender_id = j, recipient_id = i, payload_of = p\<rparr>
      (remove_node i c))) = total_messages c + 1"
  using assms by (simp_all add: remove_node_def route_def can_reach_def upd_def Let_def)

end
