(* ===== verification/Doubles.thy ===== *)
theory Doubles
  imports Prelude "HOL-Library.Log_Nat"
begin

text \<open>
  Addition of Python floats, for the loop whose number of turns depends on its rounding: the
  exact sum is rounded to 53 significant bits, ties to even. The exponent is not bounded: a
  sum of two doubles below the normal range has no more than 53 bits, so it is exact here as
  it is in Python, and a sum beyond the largest double, infinite in Python, is still above
  every double.
\<close>

section \<open>Rounding to 53 bits\<close>

text \<open>The exponent of the leading bit of a positive number.\<close>

definition leading_bit :: "rat \<Rightarrow> int" where
  "leading_bit x =
     (let (p, q) = quotient_of x; e = bitlen p - bitlen q
      in if 2 powi e \<le> x then e else e - 1)"

definition to_double :: "rat \<Rightarrow> rat" where
  "to_double x = (let u = 2 powi (leading_bit \<bar>x\<bar> - 52) in py_round (x / u) 0 * u)"

definition float_add :: "rat \<Rightarrow> rat \<Rightarrow> rat" where
  "float_add x y = to_double (x + y)"

lemma bitlen_bounds_rat:
  assumes "0 < p"
  shows "2 powi (bitlen p - 1) \<le> (of_int p :: rat)" and "(of_int p :: rat) < 2 powi bitlen p"
proof -
  have pos: "1 \<le> bitlen p" using assms by (simp add: bitlen_alt_def)
  have "(of_int (2 ^ nat (bitlen p - 1)) :: rat) \<le> of_int p" "(of_int p :: rat) < of_int (2 ^ nat (bitlen p))"
    using bitlen_bounds [OF assms] by (simp_all only: of_int_le_iff of_int_less_iff)
  then show "2 powi (bitlen p - 1) \<le> (of_int p :: rat)" "(of_int p :: rat) < 2 powi bitlen p"
    using pos by (simp_all add: power_int_def)
qed

lemma leading_bit_bounds:
  assumes "0 < x"
  shows "2 powi leading_bit x \<le> x" and "x < 2 powi (leading_bit x + 1)"
proof -
  obtain p q where pq: "quotient_of x = (p, q)" by force
  then have x: "x = of_int p / of_int q" and q: "0 < q"
    by (simp_all add: quotient_of_div quotient_of_denom_pos)
  then have p: "0 < p" using assms by (simp add: zero_less_divide_iff)
  let ?e = "bitlen p - bitlen q"
  have split: "(2 :: rat) powi a * 2 powi b = 2 powi (a + b)" for a b
    by (simp add: power_int_add)
  have q': "0 < (of_int q :: rat)" using q by simp
  have "2 powi (?e - 1) * of_int q \<le> (2 powi (?e - 1) * 2 powi bitlen q :: rat)"
    using bitlen_bounds_rat(2) [OF q] by (intro mult_left_mono) simp_all
  also have "\<dots> \<le> of_int p"
    using bitlen_bounds_rat(1) [OF p] by (simp add: split)
  finally have low: "2 powi (?e - 1) \<le> x"
    using q' by (simp add: x le_divide_eq)
  have "of_int p < (2 powi (?e + 1) * 2 powi (bitlen q - 1) :: rat)"
    using bitlen_bounds_rat(2) [OF p] by (simp add: split)
  also have "\<dots> \<le> 2 powi (?e + 1) * of_int q"
    using bitlen_bounds_rat(1) [OF q] by (intro mult_left_mono) simp_all
  finally have high: "x < 2 powi (?e + 1)"
    using q' by (simp add: x divide_less_eq)
  show "2 powi leading_bit x \<le> x" "x < 2 powi (leading_bit x + 1)"
    using low high by (auto simp: leading_bit_def pq Let_def)
qed

lemma py_round_int [simp]: "py_round (of_int m) 0 = of_int m"
  by (simp add: py_round_def Let_def)

lemma py_round_error: "\<bar>py_round y 0 - y\<bar> \<le> 1 / 2"
proof -
  define d where "d = y - of_int \<lfloor>y\<rfloor>"
  have d: "0 \<le> d" "d < 1" "y = of_int \<lfloor>y\<rfloor> + d"
    unfolding d_def by linarith+
  have "py_round y 0 = of_int (if d < 1 / 2 \<or> d = 1 / 2 \<and> even \<lfloor>y\<rfloor> then \<lfloor>y\<rfloor> else \<lfloor>y\<rfloor> + 1)"
    by (simp add: py_round_def Let_def d_def)
  then show ?thesis using d by (auto split: if_splits)
qed

lemma to_double_0 [simp]: "to_double 0 = 0"
  by (simp add: to_double_def Let_def py_round_def)

text \<open>The relative error is at most half a unit in the last place.\<close>

lemma to_double_error: "\<bar>to_double x - x\<bar> \<le> \<bar>x\<bar> / 2 ^ 53"
proof (cases "x = 0")
  case False
  define u :: rat where "u = 2 powi (leading_bit \<bar>x\<bar> - 52)"
  have u: "0 < u" by (simp add: u_def)
  have "u * 2 ^ 52 = 2 powi leading_bit \<bar>x\<bar>"
    by (simp add: u_def power_int_diff)
  then have small: "u \<le> \<bar>x\<bar> / 2 ^ 52"
    using leading_bit_bounds(1) [of "\<bar>x\<bar>"] False by (simp add: le_divide_eq)
  have "to_double x - x = (py_round (x / u) 0 - x / u) * u"
    using u by (simp add: to_double_def u_def [symmetric] algebra_simps)
  then have "\<bar>to_double x - x\<bar> = \<bar>py_round (x / u) 0 - x / u\<bar> * u"
    using u by (simp add: abs_mult)
  also have "\<dots> \<le> 1 / 2 * u"
    using py_round_error [of "x / u"] u by (intro mult_right_mono) simp_all
  finally show ?thesis using small by simp
qed simp

text \<open>Numbers with at most 53 significant bits are not changed.\<close>

lemma to_double_exact:
  assumes "\<bar>m\<bar> < 2 ^ 53"
  shows "to_double (of_int m * 2 powi e) = of_int m * 2 powi e"
proof (cases "m = 0")
  case False
  define x :: rat where "x = of_int m * 2 powi e"
  have ax: "\<bar>x\<bar> = of_int \<bar>m\<bar> * 2 powi e" by (simp add: x_def abs_mult)
  have "(of_int \<bar>m\<bar> :: rat) < of_int (2 ^ 53)" using assms by (simp only: of_int_less_iff)
  then have "\<bar>x\<bar> < 2 powi 53 * 2 powi e" by (simp add: ax)
  then have "(2 :: rat) powi leading_bit \<bar>x\<bar> < 2 powi (53 + e)"
    using leading_bit_bounds(1) [of "\<bar>x\<bar>"] False by (simp add: power_int_add x_def)
  define L where "L = leading_bit \<bar>x\<bar>"
  have "L < 53 + e"
    using \<open>2 powi leading_bit \<bar>x\<bar> < 2 powi (53 + e)\<close> power_int_increasing [of "53 + e" L "2 :: rat"]
    by (force simp: not_less L_def)
  then obtain k where k: "e = L - 52 + int k"
    using zle_iff_zadd [of "L - 52" e] by auto
  have "x / 2 powi (L - 52) = of_int (m * 2 ^ k)"
    by (simp add: x_def k power_int_add)
  then have "py_round (x / 2 powi (L - 52)) 0 = x / 2 powi (L - 52)"
    by (simp only: py_round_int)
  then show ?thesis
    by (simp add: to_double_def L_def [symmetric] x_def [symmetric])
qed simp

end
