(* ===== verification/SimRun.thy ===== *)
theory SimRun
  imports SimCluster Doubles
begin

text \<open>
  The comparison runs: the seeded workload of \<open>simulation/workload.py\<close> and the scenario
  driver of \<open>simulation/main.py\<close>.
\<close>

section \<open>Workload\<close>

record workload_event =
  time_s :: rat
  source_index :: nat
  reading :: rat

text \<open>One reading of the random walk: a large jump with probability 0.3, else a small drift.\<close>

definition walk_step :: "world \<Rightarrow> rat \<times> world" where
  "walk_step w =
     (let (r, w) = py_random w
      in if r < 3 / 10
         then (let (sgn, w) = choice [- 1, 1] w; (m, w) = uniform 2 5 w in (sgn * m, w))
         else uniform (- 4 / 10) (4 / 10) w)"

text \<open>The inner \<open>for\<close> loop: all sources read at one instant.\<close>

fun burst :: "rat \<Rightarrow> nat \<Rightarrow> rat list \<Rightarrow> world \<Rightarrow> workload_event list \<times> rat list \<times> world" where
  "burst t i [] w = ([], [], w)"
| "burst t i (v # vs) w =
     (let (step, w) = walk_step w;
          v = v + step;
          (evs, vs, w) = burst t (i + 1) vs w
      in (\<lparr>time_s = t, source_index = i, reading = v\<rparr> # evs, v # vs, w))"

fun first_values :: "nat \<Rightarrow> world \<Rightarrow> rat list \<times> world" where
  "first_values 0 w = ([], w)"
| "first_values (Suc n) w =
     (let (d, w) = uniform (- 2) 2 w; (vs, w) = first_values n w in ((20 + d) # vs, w))"

text \<open>
  The \<open>while\<close> loop. How often it runs depends on the rounding of \<open>t += burst_interval\<close>, so
  this addition is that of Python's floats. It need not end: an interval can be lost in the
  rounding, or not be positive.
\<close>

partial_function (option) bursts ::
    "rat \<Rightarrow> rat \<Rightarrow> rat \<Rightarrow> rat list \<Rightarrow> world \<Rightarrow> workload_event list option" where
  "bursts duration interval t vs w =
     (if t \<le> duration
      then (let (evs, vs, w) = burst t 0 vs w
            in Option.bind (bursts duration interval (float_add t interval) vs w) (\<lambda>rest. Some (evs @ rest)))
      else Some [])"

definition generate_workload ::
    "rat \<Rightarrow> nat \<Rightarrow> rat \<Rightarrow> rat \<Rightarrow> world \<Rightarrow> workload_event list option" where
  "generate_workload duration leaf_count burst_interval start_at rng =
     (let (vs, rng) = first_values (max leaf_count 1) rng
      in bursts duration burst_interval start_at vs rng)"

definition leaf_ids :: "cluster \<Rightarrow> string list" where
  "leaf_ids c = sort (filter (\<lambda>i. \<not> coordinator_tier (heap c i)) (members c))"

definition workload_command :: "workload_event \<Rightarrow> json" where
  "workload_command ev = JObj [(''sensor'', JStr ''workload''),
     (''src'', JInt (int (source_index ev))), (''value'', JFloat (reading ev))]"

definition deliver_event :: "workload_event \<Rightarrow> cluster \<Rightarrow> cluster" where
  "deliver_event ev c =
     (let ls = leaf_ids c
      in if ls \<noteq> [] then inject_reading (ls ! (source_index ev mod length ls)) (reading ev) c
         else (case find (\<lambda>i. state (heap c i) = LEADER) (members c) of
                 None \<Rightarrow> c
               | Some l \<Rightarrow> if cls (heap c l) = RaftNode
                           then replicate_raft l (workload_command ev) c else c))"


section \<open>Running a scenario\<close>

record args =
  coordinators :: nat
  leaf_number :: nat
  duration :: rat
  battery_drain :: rat
  partition_at :: "rat option"
  heal_at :: "rat option"
  burst_interval :: rat
  no_workload :: bool

definition default_args :: args where
  "default_args = \<lparr>coordinators = 5, leaf_number = 10, duration = 5, battery_drain = 1 / 100,
     partition_at = None, heal_at = None, burst_interval = 1, no_workload = False\<rparr>"

text \<open>\<open>collector.snapshot_energy\<close> for every node.\<close>

definition snapshot_all :: "cluster \<Rightarrow> cluster" where
  "snapshot_all c = c\<lparr>collector :=
     fold (\<lambda>i. snapshot_energy i (battery (heap c i))) (members c) (collector c)\<rparr>"

definition scenario_begin :: "cluster \<Rightarrow> cluster" where
  "scenario_begin c = snapshot_all (c\<lparr>energy_hook := True\<rparr>)"

definition leading_ids :: "cluster \<Rightarrow> string list" where
  "leading_ids c = filter (\<lambda>i. is_leading (heap c i)) (members c)"

definition after :: "rat option \<Rightarrow> rat \<Rightarrow> bool" where
  "after limit elapsed \<longleftrightarrow> (case limit of None \<Rightarrow> False | Some t \<Rightarrow> elapsed \<ge> t)"

definition split_members :: "cluster \<Rightarrow> cluster" where
  "split_members c = (let ids = members c; mid = length ids div 2
     in inject_partition (take mid ids) (drop mid ids) c)"

definition observe_leader :: "string option \<Rightarrow> cluster \<Rightarrow> string option \<times> cluster" where
  "observe_leader prev c =
     (let leader = (case leading_ids c of [] \<Rightarrow> None | i # _ \<Rightarrow> Some i)
      in if leader \<noteq> prev
         then (leader, case leader of
                 None \<Rightarrow> c
               | Some i \<Rightarrow> c\<lparr>collector := record_leader_change i (collector c)\<rparr>)
         else (prev, c))"

text \<open>
  One turn of the \<open>side_effects\<close> loop after its sleep; \<open>start\<close> and \<open>last_leader\<close> are its
  local variables. The first component says that the loop ends.
\<close>

definition side_effects ::
    "args \<Rightarrow> rat \<Rightarrow> string option \<Rightarrow> cluster \<Rightarrow> bool \<times> string option \<times> cluster" where
  "side_effects a start prev c =
     (let (t, c) = now c;
          elapsed = t - start;
          c = tick_batteries_weighted (battery_drain a * (1 / 10)) c;
          (m, w) = record_availability (leading_ids c \<noteq> []) (collector c) (env c);
          c = snapshot_all (c\<lparr>collector := m, env := w\<rparr>);
          c = (if after (partition_at a) elapsed \<and> partitions c = [] then split_members c else c);
          c = (if after (heal_at a) elapsed \<and> partitions c \<noteq> [] then heal_partition c else c);
          (prev, c) = observe_leader prev c
      in (elapsed \<ge> duration a, prev, c))"

text \<open>How long the workload driver sleeps before it delivers an event.\<close>

definition workload_delay :: "rat \<Rightarrow> workload_event \<Rightarrow> cluster \<Rightarrow> rat \<times> cluster" where
  "workload_delay start ev c =
     (let (t, c) = now c; delay = time_s ev - (t - start) in (max 0 delay, c))"

text \<open>
  The tasks of a scenario take turns: a node's event loop, the housekeeping loop, the
  workload driver. A run is any sequence of turns; \<open>effects_done\<close> is set when the
  housekeeping loop has ended, and \<open>pending_events\<close> is what the driver has left.
\<close>

datatype turn = Node string | Housekeeping | Driver

record scenario =
  sc_cluster :: cluster
  effects_start :: rat
  effects_done :: bool
  prev_leader :: "string option"
  pending_events :: "workload_event list"

definition take_turn :: "args \<Rightarrow> turn \<Rightarrow> scenario \<Rightarrow> scenario" where
  "take_turn a tn s = (case tn of
     Node i \<Rightarrow> (if i \<in> set (tasks (sc_cluster s))
                then s\<lparr>sc_cluster := loop_round i (sc_cluster s)\<rparr> else s)
   | Housekeeping \<Rightarrow>
       (if effects_done s then s
        else (let (fin, prev, c) = side_effects a (effects_start s) (prev_leader s) (sc_cluster s)
              in s\<lparr>effects_done := fin, prev_leader := prev, sc_cluster := c\<rparr>))
   | Driver \<Rightarrow>
       (case pending_events s of
          [] \<Rightarrow> s
        | ev # rest \<Rightarrow> s\<lparr>pending_events := rest, sc_cluster := deliver_event ev (sc_cluster s)\<rparr>))"

definition run_scenario :: "args \<Rightarrow> workload_event list \<Rightarrow> turn list \<Rightarrow> cluster \<Rightarrow> cluster" where
  "run_scenario a events turns c =
     (let c = run_begin (scenario_begin c);
          (t, c) = now c;
          s = fold (take_turn a) turns \<lparr>sc_cluster = c, effects_start = t, effects_done = False,
                prev_leader = None, pending_events = events\<rparr>
      in run_end (sc_cluster s))"

text \<open>
  \<open>main\<close>: one workload, three clusters. The random tape of a cluster's world is the global
  generator; the workload has a generator of its own.
\<close>

definition main_run ::
    "args \<Rightarrow> world \<Rightarrow> (string \<Rightarrow> turn list) \<Rightarrow> (string \<Rightarrow> world) \<Rightarrow> (string, metrics) dict option" where
  "main_run a rng turns w =
     Option.bind
       (if no_workload a then Some []
        else generate_workload (duration a) (leaf_number a) (burst_interval a) 1 rng)
       (\<lambda>events.
          let run = (\<lambda>name build. (name, collector
                (run_scenario a events (turns name) (build (new_cluster (w name))))))
          in Some [run ''raft'' (build_raft_cluster (coordinators a)),
                   run ''echo'' (build_echo_cluster (coordinators a) (leaf_number a) False),
                   run ''echod'' (build_echod_cluster (coordinators a) (leaf_number a) False)])"

end
