(* ===== verification/SimFrame.thy ===== *)
theory SimFrame
  imports SimRun
begin

text \<open>
  What a turn of one simulated node leaves alone. Handlers never change who is in the
  cluster, who is registered on the bus, how the network is split, or the class of a node;
  and a node on the other side of a partition is not touched at all. The rules are collected
  in \<open>stay\<close> and applied from the outermost call inwards.
\<close>

named_theorems stay \<open>a step from \<open>d\<close> stays within what \<open>d\<close> may change of \<open>c\<close>\<close>

section \<open>The frame\<close>

definition topology :: "cluster \<Rightarrow> string list \<times> string list \<times> string set list \<times> bool \<times> string list \<times>
    string list \<times> (string \<Rightarrow> node_class) \<times> (string \<Rightarrow> bool)" where
  "topology c = (members c, bus_nodes c, partitions c, energy_hook c, tasks c, failed c,
     \<lambda>i. cls (heap c i), \<lambda>i. attached (heap c i))"

definition stays :: "string \<Rightarrow> cluster \<Rightarrow> cluster \<Rightarrow> bool" where
  "stays self c d \<longleftrightarrow> topology d = topology c \<and>
     (\<forall>j. j \<noteq> self \<and> \<not> can_reach self j c \<longrightarrow> heap d j = heap c j)"

lemma stays_refl [stay]: "stays self c c"
  by (simp add: stays_def)

lemma stays_trans: "stays self c d \<Longrightarrow> stays self d e \<Longrightarrow> stays self c e"
  by (simp add: stays_def topology_def can_reach_def)

text \<open>Updates of \<open>self\<close> that keep its class and its cluster.\<close>

definition keeps_kind :: "(sim_node \<Rightarrow> sim_node) \<Rightarrow> bool" where
  "keeps_kind f \<longleftrightarrow> (\<forall>n. cls (f n) = cls n \<and> attached (f n) = attached n)"

lemma keeps_kindI: "(\<And>n. cls (f n) = cls n) \<Longrightarrow> (\<And>n. attached (f n) = attached n) \<Longrightarrow> keeps_kind f"
  by (simp add: keeps_kind_def)

lemma topology_upd: "keeps_kind f \<Longrightarrow> topology (upd i f d) = topology d"
  by (auto simp: topology_def keeps_kind_def)

lemma stays_upd [stay]: "keeps_kind f \<Longrightarrow> stays self c d \<Longrightarrow> stays self c (upd self f d)"
  by (simp add: stays_def topology_upd)

lemma stays_env [stay]: "stays self c d \<Longrightarrow> stays self c (d\<lparr>env := w\<rparr>)"
  by (simp add: stays_def topology_def)

lemma stays_now [stay]: "stays self c d \<Longrightarrow> stays self c (snd (now d))"
  by (simp add: now_def stays_env split_beta)

lemma tick_kind [simp]: "cls (tick_battery x n) = cls n" "attached (tick_battery x n) = attached n"
  by (simp_all add: tick_battery_def Let_def)

lemma step_down_kind [simp]: "cls (step_down_sim t n) = cls n" "attached (step_down_sim t n) = attached n"
  by (simp_all add: step_down_sim_def Let_def)

lemma deliver_kind [simp]: "cls (deliver m n) = cls n" "attached (deliver m n) = attached n"
  by (simp_all add: deliver_def)


section \<open>Messages\<close>

lemma stays_reached:
  assumes "stays self c d" and "j = self \<or> can_reach self j d" and "keeps_kind f"
  shows "stays self c (upd j f d)"
proof -
  have "can_reach self k d = can_reach self k c" for k
    using assms(1) by (simp add: stays_def topology_def can_reach_def)
  then show ?thesis
    using assms by (auto simp: stays_def topology_upd)
qed

lemma stays_collector: "stays self c d \<Longrightarrow> stays self c (d\<lparr>collector := m, env := w\<rparr>)"
  by (simp add: stays_def topology_def)

lemma can_reach_env [simp]:
  "can_reach a b (d\<lparr>collector := m, env := w\<rparr>) = can_reach a b d"
  "can_reach a b (upd i f d) = can_reach a b d"
  "can_reach a b (d\<lparr>total_messages := k\<rparr>) = can_reach a b d"
  by (simp_all add: can_reach_def)

lemma stays_hook:
  assumes "stays (sender_id m) c d" and "can_reach (sender_id m) (recipient_id m) d"
  shows "stays (sender_id m) c (run_hook m d)"
  using assms
  by (auto simp: run_hook_def Let_def split_beta keeps_kind_def
      intro!: stays_reached stays_collector)

lemma stays_route:
  assumes "stays (sender_id m) c d"
  shows "stays (sender_id m) c (snd (route m d))"
proof -
  have total: "stays (sender_id m) c (e\<lparr>total_messages := k\<rparr>)" if "stays (sender_id m) c e" for e k
    using that by (simp add: stays_def topology_def)
  have "stays (sender_id m) c (upd (recipient_id m) (deliver m) d)"
    if "can_reach (sender_id m) (recipient_id m) d"
    using assms that by (intro stays_reached) (auto simp: keeps_kind_def)
  then show ?thesis
    using assms by (auto simp: route_def Let_def intro!: stays_hook total)
qed

lemma stays_if [stay]:
  "(b \<Longrightarrow> stays self c x) \<Longrightarrow> (\<not> b \<Longrightarrow> stays self c y) \<Longrightarrow> stays self c (if b then x else y)"
  by simp

lemma stays_case_option [stay]:
  "(v = None \<Longrightarrow> stays self c x) \<Longrightarrow> (\<And>a. v = Some a \<Longrightarrow> stays self c (y a)) \<Longrightarrow>
   stays self c (case v of None \<Rightarrow> x | Some a \<Rightarrow> y a)"
  by (cases v) simp_all

lemma stays_case_list [stay]:
  "(v = [] \<Longrightarrow> stays self c x) \<Longrightarrow> (\<And>a as. v = a # as \<Longrightarrow> stays self c (y a as)) \<Longrightarrow>
   stays self c (case v of [] \<Rightarrow> x | a # as \<Rightarrow> y a as)"
  by (cases v) simp_all

lemma stays_fold [stay]:
  "(\<And>x d. stays self c d \<Longrightarrow> stays self c (f x d)) \<Longrightarrow> stays self c d \<Longrightarrow> stays self c (fold f xs d)"
  by (induction xs arbitrary: d) auto

lemmas stay_defs = Let_def split_beta if_distrib [of snd] snd_conv

lemma stays_send [stay]: "stays self c d \<Longrightarrow> stays self c (send_msg self r p d)"
  using stays_route [of "\<lparr>sender_id = self, recipient_id = r, payload_of = p\<rparr>"]
  by (simp add: send_msg_def)

lemma stays_send_each [stay]: "stays self c d \<Longrightarrow> stays self c (send_each self p is d)"
  unfolding send_each_def by (intro stay)

lemma stays_broadcast [stay]: "stays self c d \<Longrightarrow> stays self c (broadcast_msg self p d)"
  unfolding broadcast_msg_def by (intro stay)

lemma stays_send_coordinators [stay]: "stays self c d \<Longrightarrow> stays self c (send_coordinators self p d)"
  unfolding send_coordinators_def by (intro stay)


section \<open>Coordinators\<close>

lemma stays_deadline [stay]: "stays self c d \<Longrightarrow> stays self c (snd (new_election_deadline_sim self d))"
  unfolding new_election_deadline_sim_def new_election_deadline_base_def new_election_deadline_echod_def stay_defs
  by (intro stay keeps_kindI) (simp_all add: note_sensor_def)

lemma stays_reset [stay]: "stays self c d \<Longrightarrow> stays self c (reset_election_timer_sim self d)"
  unfolding reset_election_timer_sim_def stay_defs
  by (intro stay keeps_kindI) (simp_all add: note_sensor_def)

lemma stays_ping [stay]: "stays self c d \<Longrightarrow> stays self c (send_liveness_ping_sim self d)"
  unfolding send_liveness_ping_sim_def send_liveness_ping_base_def send_liveness_ping_echod_def stay_defs
  by (intro stay keeps_kindI) (simp_all add: note_sensor_def)

lemma stays_send_ae [stay]: "stays self c d \<Longrightarrow> stays self c (send_append_entries_sim self p d)"
  unfolding send_append_entries_sim_def stay_defs
  by (intro stay keeps_kindI) (simp_all add: note_sensor_def)

lemma stays_send_all_ae [stay]: "stays self c d \<Longrightarrow> stays self c (send_all_append_entries self d)"
  unfolding send_all_append_entries_def stay_defs
  by (intro stay keeps_kindI) (simp_all add: note_sensor_def)

lemma stays_replicate [stay]: "stays self c d \<Longrightarrow> stays self c (replicate_entry_sim self cmd g d)"
  unfolding replicate_entry_sim_def stay_defs
  by (intro stay keeps_kindI) (simp_all add: note_sensor_def)

lemma stays_append_reply [stay]: "stays self c d \<Longrightarrow> stays self c (append_reply self r b m d)"
  unfolding append_reply_def stay_defs
  by (intro stay keeps_kindI) (simp_all add: note_sensor_def)

lemma stays_vote_reply [stay]: "stays self c d \<Longrightarrow> stays self c (vote_reply self r b d)"
  unfolding vote_reply_def stay_defs
  by (intro stay keeps_kindI) (simp_all add: note_sensor_def)

lemma stays_on_ping [stay]: "stays self c d \<Longrightarrow> stays self c (handle_liveness_ping_coord self s p d)"
  unfolding handle_liveness_ping_coord_def stay_defs
  by (intro stay keeps_kindI) (simp_all add: note_sensor_def)

lemma stays_ae_base [stay]: "stays self c d \<Longrightarrow> stays self c (handle_append_entries_base self s p d)"
  unfolding handle_append_entries_base_def stay_defs
  by (intro stay keeps_kindI) (simp_all add: note_sensor_def)

lemma stays_advance [stay]: "stays self c d \<Longrightarrow> stays self c (try_advance_commit_sim self d)"
  unfolding try_advance_commit_sim_def stay_defs
  by (intro stay keeps_kindI) (simp_all add: note_sensor_def)

lemma stays_ae_response [stay]: "stays self c d \<Longrightarrow> stays self c (handle_append_entries_response_sim self s p d)"
  unfolding handle_append_entries_response_sim_def stay_defs
  by (intro stay keeps_kindI) (simp_all add: note_sensor_def)

lemma stays_flush_pending [stay]: "stays self c d \<Longrightarrow> stays self c (flush_pending_triggers_sim self d)"
  unfolding flush_pending_triggers_sim_def flush_pending_triggers_echo_def flush_pending_triggers_echod_def stay_defs
  by (intro stay keeps_kindI) (simp_all add: note_sensor_def)

lemma stays_enter_provisional [stay]: "stays self c d \<Longrightarrow> stays self c (enter_provisional_mode_sim self d)"
  unfolding enter_provisional_mode_sim_def stay_defs
  by (intro stay keeps_kindI) (simp_all add: note_sensor_def)

lemma stays_ae_coord [stay]: "stays self c d \<Longrightarrow> stays self c (handle_append_entries_coord self s p d)"
  unfolding handle_append_entries_coord_def handle_append_entries_echo_def stay_defs
  by (intro stay keeps_kindI) (simp_all add: note_sensor_def)

lemma stays_stand [stay]: "stays self c d \<Longrightarrow> stays self c (stand self d)"
  unfolding stand_def stay_defs
  by (intro stay keeps_kindI) (simp_all add: note_sensor_def)

lemma stays_start_election [stay]: "stays self c d \<Longrightarrow> stays self c (start_election_sim self d)"
  unfolding start_election_sim_def start_election_base_def start_election_echod_def stay_defs
  by (intro stay keeps_kindI) (simp_all add: note_sensor_def)

lemma stays_request_vote [stay]: "stays self c d \<Longrightarrow> stays self c (handle_request_vote_sim self s p d)"
  unfolding handle_request_vote_sim_def handle_request_vote_base_def handle_request_vote_echo_def handle_request_vote_by_def stay_defs
  by (intro stay keeps_kindI) (simp_all add: note_sensor_def)

lemma stays_become_base [stay]: "stays self c d \<Longrightarrow> stays self c (become_leader_base self d)"
  unfolding become_leader_base_def stay_defs
  by (intro stay keeps_kindI) (simp_all add: note_sensor_def)

lemma stays_become_leader [stay]: "stays self c d \<Longrightarrow> stays self c (become_leader_sim self d)"
proof -
  assume "stays self c d"
  then have "stays self c (become_leader_base self d)" "stays self c (become_leader_echo self d)"
    "stays self c (become_leader_echod self d)"
    unfolding become_leader_echod_def become_leader_echo_def stay_defs
    by (intro stay keeps_kindI; simp)+
  then show ?thesis by (simp add: become_leader_sim_def split: node_class.split)
qed

lemma stays_vote_response [stay]: "stays self c d \<Longrightarrow> stays self c (handle_request_vote_response_sim self s p d)"
  unfolding handle_request_vote_response_sim_def handle_request_vote_response_base_def handle_request_vote_response_echo_def stay_defs
  by (intro stay keeps_kindI) (simp_all add: note_sensor_def)

lemma stays_handoff [stay]: "stays self c d \<Longrightarrow> stays self c (initiate_handoff_sim self d)"
  unfolding initiate_handoff_sim_def stay_defs
  by (intro stay keeps_kindI) simp_all

lemma stays_on_handoff [stay]: "stays self c d \<Longrightarrow> stays self c (handle_leadership_handoff_sim self s p d)"
  unfolding handle_leadership_handoff_sim_def stay_defs
  by (intro stay keeps_kindI) (simp_all add: note_sensor_def)

lemma stays_register [stay]: "stays self c d \<Longrightarrow> stays self c (handle_leaf_register_sim self s p d)"
  unfolding handle_leaf_register_sim_def stay_defs
  by (intro stay keeps_kindI) (simp_all add: note_sensor_def)

lemma stays_forward [stay]: "stays self c d \<Longrightarrow> stays self c (forward_report self p d)"
  unfolding forward_report_def stay_defs
  by (intro stay keeps_kindI) (simp_all add: note_sensor_def)

lemma stays_flush_batch [stay]: "stays self c d \<Longrightarrow> stays self c (flush_batch_sim self d)"
  unfolding flush_batch_sim_def stay_defs
  by (intro stay keeps_kindI) (simp_all add: note_sensor_def)

lemma stays_buffer [stay]: "stays self c d \<Longrightarrow> stays self c (buffer_reading self p d)"
  unfolding buffer_reading_def stay_defs
  by (intro stay keeps_kindI) (simp_all add: note_sensor_def)

lemma stays_sensor [stay]: "stays self c d \<Longrightarrow> stays self c (handle_sensor_data_coord self s p d)"
proof -
  assume "stays self c d"
  then have "stays self c (handle_sensor_data_base self s p d)"
    "stays self c (handle_sensor_data_echo self s p d)" "stays self c (handle_sensor_data_echod self s p d)"
    unfolding handle_sensor_data_echo_def handle_sensor_data_base_def handle_sensor_data_echod_def stay_defs
    by (intro stay keeps_kindI; simp add: note_sensor_def)+
  then show ?thesis by (simp add: handle_sensor_data_coord_def split: node_class.split)
qed

lemma stays_keepalives [stay]: "stays self c d \<Longrightarrow> stays self c (send_leaf_keepalives_sim self d)"
  unfolding send_leaf_keepalives_sim_def stay_defs
  by (intro stay keeps_kindI) (simp_all add: note_sensor_def)

lemma stays_lead_idle [stay]: "stays self c d \<Longrightarrow> stays self c (lead_idle_echod t self d)"
  unfolding lead_idle_echod_def stay_defs
  by (intro stay keeps_kindI) (simp_all add: note_sensor_def)

lemma stays_idle_coord [stay]: "stays self c d \<Longrightarrow> stays self c (on_idle_coord self d)"
proof -
  assume "stays self c d"
  then have "stays self c (on_idle_base self d)" "stays self c (on_idle_raft self d)"
    "stays self c (on_idle_echod self d)"
    unfolding on_idle_base_def on_idle_raft_def on_idle_echod_def stay_defs
    by (intro stay keeps_kindI; simp)+
  then show ?thesis by (simp add: on_idle_coord_def split: node_class.split)
qed

lemma stays_try_register [stay]: "stays self c d \<Longrightarrow> stays self c (try_register self d)"
  unfolding try_register_def stay_defs
  by (intro stay keeps_kindI) (simp_all add: note_sensor_def)

lemma stays_register_reply [stay]: "stays self c d \<Longrightarrow> stays self c (handle_leaf_register_response_leaf self s p d)"
  unfolding handle_leaf_register_response_leaf_def stay_defs
  by (intro stay keeps_kindI) (simp_all add: note_sensor_def)

lemma stays_reading [stay]: "stays self c d \<Longrightarrow> stays self c (send_reading self v d)"
  unfolding send_reading_def send_reading_base_def send_reading_echod_def stay_defs
  by (intro stay keeps_kindI) (simp_all add: note_sensor_def)

lemma stays_report [stay]: "stays self c d \<Longrightarrow> stays self c (report_sensor self d)"
  unfolding report_sensor_def stay_defs
  by (intro stay keeps_kindI) (simp_all add: note_sensor_def)

lemma stays_inject [stay]: "stays self c d \<Longrightarrow> stays self c (inject_reading self v d)"
  unfolding inject_reading_def stay_defs
  by (intro stay keeps_kindI) (simp_all add: note_sensor_def)

lemma stays_idle_leaf [stay]: "stays self c d \<Longrightarrow> stays self c (on_idle_leaf self d)"
  unfolding on_idle_leaf_def stay_defs
  by (intro stay keeps_kindI) (simp_all add: note_sensor_def)

lemma stays_ae_leaf [stay]: "stays self c d \<Longrightarrow> stays self c (handle_append_entries_leaf self s p d)"
  unfolding handle_append_entries_leaf_def stay_defs
  by (intro stay keeps_kindI) (simp_all add: note_sensor_def)

lemma stays_ping_leaf [stay]: "stays self c d \<Longrightarrow> stays self c (handle_liveness_ping_leaf self s p d)"
  unfolding handle_liveness_ping_leaf_def stay_defs
  by (intro stay keeps_kindI) (simp_all add: note_sensor_def)


section \<open>Turns\<close>

lemma stays_on_leaf_or [stay]:
  assumes "stays self c (f d)" and "stays self c (g d)"
  shows "stays self c (on_leaf_or self f g d)"
  using assms by (simp add: on_leaf_or_def)

lemma stays_handle_message [stay]: "stays self c d \<Longrightarrow> stays self c (handle_message self m d)"
  by (simp add: handle_message_def Let_def split: rpc.split) (intro conjI allI impI stay; simp)

lemma stays_idle [stay]: "stays self c d \<Longrightarrow> stays self c (on_idle self d)"
  unfolding on_idle_def by (intro stay)

lemma stays_wakeup [stay]: "stays self c d \<Longrightarrow> stays self c (snd (wakeup_interval self d))"
  unfolding wakeup_interval_def wakeup_interval_base_def wakeup_interval_echod_def stay_defs
  by (intro stay)

lemma stays_loop_round [stay]: "stays self c d \<Longrightarrow> stays self c (loop_round self d)"
  unfolding loop_round_def stay_defs
  by (intro stay keeps_kindI) simp_all

text \<open>
  What the scheduler relies on: a turn of a node stays within the node's side of the network.
\<close>

locale confined_turns =
  fixes step :: "string \<Rightarrow> cluster \<Rightarrow> cluster"
  assumes confined: "stays i c (step i c)"
begin

lemma steps_topology: "topology (fold step is c) = topology c"
  using confined by (induction "is" arbitrary: c) (simp_all add: stays_def)

lemma steps_confined:
  assumes "\<forall>i\<in>set is. i \<noteq> j \<and> \<not> can_reach i j c"
  shows "heap (fold step is c) j = heap c j"
  using assms
proof (induction "is" arbitrary: c)
  case Nil
  then show ?case by simp
next
  case (Cons i "is")
  have t: "topology (step i c) = topology c" and h: "heap (step i c) j = heap c j"
    using confined [of i c] Cons.prems by (auto simp: stays_def)
  have "can_reach k j (step i c) = can_reach k j c" for k
    using t by (simp add: topology_def can_reach_def)
  then show ?case
    using Cons.IH [of "step i c"] Cons.prems h by simp
qed

end

interpretation rounds: confined_turns loop_round
  by unfold_locales (intro stay)

interpretation readings: confined_turns "\<lambda>i. inject_reading i v"
  by unfold_locales (intro stay)

text \<open>C25. While the network is split into two disjoint sides, whatever the nodes of one side do in
  any number of turns, in any order, leaves every node of the other side exactly as it was:
  inbox, log, term, role and battery.\<close>

theorem partition_isolates_sides:
  assumes "c = inject_partition as bs c0" and "set as \<inter> set bs = {}" and "set is \<subseteq> set as"
    and "j \<in> set bs"
  shows "heap (fold loop_round is c) j = heap c j"
  by (rule rounds.steps_confined)
    (use assms in \<open>auto simp: can_reach_def inject_partition_def\<close>)

definition flat_world :: world where
  "flat_world = \<lparr>mono_tape = of_nat, mono_pos = 0, wall_tape = of_nat, wall_pos = 0,
     rand_tape = (\<lambda>_. 1 / 2), rand_pos = 0, adc_tape = (\<lambda>_. 4), adc_pos = 0\<rparr>"

theorem partition_isolates_sides_witness:
  "heap (fold loop_round [''a'', ''a''] (inject_partition [''a''] [''b''] (new_cluster flat_world))) ''b'' =
   new_node RaftNode 1"
  using partition_isolates_sides [OF refl, of "[''a'']" "[''b'']" "[''a'', ''a'']" "''b''" "new_cluster flat_world"]
  by (simp add: inject_partition_def new_cluster_def new_metrics_def split_beta Let_def)


section \<open>When the network is split\<close>

lemma partitions_tick_weighted [simp]:
  "partitions (tick_batteries_weighted b c) = partitions c"
  "members (tick_batteries_weighted b c) = members c"
  "env (tick_batteries_weighted b c) = env c"
proof -
  have "partitions (fold (\<lambda>i. upd i (f i)) xs c) = partitions c \<and>
      members (fold (\<lambda>i. upd i (f i)) xs c) = members c \<and>
      env (fold (\<lambda>i. upd i (f i)) xs c) = env c" for f xs
    by (induction xs arbitrary: c) simp_all
  from this [of "\<lambda>_ n. tick_battery (b * drain_mult n) n" "members c"]
  show "partitions (tick_batteries_weighted b c) = partitions c"
    "members (tick_batteries_weighted b c) = members c"
    "env (tick_batteries_weighted b c) = env c"
    by (simp_all add: tick_batteries_weighted_def)
qed

lemma partitions_observe: "partitions (snd (observe_leader prev c)) = partitions c"
  by (simp add: observe_leader_def Let_def split: list.split option.split)

lemma partitions_turn:
  "tn \<noteq> Housekeeping \<Longrightarrow> partitions (sc_cluster (take_turn a tn s)) = partitions (sc_cluster s)"
proof (cases tn)
  case (Node i)
  then show ?thesis
    using rounds.steps_topology [of "[i]" "sc_cluster s"] by (simp add: take_turn_def topology_def)
next
  case Driver
  have inject: "partitions (inject_reading i v c) = partitions c" for i v c
    using readings.steps_topology [of v "[i]" c] by (simp add: topology_def)
  have "partitions (replicate_raft i cmd c) = partitions c" for i cmd c
    using stays_replicate [OF stays_refl, of i c cmd LIVENESS]
    by (simp add: replicate_raft_def stays_def topology_def)
  with inject have "partitions (deliver_event ev c) = partitions c" for ev c
    by (simp add: deliver_event_def Let_def split: option.split)
  then show ?thesis
    using Driver by (simp add: take_turn_def split: list.split)
qed simp

text \<open>Only the housekeeping turn splits or heals the network: after one at elapsed time \<open>e\<close> the
  network is split exactly when it was split before or the time to split has come, and the
  time to heal has not; a new split halves the members in their order.\<close>

theorem partition_window:
  fixes a :: args
  assumes "\<not> effects_done s"
  defines "c \<equiv> sc_cluster s" and "s' \<equiv> take_turn a Housekeeping s"
  defines "e \<equiv> mono_tape (env c) (mono_pos (env c)) - effects_start s"
  shows "partitions (sc_cluster s') =
     (if after (heal_at a) e then []
      else if after (partition_at a) e \<and> partitions c = []
      then [set (take (length (members c) div 2) (members c)),
            set (drop (length (members c) div 2) (members c))]
      else partitions c) \<and>
   (tn \<noteq> Housekeeping \<longrightarrow> partitions (sc_cluster (take_turn a tn s)) = partitions c)"
proof -
  have t: "now c = (mono_tape (env c) (mono_pos (env c)), c\<lparr>env := (env c)\<lparr>mono_pos := Suc (mono_pos (env c))\<rparr>\<rparr>)"
    by (simp add: now_def monotonic_def)
  show ?thesis
    using assms(1) partitions_turn [of tn a s] unfolding s'_def
    by (auto simp: c_def [symmetric] take_turn_def side_effects_def t split_beta Let_def e_def
        partitions_observe snapshot_all_def split_members_def inject_partition_def heal_partition_def)
qed


definition split_scenario :: scenario where
  "split_scenario =
     \<lparr>sc_cluster = (new_cluster flat_world)\<lparr>members := [''a'', ''b'', ''c'']\<rparr>,
      effects_start = 0, effects_done = False, prev_leader = None, pending_events = []\<rparr>"

theorem partition_window_witness:
  "partitions (sc_cluster (take_turn (default_args\<lparr>partition_at := Some 1\<rparr>) Housekeeping split_scenario)) =
     [{''a''}, {''b'', ''c''}] \<and>
   partitions (sc_cluster (take_turn (default_args\<lparr>partition_at := Some 1, heal_at := Some 1\<rparr>)
     Housekeeping split_scenario)) = []"
proof -
  have "\<not> effects_done split_scenario" by (simp add: split_scenario_def)
  from partition_window [OF this] show ?thesis
    by (simp add: split_scenario_def flat_world_def new_cluster_def new_metrics_def monotonic_def after_def
        default_args_def insert_commute)
qed

end
