(* ===== verification/SimSound.thy ===== *)
theory SimSound
  imports SimFrame
begin

text \<open>
  An invariant of every simulated run: batteries stay between 0 and 1, and the log of every
  coordinator is numbered from 1 without gaps. It is carried by what the nodes have in their
  inboxes: an AppendEntries holds consecutive entries, and those before it are named by a
  term that no missing entry has.
\<close>

named_theorems sound \<open>a step keeps the invariant\<close>

section \<open>Numbered logs\<close>

definition numbered_from :: "int \<Rightarrow> sim_entry list \<Rightarrow> bool" where
  "numbered_from i es \<longleftrightarrow> (\<forall>k<length es. e_index (es ! k) = i + int k \<and> 1 \<le> e_term (es ! k))"

definition numbered_log :: "replicated_log \<Rightarrow> bool" where
  "numbered_log l \<longleftrightarrow> numbered_from 1 (entries l)"

lemma numbered_from_Nil [simp]: "numbered_from i []"
  by (simp add: numbered_from_def)

lemma numbered_from_Cons:
  "numbered_from i (e # es) \<longleftrightarrow> e_index e = i \<and> 1 \<le> e_term e \<and> numbered_from (i + 1) es"
  by (auto simp: numbered_from_def nth_Cons less_Suc_eq_0_disj split: nat.split)

lemma numbered_from_take: "numbered_from i es \<Longrightarrow> numbered_from i (take n es)"
  by (simp add: numbered_from_def)

lemma numbered_from_drop: "numbered_from i es \<Longrightarrow> numbered_from (i + int n) (drop n es)"
  by (simp add: numbered_from_def algebra_simps)

lemma numbered_snoc:
  "numbered_from i es \<Longrightarrow> e_index e = i + int (length es) \<Longrightarrow> 1 \<le> e_term e \<Longrightarrow>
   numbered_from i (es @ [e])"
  by (auto simp: numbered_from_def nth_append less_Suc_eq)

lemma numbered_append_log:
  "numbered_log l \<Longrightarrow> e_index e = last_index l + 1 \<Longrightarrow> 1 \<le> e_term e \<Longrightarrow> numbered_log (append_log e l)"
  by (simp add: numbered_log_def numbered_snoc last_index_def)

lemma numbered_commit [simp]: "numbered_log (snd (commit n l)) = numbered_log l"
  by (simp add: numbered_log_def)

lemma last_index_commit [simp]: "last_index (snd (commit n l)) = last_index l"
  by (simp add: last_index_def)

lemma term_at_pos:
  assumes "numbered_log l"
  shows "1 \<le> i \<and> i \<le> last_index l \<Longrightarrow> 1 \<le> term_at i l" and "term_at i l \<noteq> 0 \<Longrightarrow> i \<le> last_index l"
  using assms
  by (auto simp: term_at_def get_def numbered_log_def numbered_from_def last_index_def split: option.splits if_splits)

lemma splice_numbered:
  assumes "numbered_log l" and "1 \<le> e_index e" and "e_index e \<le> last_index l + 1" and "1 \<le> e_term e"
  shows "numbered_log (splice_entry e l)" and "e_index e \<le> last_index (splice_entry e l)"
proof -
  let ?i = "e_index e"
  have cut: "last_index (truncate_from ?i l) = ?i - 1" if "?i \<le> last_index l"
    using that assms(2) by (simp add: last_index_def entries_truncate)
  have num: "numbered_log (truncate_from ?i l)"
    using assms(1,2) by (simp add: numbered_log_def entries_truncate numbered_from_take)
  show "numbered_log (splice_entry e l)" and "?i \<le> last_index (splice_entry e l)"
    using assms cut num
    by (auto simp: splice_entry_def get_def numbered_append_log split: option.splits)
qed

lemma fold_splice_numbered:
  assumes "numbered_log l" and "numbered_from i es" and "1 \<le> i" and "i \<le> last_index l + 1"
  shows "numbered_log (fold splice_entry es l)"
  using assms
proof (induction es arbitrary: i l)
  case Nil
  then show ?case by simp
next
  case (Cons e es)
  then have e: "e_index e = i" "1 \<le> e_term e" "numbered_from (i + 1) es"
    by (simp_all add: numbered_from_Cons)
  have "numbered_log (splice_entry e l)" "i \<le> last_index (splice_entry e l)"
    using splice_numbered [of l e] Cons.prems e by simp_all
  with Cons.IH [of "splice_entry e l" "i + 1"] e Cons.prems show ?case by simp
qed


section \<open>Messages and nodes\<close>

definition wf_rpc :: "rpc \<Rightarrow> bool" where
  "wf_rpc p \<longleftrightarrow> (case p of
     AppendEntriesRPC t l prev pt es lc g ep \<Rightarrow>
       0 \<le> prev \<and> numbered_from (prev + 1) es \<and> (es \<noteq> [] \<and> 1 \<le> prev \<longrightarrow> 1 \<le> pt)
   | AppendEntriesResponse t ok r m b \<Rightarrow> 0 \<le> m
   | _ \<Rightarrow> True)"

definition campaigning :: "sim_state \<Rightarrow> bool" where
  "campaigning st \<longleftrightarrow> st = CANDIDATE \<or> st = LEADER \<or> st = LOCAL_LEADER"

definition sane_node :: "sim_node \<Rightarrow> bool" where
  "sane_node n \<longleftrightarrow> 0 \<le> battery n \<and> battery n \<le> 1 \<and>
     (coordinator_tier n \<longrightarrow> numbered_log (log n)) \<and>
     0 \<le> current_term n \<and> (campaigning (state n) \<longrightarrow> 1 \<le> current_term n) \<and>
     (\<forall>v\<in>set (map snd (next_index n)). 1 \<le> v) \<and>
     (\<forall>m\<in>set (inbox n). wf_rpc (payload_of m))"

definition sound_cluster :: "cluster \<Rightarrow> bool" where
  "sound_cluster c \<longleftrightarrow> (\<forall>i. sane_node (heap c i))"

lemma sane_fields [simp]:
  "sane_node (n\<lparr>voted_for := a1\<rparr>) = sane_node n"
  "sane_node (n\<lparr>attached := a2\<rparr>) = sane_node n"
  "sane_node (n\<lparr>running := a3\<rparr>) = sane_node n"
  "sane_node (n\<lparr>election_deadline := a4\<rparr>) = sane_node n"
  "sane_node (n\<lparr>votes_received := a5\<rparr>) = sane_node n"
  "sane_node (n\<lparr>match_index := a6\<rparr>) = sane_node n"
  "sane_node (n\<lparr>last_ping_time := a4\<rparr>) = sane_node n"
  "sane_node (n\<lparr>leaves := a7\<rparr>) = sane_node n"
  "sane_node (n\<lparr>last_sensor := a8\<rparr>) = sane_node n"
  "sane_node (n\<lparr>partition_epoch := a9\<rparr>) = sane_node n"
  "sane_node (n\<lparr>current_leader_id := a1\<rparr>) = sane_node n"
  "sane_node (n\<lparr>peer_batteries := a6\<rparr>) = sane_node n"
  "sane_node (n\<lparr>partition_detect_time := b1\<rparr>) = sane_node n"
  "sane_node (n\<lparr>pending_triggers := b2\<rparr>) = sane_node n"
  "sane_node (n\<lparr>tie_break_ms := a9\<rparr>) = sane_node n"
  "sane_node (n\<lparr>batch_buffer := b3\<rparr>) = sane_node n"
  "sane_node (n\<lparr>batch_deadline := b1\<rparr>) = sane_node n"
  "sane_node (n\<lparr>ping_interval_ms := a4\<rparr>) = sane_node n"
  "sane_node (n\<lparr>last_consensus_activity := a4\<rparr>) = sane_node n"
  "sane_node (n\<lparr>last_leaf_keepalive := a4\<rparr>) = sane_node n"
  "sane_node (n\<lparr>handoff_sent := a3\<rparr>) = sane_node n"
  "sane_node (n\<lparr>sensor_type := b4\<rparr>) = sane_node n"
  "sane_node (n\<lparr>coordinator_id := a1\<rparr>) = sane_node n"
  "sane_node (n\<lparr>auto_report := a3\<rparr>) = sane_node n"
  "sane_node (n\<lparr>last_coordinator_contact := a4\<rparr>) = sane_node n"
  "sane_node (n\<lparr>last_sample_time := a4\<rparr>) = sane_node n"
  "sane_node (n\<lparr>sensor_value := a4\<rparr>) = sane_node n"
  "sane_node (n\<lparr>last_transmitted := b1\<rparr>) = sane_node n"
  "sane_node (n\<lparr>suppressed_count := b5\<rparr>) = sane_node n"
  by (simp_all add: sane_node_def coordinator_tier_def)

lemma sane_role [simp]:
  "sane_node n \<Longrightarrow> sane_node (n\<lparr>state := FOLLOWER\<rparr>)" "sane_node n \<Longrightarrow> sane_node (n\<lparr>state := OBSERVER\<rparr>)"
  "sane_node n \<Longrightarrow> sane_node (n\<lparr>state := ACTIVE\<rparr>)" "sane_node n \<Longrightarrow> sane_node (n\<lparr>state := SEARCHING\<rparr>)"
  "sane_node n \<Longrightarrow> 1 \<le> current_term n \<Longrightarrow> sane_node (n\<lparr>state := st\<rparr>)"
  by (simp_all add: sane_node_def campaigning_def coordinator_tier_def)

lemma sane_tick [simp]: "sane_node n \<Longrightarrow> sane_node (tick_battery x n)"
proof -
  assume "sane_node n"
  then have "sane_node (n\<lparr>battery := max 0 (min 1 (battery n - x))\<rparr>)"
    by (simp add: sane_node_def coordinator_tier_def)
  then show ?thesis by (simp add: tick_battery_def Let_def)
qed

lemma sane_deliver [simp]: "sane_node n \<Longrightarrow> wf_rpc (payload_of m) \<Longrightarrow> sane_node (deliver m n)"
  by (auto simp: sane_node_def deliver_def coordinator_tier_def)

lemma sane_step_down [simp]:
  "sane_node n \<Longrightarrow> current_term n < t \<Longrightarrow> sane_node (step_down_sim t n)"
  by (simp add: sane_node_def step_down_sim_def Let_def campaigning_def coordinator_tier_def)


section \<open>Steps keep the invariant\<close>

lemma soundD: "sound_cluster c \<Longrightarrow> sane_node (heap c i)"
  by (simp add: sound_cluster_def)

lemma sound_upd [sound]:
  "sound_cluster d \<Longrightarrow> (sane_node (heap d i) \<Longrightarrow> sane_node (f (heap d i))) \<Longrightarrow>
   sound_cluster (upd i f d)"
  by (simp add: sound_cluster_def)

lemma sound_same_heap: "sound_cluster d \<Longrightarrow> heap e = heap d \<Longrightarrow> sound_cluster e"
  by (simp add: sound_cluster_def)

lemma sound_env [sound]: "sound_cluster d \<Longrightarrow> sound_cluster (d\<lparr>env := w\<rparr>)"
  by (erule sound_same_heap) simp

lemma heap_now [simp]: "heap (snd (now d)) = heap d"
  by (simp add: now_def split_beta)

lemma sound_now [sound]: "sound_cluster d \<Longrightarrow> sound_cluster (snd (now d))"
  by (erule sound_same_heap) simp

lemma sound_if [sound]:
  "(b \<Longrightarrow> sound_cluster x) \<Longrightarrow> (\<not> b \<Longrightarrow> sound_cluster y) \<Longrightarrow> sound_cluster (if b then x else y)"
  by simp

lemma sound_case_option [sound]:
  "(v = None \<Longrightarrow> sound_cluster x) \<Longrightarrow> (\<And>a. v = Some a \<Longrightarrow> sound_cluster (y a)) \<Longrightarrow>
   sound_cluster (case v of None \<Rightarrow> x | Some a \<Rightarrow> y a)"
  by (cases v) simp_all

lemma sound_case_list [sound]:
  "(v = [] \<Longrightarrow> sound_cluster x) \<Longrightarrow> (\<And>a as. v = a # as \<Longrightarrow> sound_cluster (y a as)) \<Longrightarrow>
   sound_cluster (case v of [] \<Rightarrow> x | a # as \<Rightarrow> y a as)"
  by (cases v) simp_all

lemma sound_fold [sound]:
  "(\<And>x d. sound_cluster d \<Longrightarrow> sound_cluster (f x d)) \<Longrightarrow> sound_cluster d \<Longrightarrow>
   sound_cluster (fold f xs d)"
  by (induction xs arbitrary: d) auto

text \<open>Sending ticks batteries and fills inboxes; terms and logs stay.\<close>

definition same_logs :: "cluster \<Rightarrow> cluster \<Rightarrow> bool" where
  "same_logs d e \<longleftrightarrow> (\<forall>j. current_term (heap e j) = current_term (heap d j) \<and>
     log (heap e j) = log (heap d j) \<and> cls (heap e j) = cls (heap d j) \<and>
     next_index (heap e j) = next_index (heap d j))"

lemma tick_log [simp]: "current_term (tick_battery x n) = current_term n" "log (tick_battery x n) = log n"
  "next_index (tick_battery x n) = next_index n"
  by (simp_all add: tick_battery_def Let_def)

lemma same_logs_hook: "same_logs d (run_hook m d)"
  by (simp add: run_hook_def Let_def split_beta same_logs_def)

lemma same_logs_route: "same_logs d (snd (route m d))"
proof -
  let ?e = "(upd (recipient_id m) (deliver m) d)\<lparr>total_messages := Suc (total_messages d)\<rparr>"
  have "same_logs d ?e"
    by (simp add: same_logs_def deliver_def)
  with same_logs_hook [of ?e m] show ?thesis
    by (auto simp: route_def Let_def same_logs_def)
qed

lemma sound_hook:
  assumes "sound_cluster d"
  shows "sound_cluster (run_hook m d)"
proof -
  have heap: "heap (d\<lparr>collector := x, env := w\<rparr>) = heap d" for x w by simp
  have "sound_cluster (d\<lparr>collector := x, env := w\<rparr>)" for x w
    using assms heap by (rule sound_same_heap)
  then show ?thesis
    by (auto simp: run_hook_def Let_def split_beta intro!: sound_upd)
qed

lemma sound_route:
  assumes "sound_cluster d" and "wf_rpc (payload_of m)"
  shows "sound_cluster (snd (route m d))"
proof -
  let ?e = "(upd (recipient_id m) (deliver m) d)\<lparr>total_messages := Suc (total_messages d)\<rparr>"
  have "sound_cluster (upd (recipient_id m) (deliver m) d)"
    using assms by (intro sound_upd sane_deliver)
  then have "sound_cluster ?e"
    by (rule sound_same_heap) simp
  with sound_hook [OF this, of m] assms(1) show ?thesis
    by (simp add: route_def Let_def)
qed

lemma sound_send [sound]: "sound_cluster d \<Longrightarrow> wf_rpc p \<Longrightarrow> sound_cluster (send_msg self r p d)"
  by (simp add: send_msg_def sound_route)

lemma same_logs_refl [simp]: "same_logs d d"
  by (simp add: same_logs_def)

lemma same_logs_trans: "same_logs c d \<Longrightarrow> same_logs d e \<Longrightarrow> same_logs c e"
  by (simp add: same_logs_def)

lemma same_logs_send: "same_logs d (send_msg self r p d)"
  by (simp add: send_msg_def same_logs_route)

lemma same_logs_fold:
  "(\<And>x e. same_logs e (f x e)) \<Longrightarrow> same_logs d (fold f xs d)"
proof (rule fold_invariant [where P = "same_logs d" and Q = "\<lambda>_. True"])
  fix x e
  assume "\<And>x e. same_logs e (f x e)" and "same_logs d e"
  then show "same_logs d (f x e)" by (rule same_logs_trans [rotated])
qed simp_all

lemma same_logs_send_each: "same_logs d (send_each self p is d)"
  unfolding send_each_def by (intro same_logs_fold same_logs_send)

lemma same_logs_coordinators: "same_logs d (send_coordinators self p d)" "same_logs d (broadcast_msg self p d)"
  by (simp_all add: send_coordinators_def broadcast_msg_def same_logs_send_each)

lemma same_logs_send_ae: "same_logs d (send_append_entries_sim self p d)"
  by (simp add: send_append_entries_sim_def Let_def same_logs_send)

lemma same_logs_send_all: "same_logs d (send_all_append_entries self d)"
  unfolding send_all_append_entries_def by (intro same_logs_fold same_logs_send_ae)

lemma same_logs_ping: "same_logs d (send_liveness_ping_sim self d)"
  using same_logs_coordinators [of d self "LivenessPingMsg (current_term (heap d self)) self"]
  by (simp add: send_liveness_ping_sim_def send_liveness_ping_base_def send_liveness_ping_echod_def
      same_logs_def Let_def)

lemma term_replicate [simp]:
  "current_term (heap (replicate_entry_sim self cmd g d) j) = current_term (heap d j)"
  using same_logs_send_all [of "upd self (\<lambda>n. n\<lparr>log := append_log
      \<lparr>e_index = last_index (log (heap d self)) + 1, e_term = current_term (heap d self),
       e_command = cmd, e_trigger_type = g, e_partition_epoch = partition_epoch (heap d self)\<rparr>
      (log n)\<rparr>) d" self]
  by (simp add: replicate_entry_sim_def Let_def same_logs_def)

lemma term_ping [simp]: "current_term (heap (send_liveness_ping_sim self d) j) = current_term (heap d j)"
  using same_logs_ping by (simp add: same_logs_def)


section \<open>Handlers keep the invariant\<close>

lemmas sound_defs = Let_def split_beta if_distrib [of snd] snd_conv

lemma sound_send_each [sound]: "sound_cluster d \<Longrightarrow> wf_rpc p \<Longrightarrow> sound_cluster (send_each self p is d)"
  unfolding send_each_def by (intro sound)

lemma sound_broadcast [sound]: "sound_cluster d \<Longrightarrow> wf_rpc p \<Longrightarrow> sound_cluster (broadcast_msg self p d)"
  unfolding broadcast_msg_def by (intro sound)

lemma sound_send_coordinators [sound]:
  "sound_cluster d \<Longrightarrow> wf_rpc p \<Longrightarrow> sound_cluster (send_coordinators self p d)"
  unfolding send_coordinators_def by (intro sound)

lemma sound_deadline [sound]:
  "sound_cluster d \<Longrightarrow> sound_cluster (snd (new_election_deadline_sim self d))"
  unfolding new_election_deadline_sim_def new_election_deadline_base_def
    new_election_deadline_echod_def sound_defs
  by (intro sound)

lemma sound_reset [sound]: "sound_cluster d \<Longrightarrow> sound_cluster (reset_election_timer_sim self d)"
  unfolding reset_election_timer_sim_def sound_defs by (intro sound) simp_all

lemma heap_deadline [simp]: "heap (snd (new_election_deadline_sim self d)) = heap d"
  by (simp add: new_election_deadline_sim_def new_election_deadline_base_def
      new_election_deadline_echod_def split_beta Let_def)

lemma heap_reset [simp]:
  "heap (reset_election_timer_sim self d) j =
     (if j = self then (heap d self)\<lparr>election_deadline := fst (new_election_deadline_sim self d)\<rparr>
      else heap d j)"
  by (simp add: reset_election_timer_sim_def split_beta)

lemma sound_ping [sound]: "sound_cluster d \<Longrightarrow> sound_cluster (send_liveness_ping_sim self d)"
  unfolding send_liveness_ping_sim_def send_liveness_ping_base_def send_liveness_ping_echod_def sound_defs
  by (intro sound) (simp_all add: wf_rpc_def)

text \<open>The entries a leader sends continue the index they are said to continue.\<close>

lemma dget_or_bound:
  "\<forall>v\<in>set (map snd d). 1 \<le> v \<Longrightarrow> 1 \<le> dget_or d k (1 :: int)"
  by (force simp: dget_or_def py_get_def dest!: map_of_SomeD split: option.split)

lemma wf_append_entries:
  assumes "sane_node n" and "coordinator_tier n"
  shows "wf_rpc (AppendEntriesRPC t i (dget_or (next_index n) p 1 - 1)
    (term_at (dget_or (next_index n) p 1 - 1) (log n))
    (entries_from (dget_or (next_index n) p 1 - 1 + 1) (log n)) k g ep)"
proof -
  define prev where "prev = dget_or (next_index n) p 1 - 1"
  have num: "numbered_log (log n)" and prev: "0 \<le> prev"
    using assms dget_or_bound [of "next_index n" p] by (simp_all add: sane_node_def prev_def)
  have es: "entries_from (prev + 1) (log n) = drop (nat prev) (entries (log n))"
    using prev by (simp add: entries_from_pos)
  have "numbered_from (prev + 1) (drop (nat prev) (entries (log n)))"
    using num numbered_from_drop [of 1 "entries (log n)" "nat prev"] prev by (simp add: numbered_log_def add.commute)
  moreover have "1 \<le> term_at prev (log n)" if "drop (nat prev) (entries (log n)) \<noteq> []" "1 \<le> prev"
    using that num by (intro term_at_pos) (auto simp: last_index_def)
  ultimately show ?thesis
    using prev unfolding prev_def [symmetric] by (simp add: wf_rpc_def es)
qed

lemma sound_send_ae [sound]:
  assumes "sound_cluster d" and "coordinator_tier (heap d self)"
  shows "sound_cluster (send_append_entries_sim self p d)"
  unfolding send_append_entries_sim_def Let_def
  using assms soundD [OF assms(1)] by (intro sound wf_append_entries)

lemma tier_same_logs: "same_logs d e \<Longrightarrow> coordinator_tier (heap e j) = coordinator_tier (heap d j)"
  by (simp add: same_logs_def coordinator_tier_def)

lemma sound_send_all_ae [sound]:
  assumes "sound_cluster d" and "coordinator_tier (heap d self)"
  shows "sound_cluster (send_all_append_entries self d)"
proof -
  have "sound_cluster (fold (send_append_entries_sim self) xs d) \<and>
      coordinator_tier (heap (fold (send_append_entries_sim self) xs d) self)" for xs
    by (rule fold_invariant [where Q = "\<lambda>_. True"])
      (use assms in \<open>auto simp: tier_same_logs [OF same_logs_send_ae] intro: sound_send_ae\<close>)
  then show ?thesis by (simp add: send_all_append_entries_def)
qed

lemma sound_replicate [sound]:
  assumes "sound_cluster d" and "coordinator_tier (heap d self)" and "1 \<le> current_term (heap d self)"
  shows "sound_cluster (replicate_entry_sim self cmd g d)"
  unfolding replicate_entry_sim_def sound_defs
  using assms
  by (intro sound) (simp_all add: sane_node_def coordinator_tier_def numbered_append_log)


text \<open>The class of a node and its term after the calls that handlers continue from.\<close>

lemma stays_cls: "stays self c d \<Longrightarrow> cls (heap d j) = cls (heap c j)"
  by (auto simp: stays_def topology_def dest: fun_cong)

lemma cls_frame [simp]:
  "cls (heap (reset_election_timer_sim self d) j) = cls (heap d j)"
  "cls (heap (send_liveness_ping_sim self d) j) = cls (heap d j)"
  "cls (heap (replicate_entry_sim self cmd g d) j) = cls (heap d j)"
  "cls (heap (become_leader_base self d) j) = cls (heap d j)"
  "cls (heap (send_msg self r p d) j) = cls (heap d j)"
  "cls (heap (flush_batch_sim self d) j) = cls (heap d j)"
  by (rule stays_cls [where self = self and c = d], intro stay)+

lemma tier_frame [simp]: "coordinator_tier (step_down_sim t n) = coordinator_tier n"
  "coordinator_tier (n\<lparr>log := l\<rparr>) = coordinator_tier n"
  by (simp_all add: coordinator_tier_def)

lemma campaigning_term: "sane_node n \<Longrightarrow> campaigning (state n) \<Longrightarrow> 1 \<le> current_term n"
  by (simp add: sane_node_def)

lemma sound_on_ping [sound]:
  "sound_cluster d \<Longrightarrow> sound_cluster (handle_liveness_ping_coord self s p d)"
  unfolding handle_liveness_ping_coord_def sound_defs by (intro sound) simp_all

lemma sound_append_reply [sound]:
  "sound_cluster d \<Longrightarrow> 0 \<le> m \<Longrightarrow> sound_cluster (append_reply self s ok m d)"
  unfolding append_reply_def by (intro sound) (simp_all add: wf_rpc_def)

lemma sound_vote_reply [sound]: "sound_cluster d \<Longrightarrow> sound_cluster (vote_reply self s g d)"
  unfolding vote_reply_def by (intro sound) (simp_all add: wf_rpc_def)

lemma accept_numbered:
  assumes "numbered_log l" and "wf_rpc p" and p: "p = AppendEntriesRPC t i prev pt es k g ep"
    and "\<not> (prev > 0 \<and> term_at prev l \<noteq> pt)"
  shows "numbered_log (accept_entries p l)"
proof -
  have w: "0 \<le> prev" "numbered_from (prev + 1) es" "es \<noteq> [] \<and> 1 \<le> prev \<longrightarrow> 1 \<le> pt"
    using assms(2) by (simp_all add: wf_rpc_def p)
  have "numbered_log (fold splice_entry es l)"
  proof (cases "es = []")
    case False
    have "prev \<le> last_index l"
    proof (cases "prev = 0")
      case False
      then have "term_at prev l \<noteq> 0" using w \<open>es \<noteq> []\<close> assms(4) by auto
      then show ?thesis by (rule term_at_pos(2) [OF assms(1)])
    qed (simp add: last_index_def)
    then show ?thesis
      using fold_splice_numbered [OF assms(1) w(2)] w(1) by simp
  qed (simp add: assms(1))
  then show ?thesis by (simp add: accept_entries_def Let_def p)
qed

lemma sane_accept:
  assumes "sane_node n" and "wf_rpc p" and "p = AppendEntriesRPC t i prev pt es k g ep"
    and "\<not> (prev > 0 \<and> term_at prev (log n) \<noteq> pt)"
  shows "sane_node (n\<lparr>log := accept_entries p (log n)\<rparr>)"
  using assms accept_numbered [OF _ assms(2-4)]
  by (simp add: sane_node_def coordinator_tier_def)

lemma last_index_nonneg [simp]: "0 \<le> last_index l"
  by (simp add: last_index_def)

lemma sound_ae_base [sound]:
  assumes "sound_cluster d" and w: "wf_rpc p" and p: "p = AppendEntriesRPC t i prev pt es k g ep"
  shows "sound_cluster (handle_append_entries_base self s p d)"
  unfolding handle_append_entries_base_def sound_defs
  using assms(1)
  by (intro sound sane_accept [OF _ w p]) (simp_all add: p)

lemma sane_commit [simp]: "sane_node n \<Longrightarrow> sane_node (n\<lparr>log := snd (commit k (log n))\<rparr>)"
  by (simp add: sane_node_def coordinator_tier_def)

lemma sound_advance [sound]: "sound_cluster d \<Longrightarrow> sound_cluster (try_advance_commit_sim self d)"
  unfolding try_advance_commit_sim_def sound_defs by (intro sound) simp_all

lemma sane_next:
  assumes "sane_node n" and "1 \<le> v"
  shows "sane_node (n\<lparr>next_index := dput k v (next_index n)\<rparr>)"
proof -
  have "\<forall>x\<in>set (map snd (next_index n)). 1 \<le> x"
    using assms(1) unfolding sane_node_def by blast
  then have "\<forall>x\<in>set (map snd (dput k v (next_index n))). 1 \<le> x"
    using set_map_snd_dput [of k v "next_index n"] assms(2) by blast
  then show ?thesis
    using assms(1) by (simp add: sane_node_def coordinator_tier_def)
qed

lemma sound_ae_response [sound]:
  assumes "sound_cluster d" and "wf_rpc p" and p: "p = AppendEntriesResponse t ok r m b"
  shows "sound_cluster (handle_append_entries_response_sim self s p d)"
proof -
  define e where "e = (if b \<noteq> 0
      then upd self (\<lambda>n. n\<lparr>peer_batteries := dput s b (peer_batteries n)\<rparr>) d else d)"
  have e: "sound_cluster e"
    unfolding e_def using assms(1) by (intro sound) simp_all
  have m: "0 \<le> m" using assms(2) by (simp add: p wf_rpc_def)
  have ok: "sound_cluster (try_advance_commit_sim self (upd self (\<lambda>n. n\<lparr>
      next_index := dput s (m + 1) (next_index n), match_index := dput s m (match_index n)\<rparr>) e))"
    using e m by (intro sound) (simp_all add: sane_next)
  have refused: "sound_cluster (upd self (\<lambda>n. n\<lparr>next_index :=
      dput s (max 1 (dget_or (next_index n) s 1 - 1)) (next_index n)\<rparr>) e)"
    using e by (intro sound) (simp_all add: sane_next)
  have old: "sound_cluster (upd self (step_down_sim t) d)" if "t > current_term (heap d self)"
    using assms(1) that by (intro sound) simp_all
  show ?thesis
    unfolding handle_append_entries_response_sim_def Let_def p rpc.sel e_def [symmetric]
    using e ok refused old by (intro sound_if)
qed

lemma sound_replicates:
  assumes "sound_cluster d" and "coordinator_tier (heap d self)" and "1 \<le> current_term (heap d self)"
  shows "sound_cluster (fold (\<lambda>(cmd, g). replicate_entry_sim self cmd g) ps d)"
proof -
  let ?ok = "\<lambda>d. sound_cluster d \<and> coordinator_tier (heap d self) \<and> 1 \<le> current_term (heap d self)"
  have "?ok (fold (\<lambda>(cmd, g). replicate_entry_sim self cmd g) ps d)"
    by (rule fold_invariant [where Q = "\<lambda>_. True"])
      (use assms in \<open>auto simp: coordinator_tier_def split_beta intro!: sound_replicate\<close>)
  then show ?thesis by simp
qed

lemma sound_flush_pending [sound]:
  assumes "sound_cluster d" and "coordinator_tier (heap d self)" and "1 \<le> current_term (heap d self)"
  shows "sound_cluster (flush_pending_triggers_sim self d)"
  unfolding flush_pending_triggers_sim_def flush_pending_triggers_echo_def
    flush_pending_triggers_echod_def Let_def split_beta
  using assms
  by (intro sound sound_replicates [unfolded split_beta]) (simp_all add: coordinator_tier_def)

lemma sound_enter_provisional [sound]:
  "sound_cluster d \<Longrightarrow> sound_cluster (enter_provisional_mode_sim self d)"
  unfolding enter_provisional_mode_sim_def sound_defs
  by (intro sound) (simp_all add: campaigning_term campaigning_def)

lemma sound_ae_coord [sound]:
  assumes "sound_cluster d" and "wf_rpc p" and "p = AppendEntriesRPC t i prev pt es k g ep"
  shows "sound_cluster (handle_append_entries_coord self s p d)"
  unfolding handle_append_entries_coord_def handle_append_entries_echo_def sound_defs
  using assms(1) by (intro sound sound_ae_base [OF _ assms(2,3)])


section \<open>Elections\<close>

lemma sound_stand [sound]: "sound_cluster d \<Longrightarrow> sound_cluster (stand self d)"
  unfolding stand_def Let_def
  by (intro sound) (auto simp: sane_node_def coordinator_tier_def)

lemma sound_start_election [sound]: "sound_cluster d \<Longrightarrow> sound_cluster (start_election_sim self d)"
  unfolding start_election_sim_def start_election_base_def start_election_echod_def Let_def
  by (intro sound) (simp_all add: wf_rpc_def vote_request_sim_def)

lemma sound_request_vote [sound]:
  "sound_cluster d \<Longrightarrow> sound_cluster (handle_request_vote_sim self s p d)"
  unfolding handle_request_vote_sim_def handle_request_vote_base_def handle_request_vote_echo_def
    handle_request_vote_by_def Let_def
  by (intro sound) simp_all

lemma term_fold_upd:
  "(\<And>x n. current_term (f x n) = current_term n) \<Longrightarrow>
   current_term (heap (fold (\<lambda>x. upd i (f x)) xs d) j) = current_term (heap d j)"
  by (induction xs arbitrary: d) auto

lemma term_become_base [simp]:
  "current_term (heap (become_leader_base self d) j) = current_term (heap d j)"
  by (simp add: become_leader_base_def Let_def split_beta term_fold_upd)

lemma sound_become_base [sound]:
  assumes "sound_cluster d" and "1 \<le> current_term (heap d self)"
  shows "sound_cluster (become_leader_base self d)"
  unfolding become_leader_base_def Let_def split_beta
  using assms
  by (intro sound) (simp_all add: sane_next)

lemma sound_become_leader [sound]:
  assumes "sound_cluster d" and "1 \<le> current_term (heap d self)" and "coordinator_tier (heap d self)"
  shows "sound_cluster (become_leader_sim self d)"
proof -
  have "sound_cluster (become_leader_base self d)" "sound_cluster (become_leader_echo self d)"
    "sound_cluster (become_leader_echod self d)"
    unfolding become_leader_echod_def become_leader_echo_def Let_def
    using assms by (intro sound; simp add: coordinator_tier_def)+
  then show ?thesis by (simp add: become_leader_sim_def split: node_class.split)
qed

lemma sound_vote_response [sound]:
  assumes "sound_cluster d" and "coordinator_tier (heap d self)"
  shows "sound_cluster (handle_request_vote_response_sim self s p d)"
  unfolding handle_request_vote_response_sim_def handle_request_vote_response_base_def
    handle_request_vote_response_echo_def Let_def
  using assms soundD [OF assms(1), of self]
  by (intro sound) (simp_all add: coordinator_tier_def campaigning_term campaigning_def)

lemma sound_handoff [sound]: "sound_cluster d \<Longrightarrow> sound_cluster (initiate_handoff_sim self d)"
  unfolding initiate_handoff_sim_def Let_def split_beta
  by (intro sound) (simp_all add: wf_rpc_def)

lemma sound_on_handoff [sound]:
  "sound_cluster d \<Longrightarrow> sound_cluster (handle_leadership_handoff_sim self s p d)"
  unfolding handle_leadership_handoff_sim_def Let_def by (intro sound) simp_all

end
