(* ===== verification/SimRuns.thy ===== *)
theory SimRuns
  imports SimSound
begin

text \<open>
  The invariant of \<open>SimSound\<close> over whole runs: the remaining handlers, the event loop, the
  housekeeping and the workload, from the three cluster builders on.
\<close>

section \<open>Sensor data and idle ticks\<close>

lemma sound_register [sound]:
  "sound_cluster d \<Longrightarrow> sound_cluster (handle_leaf_register_sim self s p d)"
  unfolding handle_leaf_register_sim_def Let_def by (intro sound) (simp_all add: wf_rpc_def)

lemma wf_report [simp]: "wf_rpc (SensorDataReport i k v)"
  by (simp add: wf_rpc_def)

lemma sound_forward [sound]:
  "sound_cluster d \<Longrightarrow> wf_rpc p \<Longrightarrow> sound_cluster (forward_report self p d)"
  unfolding forward_report_def by (intro sound)

lemma sound_flush_batch [sound]:
  assumes "sound_cluster d" and "coordinator_tier (heap d self)" and "1 \<le> current_term (heap d self)"
  shows "sound_cluster (flush_batch_sim self d)"
  unfolding flush_batch_sim_def Let_def split_beta
  using assms by (intro sound) (simp_all add: coordinator_tier_def)

lemma heap_buffer:
  "current_term (heap (buffer_reading self p d) j) = current_term (heap d j)"
  "cls (heap (buffer_reading self p d) j) = cls (heap d j)"
  by (simp_all add: buffer_reading_def Let_def split_beta note_sensor_def)

lemma sound_buffer [sound]: "sound_cluster d \<Longrightarrow> sound_cluster (buffer_reading self p d)"
  unfolding buffer_reading_def sound_defs by (intro sound) (simp_all add: note_sensor_def)

lemma leading_term:
  assumes "sound_cluster d" and "is_leading (heap d self)"
  shows "1 \<le> current_term (heap d self)"
  using soundD [OF assms(1), of self] assms(2)
  by (auto simp: is_leading_def campaigning_term campaigning_def)

lemma sound_sensor [sound]:
  assumes "sound_cluster d" and "coordinator_tier (heap d self)" and "wf_rpc p"
  shows "sound_cluster (handle_sensor_data_coord self s p d)"
proof -
  note lead = leading_term [OF assms(1), of self]
  have base: "sound_cluster (handle_sensor_data_base self s p d)"
    unfolding handle_sensor_data_base_def
    using assms lead by (intro sound) (simp_all add: note_sensor_def coordinator_tier_def is_leading_def)
  then have "sound_cluster (handle_sensor_data_echo self s p d)"
    unfolding handle_sensor_data_echo_def using assms by (intro sound)
  moreover have "sound_cluster (handle_sensor_data_echod self s p d)"
    unfolding handle_sensor_data_echod_def Let_def
    using assms lead by (intro sound) (simp_all add: heap_buffer coordinator_tier_def)
  ultimately show ?thesis
    using base by (simp add: handle_sensor_data_coord_def split: node_class.split)
qed

lemma sound_keepalives [sound]: "sound_cluster d \<Longrightarrow> sound_cluster (send_leaf_keepalives_sim self d)"
  unfolding send_leaf_keepalives_sim_def by (intro sound) (simp_all add: wf_rpc_def)

lemma sound_lead_idle [sound]:
  assumes "sound_cluster d" and "coordinator_tier (heap d self)" and "is_leading (heap d self)"
  shows "sound_cluster (lead_idle_echod t self d)"
  unfolding lead_idle_echod_def Let_def
  using assms leading_term [OF assms(1,3)] by (intro sound) simp_all

lemma sound_idle_coord [sound]:
  assumes "sound_cluster d" and "coordinator_tier (heap d self)"
  shows "sound_cluster (on_idle_coord self d)"
proof -
  have "sound_cluster (on_idle_base self d)" "sound_cluster (on_idle_raft self d)"
    "sound_cluster (on_idle_echod self d)"
    unfolding on_idle_base_def on_idle_raft_def on_idle_echod_def Let_def split_beta
    using assms by (intro sound; simp)+
  then show ?thesis by (simp add: on_idle_coord_def split: node_class.split)
qed


section \<open>Leaves\<close>

lemma sound_try_register [sound]: "sound_cluster d \<Longrightarrow> sound_cluster (try_register self d)"
  unfolding try_register_def Let_def split_beta by (intro sound) (simp_all add: wf_rpc_def)

lemma sound_register_reply [sound]:
  "sound_cluster d \<Longrightarrow> sound_cluster (handle_leaf_register_response_leaf self s p d)"
  unfolding handle_leaf_register_response_leaf_def Let_def split_beta by (intro sound) simp_all

lemma sound_reading [sound]: "sound_cluster d \<Longrightarrow> sound_cluster (send_reading self v d)"
  unfolding send_reading_def send_reading_base_def send_reading_echod_def
  by (intro sound) simp_all

lemma sound_report [sound]: "sound_cluster d \<Longrightarrow> sound_cluster (report_sensor self d)"
  unfolding report_sensor_def Let_def split_beta by (intro sound) simp_all

lemma sound_inject [sound]: "sound_cluster d \<Longrightarrow> sound_cluster (inject_reading self v d)"
  unfolding inject_reading_def by (intro sound) simp_all

lemma sound_idle_leaf [sound]: "sound_cluster d \<Longrightarrow> sound_cluster (on_idle_leaf self d)"
  unfolding on_idle_leaf_def Let_def split_beta by (intro sound) simp_all

lemma sound_ae_leaf [sound]:
  assumes "sound_cluster d" and "\<not> coordinator_tier (heap d self)"
  shows "sound_cluster (handle_append_entries_leaf self s p d)"
  unfolding handle_append_entries_leaf_def Let_def split_beta
  using assms by (intro sound) (auto simp: sane_node_def coordinator_tier_def)

lemma sound_ping_leaf [sound]: "sound_cluster d \<Longrightarrow> sound_cluster (handle_liveness_ping_leaf self s p d)"
  unfolding handle_liveness_ping_leaf_def Let_def split_beta by (intro sound) simp_all


section \<open>The event loop\<close>

lemma sound_on_leaf_or [sound]:
  "(\<not> coordinator_tier (heap d self) \<Longrightarrow> sound_cluster (f d)) \<Longrightarrow>
   (coordinator_tier (heap d self) \<Longrightarrow> sound_cluster (g d)) \<Longrightarrow> sound_cluster (on_leaf_or self f g d)"
  by (simp add: on_leaf_or_def)

lemma sound_handle_message:
  assumes "sound_cluster d" and "wf_rpc (payload_of m)"
  shows "sound_cluster (handle_message self m d)"
proof (cases "payload_of m")
  case (AppendEntriesRPC t i prev pt es k g ep)
  have "sound_cluster (handle_append_entries_coord self (sender_id m) (payload_of m) d)"
    using assms AppendEntriesRPC by (rule sound_ae_coord)
  then show ?thesis
    using assms AppendEntriesRPC
    by (simp add: handle_message_def Let_def) (intro sound_on_leaf_or sound_ae_leaf; simp)
next
  case (AppendEntriesResponse t ok r k b)
  have "sound_cluster (handle_append_entries_response_sim self (sender_id m) (payload_of m) d)"
    using assms AppendEntriesResponse by (rule sound_ae_response)
  then show ?thesis
    using assms AppendEntriesResponse by (simp add: handle_message_def Let_def) (intro sound_on_leaf_or; simp)
qed (use assms in \<open>simp_all add: handle_message_def Let_def on_leaf_or_def sound_request_vote
    sound_vote_response sound_on_ping sound_on_handoff sound_register sound_register_reply
    sound_sensor sound_ping_leaf\<close>)

lemma sound_idle [sound]: "sound_cluster d \<Longrightarrow> sound_cluster (on_idle self d)"
  unfolding on_idle_def by (intro sound)

lemma sound_wakeup [sound]: "sound_cluster d \<Longrightarrow> sound_cluster (snd (wakeup_interval self d))"
  unfolding wakeup_interval_def wakeup_interval_base_def wakeup_interval_echod_def sound_defs
  by (intro sound)

lemma sound_loop_round [sound]:
  assumes "sound_cluster d"
  shows "sound_cluster (loop_round self d)"
proof -
  let ?e = "snd (wakeup_interval self d)"
  have e: "sound_cluster ?e" using assms by (rule sound_wakeup)
  show ?thesis
  proof (cases "inbox (heap ?e self)")
    case Nil
    then show ?thesis using assms e by (simp add: loop_round_def split_beta Let_def sound_idle)
  next
    case (Cons m ms)
    then have wf: "wf_rpc (payload_of m)" and "\<forall>m\<in>set ms. wf_rpc (payload_of m)"
      using soundD [OF e, of self] by (simp_all add: sane_node_def)
    then have "sound_cluster (upd self (\<lambda>n. n\<lparr>inbox := ms\<rparr>) ?e)"
      using e by (intro sound_upd) (simp_all add: sane_node_def coordinator_tier_def)
    then show ?thesis
      using Cons assms wf by (simp add: loop_round_def split_beta Let_def sound_handle_message)
  qed
qed


section \<open>Turns\<close>

lemma sound_ticks [sound]: "sound_cluster d \<Longrightarrow> sound_cluster (tick_batteries_weighted x d)"
  unfolding tick_batteries_weighted_def by (intro sound) simp_all

lemma heap_observe [simp]: "heap (snd (observe_leader prev c)) = heap c"
  by (simp add: observe_leader_def Let_def split: list.split option.split)

lemma sound_housekeeping:
  assumes "sound_cluster c"
  shows "sound_cluster (snd (snd (side_effects a start prev c)))"
proof -
  have "heap (snd (snd (side_effects a start prev c))) =
      heap (tick_batteries_weighted (battery_drain a * (1 / 10)) (snd (now c)))"
    by (simp add: side_effects_def Let_def split_beta snapshot_all_def split_members_def
        inject_partition_def heal_partition_def)
  moreover have "sound_cluster (tick_batteries_weighted (battery_drain a * (1 / 10)) (snd (now c)))"
    using assms by (intro sound)
  ultimately show ?thesis by (rule sound_same_heap [rotated])
qed

lemma sound_deliver [sound]:
  assumes "sound_cluster c"
  shows "sound_cluster (deliver_event ev c)"
proof -
  have "sound_cluster (replicate_raft i cmd c)"
    if "state (heap c i) = LEADER" "cls (heap c i) = RaftNode" for i cmd
    unfolding replicate_raft_def
    using that assms leading_term [OF assms, of i]
    by (intro sound) (simp_all add: coordinator_tier_def is_leading_def)
  then show ?thesis
    using assms by (auto simp: deliver_event_def Let_def find_Some_iff split: option.split intro!: sound)
qed

lemma sound_turn: "sound_cluster (sc_cluster s) \<Longrightarrow> sound_cluster (sc_cluster (take_turn a tn s))"
  by (auto simp: take_turn_def split_beta Let_def sound_housekeeping split: turn.split list.split
      intro!: sound)

lemma sound_turns:
  "sound_cluster (sc_cluster s) \<Longrightarrow> sound_cluster (sc_cluster (fold (take_turn a) tns s))"
  by (induction tns arbitrary: s) (simp_all add: sound_turn)

lemma sound_stop [sound]: "sound_cluster c \<Longrightarrow> sound_cluster (run_end c)"
proof -
  assume "sound_cluster c"
  then have "sound_cluster (fold (\<lambda>i. upd i stop_node) (members c) c)"
    by (intro sound) (simp_all add: stop_node_def)
  then show ?thesis
    unfolding run_end_def by (rule sound_same_heap) simp
qed

lemma sound_start:
  assumes "sound_cluster c"
  shows "sound_cluster (run_begin (scenario_begin c))"
proof -
  have task: "sound_cluster (start_task i d)" if "sound_cluster d" for i d
    using sound_upd [where d = "d\<lparr>tasks := py_add i (tasks d)\<rparr>" and i = i and f = "\<lambda>n. n\<lparr>running := True\<rparr>"]
      sound_same_heap [OF that, of "d\<lparr>tasks := py_add i (tasks d)\<rparr>"] by (simp add: start_task_def)
  have "sound_cluster ((snd (now (scenario_begin c)))\<lparr>sim_start := t\<rparr>)" for t
    by (rule sound_same_heap [OF assms]) (simp add: scenario_begin_def snapshot_all_def)
  then show ?thesis
    unfolding run_begin_def Let_def split_beta by (intro sound_fold task)
qed

lemma sound_scenario:
  assumes "sound_cluster c"
  shows "sound_cluster (run_scenario a events tns c)"
proof -
  let ?c = "run_begin (scenario_begin c)"
  have "sound_cluster (snd (now ?c))"
    using sound_start [OF assms] by (rule sound_now)
  then show ?thesis
    unfolding run_scenario_def Let_def split_beta
    by (intro sound_stop sound_turns) simp
qed


section \<open>The three clusters\<close>

lemma sane_new_node [simp]: "0 \<le> b \<Longrightarrow> b \<le> 1 \<Longrightarrow> sane_node (new_node k b)"
  by (simp add: sane_node_def new_node_def new_log_def numbered_log_def campaigning_def)

lemma sound_put:
  assumes "sound_cluster c" and "sane_node n"
  shows "sound_cluster (c\<lparr>env := w, heap := (heap c)(i := n)\<rparr>)" and "sound_cluster (c\<lparr>heap := (heap c)(i := n)\<rparr>)"
  using assms by (simp_all add: sound_cluster_def)

lemma sound_construct [sound]:
  assumes "sound_cluster c"
  shows "sound_cluster (construct_coordinator k i c)" and "sound_cluster (construct_leaf kl i sensor auto c)"
proof -
  show "sound_cluster (construct_coordinator k i c)"
    unfolding construct_coordinator_def Let_def split_beta
    using assms by (intro sound sound_put) simp_all
  show "sound_cluster (construct_leaf kl i sensor auto c)"
    unfolding construct_leaf_def Let_def split_beta
    using assms by (intro sound_put sound_now) simp_all
qed

lemma sound_add [sound]: "sound_cluster c \<Longrightarrow> sound_cluster (register_node i c)"
  by (simp add: register_node_def add_node_def sound_cluster_def)

lemma sound_new_cluster: "sound_cluster (new_cluster w)"
  by (simp add: sound_cluster_def new_cluster_def new_metrics_def split_beta Let_def)

lemma sound_tiered: "sound_cluster c \<Longrightarrow> sound_cluster (build_tiered kc kl k l b c)"
  unfolding build_tiered_def Let_def
  by (rule sound_fold, rule sound_add, rule sound_construct, assumption)
    (rule sound_fold, rule sound_add, rule sound_construct, assumption)

lemma sound_builders:
  "sound_cluster (build_raft_cluster k (new_cluster w))"
  "sound_cluster (build_echo_cluster k l b (new_cluster w))"
  "sound_cluster (build_echod_cluster k l b (new_cluster w))"
  unfolding build_raft_cluster_def build_echo_cluster_def build_echod_cluster_def Let_def
  by (intro sound_fold sound_add sound_construct sound_tiered sound_new_cluster; assumption)+

text \<open>The clusters \<open>main\<close> runs: Raft peers, or coordinators and leaves of ECHO or echoD.\<close>

definition built_clusters :: "world \<Rightarrow> cluster set" where
  "built_clusters w = {build_raft_cluster k (new_cluster w) | k. True} \<union>
     {build_echo_cluster k l b (new_cluster w) | k l b. True} \<union>
     {build_echod_cluster k l b (new_cluster w) | k l b. True}"

lemma sound_built: "c \<in> built_clusters w \<Longrightarrow> sound_cluster c"
  by (auto simp: built_clusters_def sound_builders)

text \<open>C24. In every run of every simulated cluster, whatever the workload, the schedule of node turns,
  housekeeping and deliveries, the partitions and the values of clock and random numbers, the
  log of each coordinator is numbered from 1 without gaps and its terms are positive.\<close>

theorem simulated_logs_numbered:
  assumes "c \<in> built_clusters w" and "d = run_scenario a events tns c"
  shows "list_all (\<lambda>i. numbered_from 1 (entries (log (heap d i)))) (coordinator_ids d)"
proof -
  have "sound_cluster d"
    unfolding assms(2) by (rule sound_scenario [OF sound_built [OF assms(1)]])
  then show ?thesis
    using soundD [of d] by (auto simp: list_all_iff coordinator_ids_def sane_node_def numbered_log_def)
qed

abbreviation pair_run :: cluster where
  "pair_run \<equiv> run_scenario default_args [] [Node ''raft-0'', Housekeeping, Node ''raft-1'', Node ''raft-0'']
     (build_raft_cluster 2 (new_cluster flat_world))"

theorem simulated_logs_numbered_witness:
  "list_all (\<lambda>i. numbered_from 1 (entries (log (heap pair_run i)))) (coordinator_ids pair_run)"
proof (rule simulated_logs_numbered)
  show "build_raft_cluster 2 (new_cluster flat_world) \<in> built_clusters flat_world"
    unfolding built_clusters_def by blast
qed simp

text \<open>C39. In every such run every battery stays between 0 and 1, however much the messages and the
  idle drain take from it.\<close>

theorem simulated_batteries_in_range:
  assumes "c \<in> built_clusters w" and "d = run_scenario a events tns c"
  shows "list_all (\<lambda>i. 0 \<le> battery (heap d i) \<and> battery (heap d i) \<le> 1) (members d)"
proof -
  have "sound_cluster d"
    unfolding assms(2) by (rule sound_scenario [OF sound_built [OF assms(1)]])
  then show ?thesis
    using soundD [of d] by (auto simp: list_all_iff sane_node_def)
qed

theorem simulated_batteries_in_range_witness:
  "list_all (\<lambda>i. 0 \<le> battery (heap pair_run i) \<and> battery (heap pair_run i) \<le> 1) (members pair_run)"
proof (rule simulated_batteries_in_range)
  show "build_raft_cluster 2 (new_cluster flat_world) \<in> built_clusters flat_world"
    unfolding built_clusters_def by blast
qed simp

end
