(* ===== verification/SimBallots.thy ===== *)
theory SimBallots
  imports SimRuns ElectionSpec
begin

text \<open>
  The simulated coordinators as voters: the ballot each node shows to the election of
  \<open>ElectionSpec\<close>, and the relation between a cluster and that election. A node that is an
  observer, or a follower too drained to stay one, has lost the memory of its vote and shows
  as muted. The relation is carried through a handler together with the votes known to be
  cast and the nodes known to have no vote request in their inbox.
\<close>

named_theorems fair \<open>a step keeps the cluster related to an election\<close>

section \<open>Ballots of simulated nodes\<close>

definition drained :: "sim_node \<Rightarrow> bool" where
  "drained n \<longleftrightarrow> battery n * 100 < of_int T_LOW_sim"

definition sim_role :: "sim_node \<Rightarrow> role" where
  "sim_role n =
     (if \<not> coordinator_tier n then Idle
      else if state n = OBSERVER then Muted
      else if state n = CANDIDATE then Campaigning
      else if is_leading n then Elected
      else if drained n then Muted else Idle)"

definition sim_ballot :: "sim_node \<Rightarrow> string ballot" where
  "sim_ballot n = \<lparr>b_term = current_term n,
     b_vote = (if sim_role n = Muted then None else voted_for n),
     b_role = sim_role n, b_tally = set (keys (votes_received n))\<rparr>"

definition unasked :: "sim_node \<Rightarrow> bool" where
  "unasked n \<longleftrightarrow> (\<forall>m\<in>set (inbox n). \<not> is_RequestVoteRPC (payload_of m))"

text \<open>A drained coordinator that is no observer yet has no vote request in its inbox.\<close>

definition voter_ok :: "sim_node \<Rightarrow> bool" where
  "voter_ok n \<longleftrightarrow> wf_dict (votes_received n) \<and> (state n = OBSERVER \<longrightarrow> drained n) \<and>
     (\<forall>m\<in>set (inbox n). is_RequestVoteRPC (payload_of m) \<longrightarrow>
        q_candidate_id (payload_of m) = sender_id m) \<and>
     (coordinator_tier n \<and> drained n \<and> state n \<noteq> OBSERVER \<longrightarrow> unasked n)"

text \<open>The vote a message reports to its recipient.\<close>

definition reported :: "string \<Rightarrow> message \<Rightarrow> (string \<times> int \<times> string) set" where
  "reported j m = (case payload_of m of
     RequestVoteResponse t g v b \<Rightarrow> (if g then {(sender_id m, t, j)} else {}) | _ \<Rightarrow> {})"


section \<open>Updates that cast no vote\<close>

definition evolves_to ::
    "string list \<Rightarrow> string poll \<Rightarrow> string \<Rightarrow> string ballot \<Rightarrow> string poll \<Rightarrow> bool" where
  "evolves_to ids p i b q \<longleftrightarrow> (poll_step (majority_of (set ids)))\<^sup>*\<^sup>* p q \<and>
     member q = (member p)(i := b)"

definition calm :: "string list \<Rightarrow> string \<Rightarrow> sim_node \<Rightarrow> sim_node \<Rightarrow> bool" where
  "calm ids i n n' \<longleftrightarrow> cls n' = cls n \<and> set (inbox n') \<subseteq> set (inbox n) \<and> voter_ok n' \<and>
     (\<forall>p. member p i = sim_ballot n \<longrightarrow>
        (\<exists>q. evolves_to ids p i (sim_ballot n') q \<and> cast q = cast p))"

lemma calmI:
  assumes "cls n' = cls n" and "set (inbox n') \<subseteq> set (inbox n)" and "voter_ok n'"
    and "\<And>p. member p i = sim_ballot n \<Longrightarrow>
      \<exists>q. evolves_to ids p i (sim_ballot n') q \<and> cast q = cast p"
  shows "calm ids i n n'"
  using assms by (simp add: calm_def)

lemma evolves_to_refl: "member p i = b \<Longrightarrow> evolves_to ids p i b p"
  by (auto simp: evolves_to_def)

lemma evolves_to_step:
  "poll_step (majority_of (set ids)) p q \<Longrightarrow> member q = (member p)(i := b) \<Longrightarrow> evolves_to ids p i b q"
  by (simp add: evolves_to_def r_into_rtranclp)

lemma evolves_to_trans:
  "evolves_to ids p i b q \<Longrightarrow> evolves_to ids q i b' r \<Longrightarrow> evolves_to ids p i b' r"
  by (auto simp: evolves_to_def)

lemma calm_ballot:
  assumes "sim_ballot n' = sim_ballot n"
    and "cls n' = cls n" and "set (inbox n') \<subseteq> set (inbox n)" and "voter_ok n'"
  shows "calm ids i n n'"
  using assms by (intro calmI) (auto intro: evolves_to_refl)

text \<open>Most updates touch none of the fields an election rests on.\<close>

lemma calm_same [simp]:
  assumes "voter_ok n" and "cls n' = cls n" and "state n' = state n" and "battery n' = battery n"
    and "current_term n' = current_term n" and "voted_for n' = voted_for n"
    and "votes_received n' = votes_received n" and "inbox n' = inbox n"
  shows "calm ids i n n'"
  by (rule calm_ballot)
    (use assms in \<open>simp_all add: sim_ballot_def sim_role_def coordinator_tier_def drained_def
       is_leading_def voter_ok_def unasked_def\<close>)

lemma muted_evolves:
  assumes "member p i = b"
  shows "\<exists>q. evolves_to ids p i (b\<lparr>b_vote := None, b_role := Muted\<rparr>) q \<and> cast q = cast p"
  using assms poll_step.mute [of "majority_of (set ids)" p i]
  by (intro exI [of _ "p\<lparr>member := (member p)(i := b\<lparr>b_vote := None, b_role := Muted\<rparr>)\<rparr>"])
    (auto intro: evolves_to_step)

lemma learned_evolves:
  assumes "member p i = b" and "b_term b < t"
  shows "\<exists>q. evolves_to ids p i (relearn t b) q \<and> cast q = cast p"
  using assms poll_step.learn [of p i t "majority_of (set ids)"]
  by (intro exI [of _ "p\<lparr>member := (member p)(i := relearn t b)\<rparr>"]) (auto intro: evolves_to_step)

lemma resigned_evolves:
  assumes "member p i = b" and "b_role b \<in> {Campaigning, Elected}"
  shows "\<exists>q. evolves_to ids p i (b\<lparr>b_role := Idle\<rparr>) q \<and> cast q = cast p"
  using assms poll_step.resign [of p i "majority_of (set ids)"]
  by (intro exI [of _ "p\<lparr>member := (member p)(i := b\<lparr>b_role := Idle\<rparr>)\<rparr>"])
    (auto intro: evolves_to_step)

lemma calm_mute:
  assumes "sim_ballot n' = (sim_ballot n)\<lparr>b_vote := None, b_role := Muted\<rparr>"
    and "cls n' = cls n" and "set (inbox n') \<subseteq> set (inbox n)" and "voter_ok n'"
  shows "calm ids i n n'"
  using assms by (intro calmI) (auto intro: muted_evolves)

lemma unasked_subset: "unasked n \<Longrightarrow> set (inbox n') \<subseteq> set (inbox n) \<Longrightarrow> unasked n'"
  by (auto simp: unasked_def)

text \<open>Learning of a higher term: a drained follower shows as muted.\<close>

lemma calm_step_down [simp]:
  assumes "voter_ok n" and "current_term n < t"
  shows "calm ids i n (step_down_sim t n)"
proof (rule calmI)
  let ?n = "step_down_sim t n" and ?b = "relearn t (sim_ballot n)"
  have fields: "current_term ?n = t" "voted_for ?n = None" "battery ?n = battery n"
    "votes_received ?n = votes_received n" "inbox ?n = inbox n" "cls ?n = cls n"
    "state ?n = (if coordinator_tier n \<and> campaigning (state n) then FOLLOWER else state n)"
    by (simp_all add: step_down_sim_def Let_def campaigning_def coordinator_tier_def)
  then have same: "coordinator_tier ?n = coordinator_tier n" "drained ?n = drained n" "unasked ?n = unasked n"
    by (simp_all add: coordinator_tier_def drained_def unasked_def)
  show "voter_ok ?n"
    using assms(1) same fields by (auto simp: voter_ok_def campaigning_def)
  show "set (inbox ?n) \<subseteq> set (inbox n)" "cls ?n = cls n"
    by (simp_all add: fields)
  fix p :: "string poll"
  assume p: "member p i = sim_ballot n"
  have "b_term (sim_ballot n) < t" using assms(2) by (simp add: sim_ballot_def)
  from learned_evolves [where b = "sim_ballot n", OF p this] obtain q where q: "evolves_to ids p i ?b q" "cast q = cast p" by blast
  have "sim_ballot ?n = ?b \<or> sim_ballot ?n = ?b\<lparr>b_vote := None, b_role := Muted\<rparr>"
    using same fields
    by (auto simp: sim_ballot_def relearn_def sim_role_def campaigning_def is_leading_def)
  then show "\<exists>q. evolves_to ids p i (sim_ballot ?n) q \<and> cast q = cast p"
  proof
    assume "sim_ballot ?n = ?b"
    with q show ?thesis by auto
  next
    assume b: "sim_ballot ?n = ?b\<lparr>b_vote := None, b_role := Muted\<rparr>"
    have "member q i = ?b" using q(1) by (simp add: evolves_to_def)
    from muted_evolves [OF this, of ids] obtain r where
      "evolves_to ids q i (sim_ballot ?n) r" "cast r = cast q" unfolding b by blast
    with evolves_to_trans [OF q(1)] q(2) show ?thesis by metis
  qed
qed

text \<open>Batteries only drain; whoever becomes an observer is muted.\<close>

lemma battery_tick: "battery (tick_battery x n) = max 0 (min 1 (battery n - x))"
  by (simp add: tick_battery_def Let_def)

lemma state_tick:
  "coordinator_tier n \<Longrightarrow> state (tick_battery x n) =
     (if drained (tick_battery x n) \<and> state n \<noteq> OBSERVER then OBSERVER
      else if battery (tick_battery x n) * 100 \<ge> of_int T_RESTORE_sim \<and> state n = OBSERVER then FOLLOWER
      else state n)"
  unfolding drained_def battery_tick
  by (simp add: tick_battery_def Let_def coordinator_tier_def)

lemma drained_tick: "0 \<le> x \<Longrightarrow> drained n \<Longrightarrow> drained (tick_battery x n)"
  unfolding drained_def battery_tick T_LOW_sim_def by (auto simp: max_def min_def)

lemma tick_observer:
  "coordinator_tier n \<Longrightarrow> drained (tick_battery x n) \<Longrightarrow> state (tick_battery x n) = OBSERVER"
  by (simp add: state_tick) (simp add: drained_def T_LOW_sim_def T_RESTORE_sim_def)

lemma tick_fields:
  "votes_received (tick_battery x n) = votes_received n" "inbox (tick_battery x n) = inbox n"
  "coordinator_tier (tick_battery x n) = coordinator_tier n" "unasked (tick_battery x n) = unasked n"
  "\<not> coordinator_tier n \<Longrightarrow> state (tick_battery x n) = state n \<and> voted_for (tick_battery x n) = voted_for n"
  by (simp_all add: tick_battery_def Let_def coordinator_tier_def unasked_def)

lemma voted_tick: "state (tick_battery x n) \<noteq> OBSERVER \<Longrightarrow> voted_for (tick_battery x n) = voted_for n"
  by (auto simp: tick_battery_def Let_def)

lemma voter_ok_tick:
  assumes "voter_ok n" and "0 \<le> x"
  shows "voter_ok (tick_battery x n)"
proof -
  have "drained (tick_battery x n)" if "state (tick_battery x n) = OBSERVER"
  proof (cases "state n = OBSERVER")
    case True
    then show ?thesis using assms by (simp add: voter_ok_def drained_tick)
  next
    case False
    with that show ?thesis by (cases "coordinator_tier n") (auto simp: state_tick tick_fields split: if_splits)
  qed
  then show ?thesis
    using assms(1) tick_observer [of n x] by (auto simp: voter_ok_def tick_fields)
qed

lemma calm_tick [simp]:
  assumes "voter_ok n" and "0 \<le> x"
  shows "calm ids i n (tick_battery x n)"
proof -
  let ?n = "tick_battery x n"
  have ok: "voter_ok ?n" using assms by (rule voter_ok_tick)
  consider "\<not> coordinator_tier n" | "coordinator_tier n" "drained ?n"
    | "coordinator_tier n" "\<not> drained ?n" by blast
  then show ?thesis
  proof cases
    case 1
    then have "sim_ballot ?n = sim_ballot n"
      by (simp add: sim_ballot_def sim_role_def tick_fields)
    then show ?thesis using ok by (intro calm_ballot) (simp_all add: tick_fields)
  next
    case 2
    then have "sim_ballot ?n = (sim_ballot n)\<lparr>b_vote := None, b_role := Muted\<rparr>"
      by (simp add: sim_ballot_def sim_role_def tick_fields tick_observer)
    then show ?thesis using ok by (intro calm_mute) (simp_all add: tick_fields)
  next
    case 3
    then have "\<not> drained n" "state n \<noteq> OBSERVER"
      using assms drained_tick by (auto simp: voter_ok_def)
    with 3 have "sim_ballot ?n = sim_ballot n"
      by (simp add: sim_ballot_def sim_role_def tick_fields state_tick voted_tick is_leading_def)
    then show ?thesis using ok by (intro calm_ballot) (simp_all add: tick_fields)
  qed
qed

text \<open>Leaving office or a candidacy; an observer may only be made a follower with no vote
  request waiting.\<close>

lemma calm_follower [simp]:
  assumes "voter_ok n" and "unasked n \<or> state n \<noteq> OBSERVER"
  shows "calm ids i n (n\<lparr>state := FOLLOWER\<rparr>)"
proof -
  let ?n = "n\<lparr>state := FOLLOWER\<rparr>"
  have same: "coordinator_tier ?n = coordinator_tier n" "drained ?n = drained n" "unasked ?n = unasked n"
    by (simp_all add: coordinator_tier_def drained_def unasked_def)
  have ok: "voter_ok ?n" using assms same by (auto simp: voter_ok_def)
  consider "sim_ballot ?n = (sim_ballot n)\<lparr>b_vote := None, b_role := Muted\<rparr>"
    | "sim_ballot ?n = sim_ballot n"
    | "sim_ballot ?n = (sim_ballot n)\<lparr>b_role := Idle\<rparr>" "sim_role n \<in> {Campaigning, Elected}"
    using assms(1) same
    by (cases "state n") (auto simp: sim_ballot_def sim_role_def is_leading_def voter_ok_def)
  then show ?thesis
  proof cases
    case 3
    then have "b_role (sim_ballot n) \<in> {Campaigning, Elected}" by (simp add: sim_ballot_def)
    then show ?thesis using 3 ok by (intro calmI) (auto intro: resigned_evolves)
  qed (use ok in \<open>simp_all add: calm_mute calm_ballot\<close>)
qed

lemma calm_local_leader [simp]:
  assumes "voter_ok n" and "state n = LEADER"
  shows "calm ids i n (n\<lparr>state := LOCAL_LEADER\<rparr>)"
  by (rule calm_ballot)
    (use assms in \<open>auto simp: sim_ballot_def sim_role_def is_leading_def voter_ok_def
       coordinator_tier_def drained_def unasked_def\<close>)

text \<open>Leaves hold no ballot.\<close>

lemma calm_leaf [simp]:
  assumes "voter_ok n" and "\<not> coordinator_tier n" and "st \<noteq> OBSERVER"
  shows "calm ids i n (n\<lparr>state := st\<rparr>)" and "calm ids i n (n\<lparr>coordinator_id := k, state := st\<rparr>)"
    and "calm ids i n (n\<lparr>state := st, coordinator_id := k\<rparr>)"
  by (rule calm_ballot;
      use assms in \<open>auto simp: sim_ballot_def sim_role_def voter_ok_def coordinator_tier_def\<close>)+


section \<open>A cluster and its election\<close>

definition backed :: "string list \<Rightarrow> string poll \<Rightarrow> cluster \<Rightarrow> bool" where
  "backed ids p c \<longleftrightarrow> poll_reach (majority_of (set ids)) p \<and>
     (\<forall>i. member p i = sim_ballot (heap c i)) \<and> fst ` cast p \<subseteq> set ids \<and>
     (\<forall>i. \<forall>m\<in>set (inbox (heap c i)). reported i m \<subseteq> cast p)"

text \<open>The votes \<open>V\<close> are cast, and no member of \<open>Q\<close> has a vote request waiting.\<close>

definition fair_cluster ::
    "string list \<Rightarrow> (string \<times> int \<times> string) set \<Rightarrow> string set \<Rightarrow> cluster \<Rightarrow> bool" where
  "fair_cluster ids V Q c \<longleftrightarrow> coordinator_ids c = ids \<and> distinct ids \<and> energy_hook c \<and>
     set (bus_nodes c) \<subseteq> set (members c) \<and> (\<forall>i. voter_ok (heap c i)) \<and>
     (\<forall>i\<in>Q. unasked (heap c i)) \<and> (\<exists>p. V \<subseteq> cast p \<and> backed ids p c)"

lemma fair_weaken:
  "fair_cluster ids V Q c \<Longrightarrow> V' \<subseteq> V \<Longrightarrow> Q' \<subseteq> Q \<Longrightarrow> fair_cluster ids V' Q' c"
  unfolding fair_cluster_def by (meson order_trans subsetD)

lemma fair_same:
  assumes "fair_cluster ids V Q d" and "heap e = heap d" and "members e = members d"
    and "bus_nodes e = bus_nodes d" and "energy_hook e = energy_hook d"
  shows "fair_cluster ids V Q e"
  using assms by (simp add: fair_cluster_def backed_def coordinator_ids_def)

lemma fairD:
  assumes "fair_cluster ids V Q d"
  shows "voter_ok (heap d i)" and "coordinator_ids d = ids" and "distinct ids"
    and "i \<in> Q \<Longrightarrow> unasked (heap d i)"
  using assms by (simp_all add: fair_cluster_def)

lemma coordinator_ids_upd:
  "cls (f (heap d i)) = cls (heap d i) \<Longrightarrow> coordinator_ids (upd i f d) = coordinator_ids d"
  by (auto simp: coordinator_ids_def coordinator_tier_def intro!: filter_cong)

lemma voters_kept:
  "poll_reach (majority_of (set ids)) p \<Longrightarrow> evolves_to ids p i b q \<Longrightarrow> poll_reach (majority_of (set ids)) q"
  unfolding evolves_to_def by (blast intro: poll_reach_steps)

text \<open>A node is updated, the election moves along, and votes may be cast.\<close>

lemma fair_evolve:
  assumes "fair_cluster ids V Q d"
    and "cls (f (heap d i)) = cls (heap d i)"
    and "set (inbox (f (heap d i))) \<subseteq> set (inbox (heap d i))" and "voter_ok (f (heap d i))"
    and "\<And>p. backed ids p d \<Longrightarrow> V \<subseteq> cast p \<Longrightarrow>
      \<exists>q. evolves_to ids p i (sim_ballot (f (heap d i))) q \<and> cast p \<subseteq> cast q \<and>
          fst ` cast q \<subseteq> set ids \<and> V' \<subseteq> cast q"
  shows "fair_cluster ids V' Q (upd i f d)"
proof -
  obtain p where p: "backed ids p d" "V \<subseteq> cast p"
    using assms(1) unfolding fair_cluster_def by blast
  from assms(5) [OF p] obtain q where q: "evolves_to ids p i (sim_ballot (f (heap d i))) q"
    "cast p \<subseteq> cast q" "fst ` cast q \<subseteq> set ids" "V' \<subseteq> cast q" by blast
  have mem: "member q = (member p)(i := sim_ballot (f (heap d i)))"
    using q(1) by (simp add: evolves_to_def)
  have "backed ids q (upd i f d)"
    unfolding backed_def
  proof (intro conjI allI ballI)
    show "poll_reach (majority_of (set ids)) q"
      using p(1) q(1) by (auto simp: backed_def intro: voters_kept)
    show "member q j = sim_ballot (heap (upd i f d) j)" for j
      using p(1) by (simp add: mem backed_def)
    show "reported j m \<subseteq> cast q" if "m \<in> set (inbox (heap (upd i f d) j))" for j m
      using that p(1) q(2) assms(3) unfolding backed_def by (cases "j = i") force+
  qed (rule q(3))
  moreover have "unasked (heap (upd i f d) j)" if "j \<in> Q" for j
    using that assms(1,3) unasked_subset by (auto simp: fair_cluster_def)
  ultimately show ?thesis
    using assms(1,4) q(4) coordinator_ids_upd [of f d i, OF assms(2)]
    unfolding fair_cluster_def by auto
qed

lemma fair_upd [fair]:
  assumes "fair_cluster ids V Q d"
    and "voter_ok (heap d i) \<Longrightarrow> (i \<in> Q \<longrightarrow> unasked (heap d i)) \<Longrightarrow>
      calm ids i (heap d i) (f (heap d i))"
  shows "fair_cluster ids V Q (upd i f d)"
proof -
  have calm: "calm ids i (heap d i) (f (heap d i))"
    using assms(2) fairD(1,4) [OF assms(1)] by blast
  show ?thesis
  proof (rule fair_evolve [OF assms(1)])
    fix p :: "string poll"
    assume p: "backed ids p d" "V \<subseteq> cast p"
    then have "member p i = sim_ballot (heap d i)" by (simp add: backed_def)
    with calm obtain q where "evolves_to ids p i (sim_ballot (f (heap d i))) q" "cast q = cast p"
      unfolding calm_def by blast
    then show "\<exists>q. evolves_to ids p i (sim_ballot (f (heap d i))) q \<and> cast p \<subseteq> cast q \<and>
          fst ` cast q \<subseteq> set ids \<and> V \<subseteq> cast q"
      using p by (intro exI [of _ q]) (simp add: backed_def)
  qed (use calm in \<open>simp_all add: calm_def\<close>)
qed


section \<open>Messages\<close>

definition rpc_fair :: "(string \<times> int \<times> string) set \<Rightarrow> string set \<Rightarrow> string \<Rightarrow> string \<Rightarrow> rpc \<Rightarrow> bool" where
  "rpc_fair V Q s r p \<longleftrightarrow>
     (is_RequestVoteRPC p \<longrightarrow> q_candidate_id p = s \<and> r \<notin> Q) \<and>
     (is_RequestVoteResponse p \<longrightarrow> v_vote_granted p \<longrightarrow> (s, v_term p, r) \<in> V)"

lemma fair_deliver:
  assumes "fair_cluster ids V Q d" and "rpc_fair V Q (sender_id m) r (payload_of m)"
    and "coordinator_tier (heap d r) \<and> drained (heap d r) \<longrightarrow> state (heap d r) = OBSERVER"
  shows "fair_cluster ids V Q (upd r (deliver m) d)"
proof -
  have same: "sim_ballot (deliver m n) = sim_ballot n" "cls (deliver m n) = cls n" for n
    by (simp_all add: deliver_def sim_ballot_def sim_role_def coordinator_tier_def is_leading_def drained_def)
  have "reported r m \<subseteq> V"
    using assms(2) by (cases "payload_of m") (simp_all add: rpc_fair_def reported_def)
  moreover have "voter_ok (deliver m (heap d r))"
    using fairD(1) [OF assms(1), of r] assms(2,3)
    by (auto simp: deliver_def voter_ok_def rpc_fair_def coordinator_tier_def drained_def)
  moreover have "unasked (deliver m (heap d r))" if "r \<in> Q"
    using fairD(4) [OF assms(1) that] assms(2) that by (auto simp: deliver_def unasked_def rpc_fair_def)
  moreover obtain p where p: "V \<subseteq> cast p" "backed ids p d"
    using assms(1) unfolding fair_cluster_def by blast
  moreover have "backed ids p (upd r (deliver m) d)"
    unfolding backed_def
  proof (intro conjI allI ballI)
    show "reported j x \<subseteq> cast p" if "x \<in> set (inbox (heap (upd r (deliver m) d) j))" for j x
    proof (cases "j = r \<and> x = m")
      case False
      then have "x \<in> set (inbox (heap d j))"
        using that by (auto simp: deliver_def split: if_splits)
      then show ?thesis using p(2) by (simp add: backed_def)
    qed (use \<open>reported r m \<subseteq> V\<close> p(1) in auto)
  qed (use p(2) in \<open>simp_all add: backed_def same\<close>)
  ultimately show ?thesis
    using assms(1) coordinator_ids_upd [of "deliver m" d r] by (auto simp: fair_cluster_def same)
qed

lemma tick_deliver: "tick_battery x (deliver m n) = deliver m (tick_battery x n)"
  by (simp add: tick_battery_def deliver_def Let_def coordinator_tier_def)

lemma route_frame:
  "members (snd (route m d)) = members d" "bus_nodes (snd (route m d)) = bus_nodes d"
  "energy_hook (snd (route m d)) = energy_hook d"
  by (simp_all add: route_def run_hook_def Let_def split_beta)

lemma fair_route:
  assumes "fair_cluster ids V Q d" and "rpc_fair V Q (sender_id m) (recipient_id m) (payload_of m)"
  shows "fair_cluster ids V Q (snd (route m d))"
proof (cases "recipient_id m \<in> set (bus_nodes d) \<and> can_reach (sender_id m) (recipient_id m) d")
  case False
  then show ?thesis using assms(1) by (auto simp: route_def)
next
  case True
  let ?s = "sender_id m" and ?r = "recipient_id m"
  let ?d1 = "if ?s \<in> set (members d) then upd ?s (tick_battery ENERGY_TX_COST) d else d"
  let ?d2 = "upd ?r (tick_battery ENERGY_RX_COST) ?d1"
  have on: "energy_hook d" "?r \<in> set (members d)"
    using assms(1) True by (auto simp: fair_cluster_def)
  have "heap (snd (route m d)) j = heap (upd ?r (deliver m) ?d2) j" for j
    using True on by (simp add: route_def run_hook_def Let_def split_beta tick_deliver)
  then have heap: "heap (snd (route m d)) = heap (upd ?r (deliver m) ?d2)" ..
  have cost: "0 \<le> ENERGY_TX_COST" "0 \<le> ENERGY_RX_COST"
    by (simp_all add: ENERGY_TX_COST_def ENERGY_RX_COST_def)
  have "fair_cluster ids V Q ?d1"
    using assms(1) cost by (auto intro: fair_upd)
  then have d2: "fair_cluster ids V Q ?d2"
    using cost by (intro fair_upd) simp_all
  have "coordinator_tier (heap ?d2 ?r) \<and> drained (heap ?d2 ?r) \<longrightarrow> state (heap ?d2 ?r) = OBSERVER"
    by (auto simp: tick_fields intro: tick_observer)
  from fair_deliver [OF d2 assms(2) this] show ?thesis
    by (rule fair_same [OF _ heap]) (simp_all add: route_frame)
qed

lemma fair_send [fair]:
  assumes "fair_cluster ids V Q d" and "rpc_fair V Q self r p"
  shows "fair_cluster ids V Q (send_msg self r p d)"
  using assms fair_route [of ids V Q d "\<lparr>sender_id = self, recipient_id = r, payload_of = p\<rparr>"]
  by (simp add: send_msg_def)

lemma fair_pop:
  assumes "fair_cluster ids V Q d" and "inbox (heap d i) = m # ms"
  shows "fair_cluster ids (V \<union> reported i m) Q (upd i (\<lambda>n. n\<lparr>inbox := ms\<rparr>) d)"
proof (rule fair_evolve [OF assms(1)])
  let ?n = "(heap d i)\<lparr>inbox := ms\<rparr>"
  have same: "sim_ballot ?n = sim_ballot (heap d i)"
    by (simp add: sim_ballot_def sim_role_def coordinator_tier_def is_leading_def drained_def)
  show "voter_ok ?n"
    using fairD(1) [OF assms(1), of i] assms(2)
    by (simp add: voter_ok_def unasked_def coordinator_tier_def drained_def)
  fix p :: "string poll"
  assume p: "backed ids p d" "V \<subseteq> cast p"
  then have "reported i m \<subseteq> cast p" using assms(2) by (simp add: backed_def)
  then show "\<exists>q. evolves_to ids p i (sim_ballot ?n) q \<and> cast p \<subseteq> cast q \<and>
      fst ` cast q \<subseteq> set ids \<and> V \<union> reported i m \<subseteq> cast q"
    using p by (intro exI [of _ p]) (simp add: backed_def same evolves_to_refl)
qed (use assms(2) in auto)


section \<open>Casting and counting votes\<close>

lemma fair_grant:
  assumes "fair_cluster ids V Q d" and "self \<in> set ids"
    and "state (heap d self) \<noteq> OBSERVER" and "\<not> drained (heap d self)"
    and "voted_for (heap d self) \<in> {None, Some k}"
  shows "fair_cluster ids (insert (self, current_term (heap d self), k) V) Q
    (upd self (\<lambda>n. n\<lparr>voted_for := Some k\<rparr>) d)"
proof (rule fair_evolve [OF assms(1)])
  let ?n = "(heap d self)\<lparr>voted_for := Some k\<rparr>" and ?b = "sim_ballot (heap d self)"
  have role: "sim_role (heap d self) \<noteq> Muted"
    using assms(3,4) by (simp add: sim_role_def)
  then have b: "b_role ?b \<noteq> Muted" "b_vote ?b \<in> {None, Some k}" "b_term ?b = current_term (heap d self)"
    using assms(5) by (simp_all add: sim_ballot_def)
  have "sim_role ?n = sim_role (heap d self)"
    by (simp add: sim_role_def coordinator_tier_def is_leading_def drained_def)
  then have n: "sim_ballot ?n = ?b\<lparr>b_vote := Some k\<rparr>"
    using role by (simp add: sim_ballot_def)
  show "voter_ok ?n"
    using fairD(1) [OF assms(1), of self] by (simp add: voter_ok_def unasked_def coordinator_tier_def drained_def)
  fix p :: "string poll"
  assume p: "backed ids p d" "V \<subseteq> cast p"
  then have mem: "member p self = ?b" by (simp add: backed_def)
  let ?q = "p\<lparr>member := (member p)(self := ?b\<lparr>b_vote := Some k\<rparr>),
      cast := insert (self, current_term (heap d self), k) (cast p)\<rparr>"
  have "poll_step (majority_of (set ids)) p ?q"
    using poll_step.grant [of p self k] b by (simp add: mem)
  then show "\<exists>q. evolves_to ids p self (sim_ballot ?n) q \<and> cast p \<subseteq> cast q \<and>
      fst ` cast q \<subseteq> set ids \<and> insert (self, current_term (heap d self), k) V \<subseteq> cast q"
    using p assms(2) by (intro exI [of _ ?q]) (auto simp: backed_def n intro: evolves_to_step)
qed simp_all

lemma fair_tier: "fair_cluster ids V Q d \<Longrightarrow> i \<in> set ids \<Longrightarrow> coordinator_tier (heap d i)"
  by (auto simp: fair_cluster_def coordinator_ids_def)

lemma fair_count:
  assumes "fair_cluster ids V Q d" and "self \<in> set ids" and "state (heap d self) = CANDIDATE"
    and "(s, current_term (heap d self), self) \<in> V"
  shows "fair_cluster ids V Q (upd self (\<lambda>n. n\<lparr>votes_received := dput s b (votes_received n)\<rparr>) d)"
proof (rule fair_evolve [OF assms(1)])
  let ?n = "(heap d self)\<lparr>votes_received := dput s b (votes_received (heap d self))\<rparr>"
  let ?b = "sim_ballot (heap d self)"
  have role: "sim_role ?n = Campaigning" "sim_role (heap d self) = Campaigning"
    using assms(3) fair_tier [OF assms(1,2)] by (simp_all add: sim_role_def coordinator_tier_def)
  then have n: "sim_ballot ?n = ?b\<lparr>b_tally := insert s (b_tally ?b)\<rparr>"
    by (simp add: sim_ballot_def)
  show "voter_ok ?n"
    using fairD(1) [OF assms(1), of self]
    by (simp add: voter_ok_def unasked_def coordinator_tier_def drained_def)
  fix p :: "string poll"
  assume p: "backed ids p d" "V \<subseteq> cast p"
  then have mem: "member p self = ?b" by (simp add: backed_def)
  let ?q = "p\<lparr>member := (member p)(self := sim_ballot ?n)\<rparr>"
  have "b_role ?b = Campaigning" "(s, b_term ?b, self) \<in> cast p"
    using assms(4) p(2) role by (auto simp: sim_ballot_def)
  then have "poll_step (majority_of (set ids)) p ?q"
    using poll_step.collect [of p self s] by (simp add: mem n)
  then show "\<exists>q. evolves_to ids p self (sim_ballot ?n) q \<and> cast p \<subseteq> cast q \<and>
      fst ` cast q \<subseteq> set ids \<and> V \<subseteq> cast q"
    using p by (intro exI [of _ ?q]) (auto simp: backed_def intro: evolves_to_step)
qed simp_all

lemma tally_voters:
  assumes "backed ids p d" and "sim_role (heap d i) = Campaigning"
  shows "set (keys (votes_received (heap d i))) \<subseteq> set ids"
proof -
  have "tally_cast p" and voters: "fst ` cast p \<subseteq> set ids" and mem: "member p i = sim_ballot (heap d i)"
    using assms(1) poll_inv_reach unfolding backed_def poll_inv_def by blast+
  then have "\<forall>u\<in>set (keys (votes_received (heap d i))). (u, current_term (heap d i), i) \<in> cast p"
    using assms(2) unfolding tally_cast_def by (metis sim_ballot_def ballot.select_convs insertI1)
  with voters show ?thesis by force
qed

lemma fair_win:
  assumes "fair_cluster ids V Q d" and "self \<in> set ids" and "state (heap d self) = CANDIDATE"
    and "length (votes_received (heap d self)) > length ids div 2"
  shows "fair_cluster ids V Q (upd self (\<lambda>n. n\<lparr>state := LEADER\<rparr>) d)"
proof (rule fair_evolve [OF assms(1)])
  let ?n = "(heap d self)\<lparr>state := LEADER\<rparr>" and ?b = "sim_ballot (heap d self)"
  note ok = fairD(1) [OF assms(1), of self]
  have role: "sim_role ?n = Elected" "sim_role (heap d self) = Campaigning"
    using assms(3) fair_tier [OF assms(1,2)]
    by (simp_all add: sim_role_def is_leading_def coordinator_tier_def)
  then have n: "sim_ballot ?n = ?b\<lparr>b_role := Elected\<rparr>"
    by (simp add: sim_ballot_def)
  show "voter_ok ?n"
    using ok assms(3) by (auto simp: voter_ok_def unasked_def coordinator_tier_def drained_def)
  fix p :: "string poll"
  assume p: "backed ids p d" "V \<subseteq> cast p"
  then have mem: "member p self = ?b" by (simp add: backed_def)
  have "card (set ids) = length ids"
    using fairD(3) [OF assms(1)] by (rule distinct_card)
  moreover have "length (votes_received (heap d self)) = card (b_tally ?b)"
    using ok by (simp add: voter_ok_def length_wf_dict sim_ballot_def)
  ultimately have "majority_of (set ids) (b_tally ?b)"
    using assms(4) tally_voters [OF p(1) role(2)] by (simp add: majority_of_def sim_ballot_def)
  moreover have "b_role ?b = Campaigning" by (simp add: sim_ballot_def role)
  ultimately have step: "poll_step (majority_of (set ids)) p
      (p\<lparr>member := (member p)(self := sim_ballot ?n), won := insert (b_term ?b, self) (won p)\<rparr>)"
    using poll_step.win [of p self "majority_of (set ids)"] by (simp add: mem n)
  show "\<exists>q. evolves_to ids p self (sim_ballot ?n) q \<and> cast p \<subseteq> cast q \<and>
      fst ` cast q \<subseteq> set ids \<and> V \<subseteq> cast q"
    using p by (intro exI [of _ "p\<lparr>member := (member p)(self := sim_ballot ?n),
        won := insert (b_term ?b, self) (won p)\<rparr>"]) (simp add: backed_def evolves_to_step [OF step])
qed simp_all

lemma fair_campaign:
  assumes "fair_cluster ids V Q d" and "self \<in> set ids" and "state (heap d self) \<noteq> OBSERVER"
  shows "fair_cluster ids V Q (upd self (\<lambda>n. n\<lparr>current_term := current_term n + 1, state := CANDIDATE,
            voted_for := Some self, votes_received := [(self, battery_pct n)]\<rparr>) d)"
proof (rule fair_evolve [OF assms(1)])
  let ?n = "(\<lambda>n. n\<lparr>current_term := current_term n + 1, state := CANDIDATE,
      voted_for := Some self, votes_received := [(self, battery_pct n)]\<rparr>) (heap d self)"
  let ?t = "current_term (heap d self) + 1"
  have n: "sim_ballot ?n = \<lparr>b_term = ?t, b_vote = Some self, b_role = Campaigning, b_tally = {self}\<rparr>"
    using fair_tier [OF assms(1,2)]
    by (simp add: sim_ballot_def sim_role_def coordinator_tier_def keys_def)
  show "voter_ok ?n"
    using fairD(1) [OF assms(1), of self] assms(3)
    by (auto simp: voter_ok_def unasked_def coordinator_tier_def drained_def)
  fix p :: "string poll"
  assume p: "backed ids p d" "V \<subseteq> cast p"
  then have "b_term (member p self) < ?t" by (simp add: backed_def sim_ballot_def)
  then have step: "poll_step (majority_of (set ids)) p
      (p\<lparr>member := (member p)(self := sim_ballot ?n), cast := insert (self, ?t, self) (cast p)\<rparr>)"
    unfolding n by (rule poll_step.campaign)
  show "\<exists>q. evolves_to ids p self (sim_ballot ?n) q \<and> cast p \<subseteq> cast q \<and>
      fst ` cast q \<subseteq> set ids \<and> V \<subseteq> cast q"
    using p assms(2) by (intro exI [of _ "p\<lparr>member := (member p)(self := sim_ballot ?n),
        cast := insert (self, ?t, self) (cast p)\<rparr>"]) (auto simp: backed_def intro: evolves_to_step [OF step])
qed simp_all


section \<open>Control flow\<close>

lemma fair_env [fair]: "fair_cluster ids V Q d \<Longrightarrow> fair_cluster ids V Q (d\<lparr>env := w\<rparr>)"
  by (erule fair_same) simp_all

lemma fair_now [fair]: "fair_cluster ids V Q d \<Longrightarrow> fair_cluster ids V Q (snd (now d))"
  by (simp add: now_def split_beta fair_env)

lemma fair_if [fair]:
  "(b \<Longrightarrow> fair_cluster ids V Q x) \<Longrightarrow> (\<not> b \<Longrightarrow> fair_cluster ids V Q y) \<Longrightarrow>
   fair_cluster ids V Q (if b then x else y)"
  by simp

lemma fair_case_option [fair]:
  "(v = None \<Longrightarrow> fair_cluster ids V Q x) \<Longrightarrow> (\<And>a. v = Some a \<Longrightarrow> fair_cluster ids V Q (y a)) \<Longrightarrow>
   fair_cluster ids V Q (case v of None \<Rightarrow> x | Some a \<Rightarrow> y a)"
  by (cases v) simp_all

lemma fair_case_list [fair]:
  "(v = [] \<Longrightarrow> fair_cluster ids V Q x) \<Longrightarrow> (\<And>a as. v = a # as \<Longrightarrow> fair_cluster ids V Q (y a as)) \<Longrightarrow>
   fair_cluster ids V Q (case v of [] \<Rightarrow> x | a # as \<Rightarrow> y a as)"
  by (cases v) simp_all

lemma fair_fold [fair]:
  "(\<And>x d. fair_cluster ids V Q d \<Longrightarrow> fair_cluster ids V Q (f x d)) \<Longrightarrow> fair_cluster ids V Q d \<Longrightarrow>
   fair_cluster ids V Q (fold f xs d)"
  by (induction xs arbitrary: d) auto

end
