(* ===== verification/SimElected.thy ===== *)
theory SimElected
  imports SimBallots
begin

text \<open>
  Every handler of a simulated coordinator keeps the cluster related to an election, so a run
  of any of the three protocols has one leader per term at most.
\<close>

section \<open>Messages that are no votes\<close>

definition plain_rpc :: "rpc \<Rightarrow> bool" where
  "plain_rpc p \<longleftrightarrow> \<not> is_RequestVoteRPC p \<and> \<not> (is_RequestVoteResponse p \<and> v_vote_granted p)"

lemma plain_fair [simp]: "plain_rpc p \<Longrightarrow> rpc_fair V Q self r p"
  by (simp add: plain_rpc_def rpc_fair_def)

lemma plain_rpcs [simp]:
  "plain_rpc (AppendEntriesRPC t l k pt es c g ep)" "plain_rpc (AppendEntriesResponse t ok r m b)"
  "plain_rpc (LivenessPingMsg t l)" "plain_rpc (LeadershipHandoffMsg t l)"
  "plain_rpc (LeafRegisterRequest l)" "plain_rpc (LeafRegisterReply a l t)"
  "plain_rpc (SensorDataReport l ty v)" "plain_rpc (RequestVoteResponse t False s b)"
  by (simp_all add: plain_rpc_def)

lemmas fair_defs = Let_def split_beta if_distrib [of snd] snd_conv

lemma fair_send_each [fair]:
  "fair_cluster ids V Q d \<Longrightarrow> (\<And>r. rpc_fair V Q self r p) \<Longrightarrow> fair_cluster ids V Q (send_each self p is d)"
  unfolding send_each_def by (intro fair)

lemma fair_broadcast [fair]:
  "fair_cluster ids V Q d \<Longrightarrow> (\<And>r. rpc_fair V Q self r p) \<Longrightarrow> fair_cluster ids V Q (broadcast_msg self p d)"
  unfolding broadcast_msg_def by (intro fair)

lemma fair_send_coordinators [fair]:
  "fair_cluster ids V Q d \<Longrightarrow> (\<And>r. rpc_fair V Q self r p) \<Longrightarrow>
   fair_cluster ids V Q (send_coordinators self p d)"
  unfolding send_coordinators_def by (intro fair)

lemma fair_reset [fair]:
  assumes "fair_cluster ids V Q d"
  shows "fair_cluster ids V Q (reset_election_timer_sim self d)"
proof -
  have "fair_cluster ids V Q (snd (new_election_deadline_sim self d))"
    unfolding new_election_deadline_sim_def new_election_deadline_base_def
      new_election_deadline_echod_def fair_defs
    using assms by (intro fair)
  then show ?thesis
    unfolding reset_election_timer_sim_def fair_defs by (intro fair_upd) simp_all
qed

lemma fair_ping [fair]:
  "fair_cluster ids V Q d \<Longrightarrow> fair_cluster ids V Q (send_liveness_ping_sim self d)"
  unfolding send_liveness_ping_sim_def send_liveness_ping_base_def send_liveness_ping_echod_def
  by (intro fair | simp)+

lemma fair_send_ae [fair]:
  "fair_cluster ids V Q d \<Longrightarrow> fair_cluster ids V Q (send_append_entries_sim self p d)"
  unfolding send_append_entries_sim_def Let_def by (intro fair) simp_all

lemma fair_replicate [fair]:
  "fair_cluster ids V Q d \<Longrightarrow> fair_cluster ids V Q (replicate_entry_sim self cmd g d)"
  unfolding replicate_entry_sim_def send_all_append_entries_def Let_def by (intro fair) simp_all

lemma fair_send_all_ae [fair]:
  "fair_cluster ids V Q d \<Longrightarrow> fair_cluster ids V Q (send_all_append_entries self d)"
  unfolding send_all_append_entries_def by (intro fair)

lemma fair_append_reply [fair]:
  "fair_cluster ids V Q d \<Longrightarrow> fair_cluster ids V Q (append_reply self s ok m d)"
  unfolding append_reply_def by (intro fair) simp_all

lemma fair_refusal [fair]:
  "fair_cluster ids V Q d \<Longrightarrow> fair_cluster ids V Q (vote_reply self s False d)"
  unfolding vote_reply_def by (intro fair) simp_all

lemma fair_on_ping [fair]:
  "fair_cluster ids V Q d \<Longrightarrow> fair_cluster ids V Q (handle_liveness_ping_coord self s p d)"
  unfolding handle_liveness_ping_coord_def Let_def by (intro fair) simp_all

lemma fair_ae_base [fair]:
  "fair_cluster ids V Q d \<Longrightarrow> fair_cluster ids V Q (handle_append_entries_base self s p d)"
  unfolding handle_append_entries_base_def Let_def by (intro fair) simp_all

lemma fair_advance [fair]:
  "fair_cluster ids V Q d \<Longrightarrow> fair_cluster ids V Q (try_advance_commit_sim self d)"
  unfolding try_advance_commit_sim_def Let_def by (intro fair) simp_all

lemma fair_ae_response [fair]:
  "fair_cluster ids V Q d \<Longrightarrow> fair_cluster ids V Q (handle_append_entries_response_sim self s p d)"
  unfolding handle_append_entries_response_sim_def Let_def by (intro fair) simp_all

lemma fair_flush_pending [fair]:
  "fair_cluster ids V Q d \<Longrightarrow> fair_cluster ids V Q (flush_pending_triggers_sim self d)"
  unfolding flush_pending_triggers_sim_def flush_pending_triggers_echo_def
    flush_pending_triggers_echod_def Let_def split_beta
  by (intro fair) simp_all

lemma fair_enter_provisional [fair]:
  "fair_cluster ids V Q d \<Longrightarrow> fair_cluster ids V Q (enter_provisional_mode_sim self d)"
  unfolding enter_provisional_mode_sim_def Let_def split_beta by (intro fair) simp_all

lemma fair_ae_coord [fair]:
  "fair_cluster ids V Q d \<Longrightarrow> fair_cluster ids V Q (handle_append_entries_coord self s p d)"
  unfolding handle_append_entries_coord_def handle_append_entries_echo_def Let_def by (intro fair)


section \<open>Elections\<close>

lemma fair_stand:
  "fair_cluster ids V Q d \<Longrightarrow> self \<in> set ids \<Longrightarrow> state (heap d self) \<noteq> OBSERVER \<Longrightarrow>
   fair_cluster ids V Q (stand self d)"
  unfolding stand_def Let_def by (intro fair_reset fair_campaign)

lemma fair_start_election [fair]:
  "fair_cluster ids V {} d \<Longrightarrow> self \<in> set ids \<Longrightarrow> fair_cluster ids V {} (start_election_sim self d)"
  unfolding start_election_sim_def start_election_base_def start_election_echod_def Let_def
  by (intro fair fair_stand) (simp_all add: rpc_fair_def vote_request_sim_def)

text \<open>A voter that is not muted when it takes the request out of its inbox casts one vote.\<close>

lemma fair_request_vote:
  assumes "fair_cluster ids V Q d" and "self \<in> set ids" and "s = q_candidate_id p"
    and "state (heap d self) = OBSERVER \<or> \<not> drained (heap d self)"
  shows "\<exists>W. fair_cluster ids (V \<union> W) Q (handle_request_vote_sim self s p d)"
proof -
  define e where "e = (if q_term p > current_term (heap d self)
      then upd self (step_down_sim (q_term p)) d else d)"
  have e: "fair_cluster ids V Q e"
    unfolding e_def using assms(1) by (intro fair) simp_all
  have awake: "\<not> drained (heap e self)" if "state (heap e self) \<noteq> OBSERVER"
    using that assms(4)
    by (auto simp: e_def step_down_sim_def Let_def drained_def split: if_splits)
  have by_rule: "\<exists>W. fair_cluster ids (V \<union> W) Q (handle_request_vote_by rule self s p d)"
    if rule: "\<And>n. rule p n \<Longrightarrow> state n \<noteq> OBSERVER \<and> voted_for n \<in> {None, Some (q_candidate_id p)}" for rule
  proof (cases "rule p (heap e self)")
    case True
    let ?w = "(self, current_term (heap e self), s)"
    let ?e = "upd self (\<lambda>n. n\<lparr>voted_for := Some s\<rparr>) e"
    have "fair_cluster ids (insert ?w V) Q ?e"
      using rule [OF True] awake assms(2,3) by (intro fair_grant [OF e]) auto
    then have "fair_cluster ids (insert ?w V) Q (reset_election_timer_sim self ?e)"
      by (rule fair_reset)
    then have "fair_cluster ids (insert ?w V) Q (vote_reply self s True (reset_election_timer_sim self ?e))"
      unfolding vote_reply_def by (rule fair_send) (simp add: rpc_fair_def)
    then have "fair_cluster ids (V \<union> {?w}) Q (handle_request_vote_by rule self s p d)"
      using True assms(3) by (simp add: handle_request_vote_by_def Let_def e_def [symmetric])
    then show ?thesis ..
  next
    case False
    then have "handle_request_vote_by rule self s p d = vote_reply self s False e"
      by (simp add: handle_request_vote_by_def Let_def e_def [symmetric])
    then show ?thesis
      using fair_refusal [OF e, of self s] by (metis sup_bot.right_neutral)
  qed
  show ?thesis
    unfolding handle_request_vote_sim_def handle_request_vote_base_def handle_request_vote_echo_def
    using by_rule [of grants_base] by_rule [of grants_echo]
    by (auto simp: grants_base_def grants_echo_def)
qed

lemma fair_become_base:
  assumes "fair_cluster ids V Q d" and "self \<in> set ids" and "state (heap d self) = CANDIDATE"
    and "length (votes_received (heap d self)) > length ids div 2"
  shows "fair_cluster ids V Q (become_leader_base self d)"
proof -
  define e where "e = upd self (\<lambda>n. n\<lparr>state := LEADER\<rparr>) d"
  have "fair_cluster ids V Q e"
    unfolding e_def by (rule fair_win [OF assms])
  then show ?thesis
    unfolding become_leader_base_def Let_def split_beta e_def [symmetric]
    by (intro fair) simp_all
qed

lemma fair_become_leader:
  assumes "fair_cluster ids V Q d" and "self \<in> set ids" and "state (heap d self) = CANDIDATE"
    and "length (votes_received (heap d self)) > length ids div 2"
  shows "fair_cluster ids V Q (become_leader_sim self d)"
proof -
  have echo: "fair_cluster ids V Q (become_leader_echo self d)"
    unfolding become_leader_echo_def by (intro fair_flush_pending fair_become_base assms)
  have "fair_cluster ids V Q (become_leader_echod self d)"
    unfolding become_leader_echod_def become_leader_echo_def Let_def
    using assms by (intro fair_flush_pending fair_become_base fair_upd) simp_all
  with echo fair_become_base [OF assms] show ?thesis
    by (simp add: become_leader_sim_def split: node_class.split)
qed

lemma fair_vote_response:
  assumes "fair_cluster ids V Q d" and "self \<in> set ids"
    and "v_vote_granted p \<longrightarrow> (s, v_term p, self) \<in> V"
  shows "fair_cluster ids V Q (handle_request_vote_response_sim self s p d)"
proof -
  define e where "e = (if v_vote_granted p
      then upd self (\<lambda>n. n\<lparr>votes_received := dput s (v_voter_battery p) (votes_received n)\<rparr>) d else d)"
  have "fair_cluster ids V Q (if has_majority self e then become_leader_sim self e else e)"
    if cand: "state (heap d self) = CANDIDATE" and t: "v_term p = current_term (heap d self)"
  proof -
    have e: "fair_cluster ids V Q e"
      unfolding e_def using assms cand t by (intro fair_if fair_count) simp_all
    have "state (heap e self) = CANDIDATE" by (simp add: e_def cand)
    then show ?thesis
      using e assms(2) fairD(2) [OF e]
      by (intro fair_if fair_become_leader) (simp_all add: has_majority_def split: if_splits)
  qed
  moreover have "fair_cluster ids V Q (upd self (step_down_sim (v_term p)) d)"
    if "v_term p > current_term (heap d self)"
    using assms(1) that by (intro fair_upd) simp_all
  ultimately show ?thesis
    using assms(1)
    by (simp add: handle_request_vote_response_sim_def handle_request_vote_response_base_def
        handle_request_vote_response_echo_def Let_def e_def [symmetric])
qed

text \<open>A leader hands over when it is idle: no vote request waits in its inbox.\<close>

lemma fair_handoff [fair]:
  "fair_cluster ids V Q d \<Longrightarrow> self \<in> Q \<Longrightarrow> fair_cluster ids V Q (initiate_handoff_sim self d)"
  unfolding initiate_handoff_sim_def Let_def split_beta by (intro fair) simp_all

lemma fair_on_handoff [fair]:
  "fair_cluster ids V {} d \<Longrightarrow> self \<in> set ids \<Longrightarrow>
   fair_cluster ids V {} (handle_leadership_handoff_sim self s p d)"
  unfolding handle_leadership_handoff_sim_def Let_def by (intro fair) simp_all


section \<open>Sensor data and idle ticks\<close>

lemma fair_register [fair]:
  "fair_cluster ids V Q d \<Longrightarrow> fair_cluster ids V Q (handle_leaf_register_sim self s p d)"
  unfolding handle_leaf_register_sim_def Let_def by (intro fair) simp_all

lemma fair_forward [fair]:
  "fair_cluster ids V Q d \<Longrightarrow> plain_rpc p \<Longrightarrow> fair_cluster ids V Q (forward_report self p d)"
  unfolding forward_report_def by (intro fair) simp_all

lemma fair_flush_batch [fair]:
  "fair_cluster ids V Q d \<Longrightarrow> fair_cluster ids V Q (flush_batch_sim self d)"
  unfolding flush_batch_sim_def Let_def split_beta by (intro fair) simp_all

lemma fair_buffer [fair]:
  "fair_cluster ids V Q d \<Longrightarrow> fair_cluster ids V Q (buffer_reading self p d)"
  unfolding buffer_reading_def fair_defs by (intro fair) (simp_all add: note_sensor_def)

lemma fair_sensor [fair]:
  assumes "fair_cluster ids V Q d" and "plain_rpc p"
  shows "fair_cluster ids V Q (handle_sensor_data_coord self s p d)"
proof -
  have base: "fair_cluster ids V Q (handle_sensor_data_base self s p d)"
    unfolding handle_sensor_data_base_def using assms by (intro fair) (simp_all add: note_sensor_def)
  moreover from base have "fair_cluster ids V Q (handle_sensor_data_echo self s p d)"
    unfolding handle_sensor_data_echo_def using assms by (intro fair)
  moreover have "fair_cluster ids V Q (handle_sensor_data_echod self s p d)"
    unfolding handle_sensor_data_echod_def Let_def using assms by (intro fair)
  ultimately show ?thesis
    by (simp add: handle_sensor_data_coord_def split: node_class.split)
qed

lemma fair_keepalives [fair]:
  "fair_cluster ids V Q d \<Longrightarrow> fair_cluster ids V Q (send_leaf_keepalives_sim self d)"
  unfolding send_leaf_keepalives_sim_def by (intro fair) simp_all

lemma fair_lead_idle:
  "fair_cluster ids V Q d \<Longrightarrow> self \<in> Q \<Longrightarrow> fair_cluster ids V Q (lead_idle_echod t self d)"
  unfolding lead_idle_echod_def Let_def by (intro fair) simp_all

lemma fair_quiet_inbox: "fair_cluster ids V Q d \<Longrightarrow> unasked (heap d i) \<Longrightarrow> fair_cluster ids V (insert i Q) d"
  by (simp add: fair_cluster_def)

lemma fair_lead_idle_open [fair]:
  assumes "fair_cluster ids V {} d" and "unasked (heap d self)"
  shows "fair_cluster ids V {} (lead_idle_echod t self d)"
  by (rule fair_weaken [OF fair_lead_idle [OF fair_quiet_inbox [OF assms] insertI1]]) simp_all

lemma fair_idle_coord:
  assumes "fair_cluster ids V {} d" and "self \<in> set ids" and "unasked (heap d self)"
  shows "fair_cluster ids V {} (on_idle_coord self d)"
proof -
  have "fair_cluster ids V {} (on_idle_base self d)" "fair_cluster ids V {} (on_idle_raft self d)"
    "fair_cluster ids V {} (on_idle_echod self d)"
    unfolding on_idle_base_def on_idle_raft_def on_idle_echod_def Let_def split_beta
    using assms by (intro fair; simp)+
  then show ?thesis by (simp add: on_idle_coord_def split: node_class.split)
qed


section \<open>Leaves\<close>

lemma fair_try_register [fair]:
  "fair_cluster ids V Q d \<Longrightarrow> fair_cluster ids V Q (try_register self d)"
  unfolding try_register_def Let_def split_beta by (intro fair) simp_all

lemma fair_register_reply:
  "fair_cluster ids V Q d \<Longrightarrow> \<not> coordinator_tier (heap d self) \<Longrightarrow>
   fair_cluster ids V Q (handle_leaf_register_response_leaf self s p d)"
  unfolding handle_leaf_register_response_leaf_def Let_def split_beta by (intro fair) simp_all

lemma fair_reading [fair]:
  "fair_cluster ids V Q d \<Longrightarrow> fair_cluster ids V Q (send_reading self v d)"
  unfolding send_reading_def send_reading_base_def send_reading_echod_def by (intro fair) simp_all

lemma fair_report [fair]:
  "fair_cluster ids V Q d \<Longrightarrow> fair_cluster ids V Q (report_sensor self d)"
  unfolding report_sensor_def Let_def split_beta by (intro fair) simp_all

lemma fair_inject [fair]:
  "fair_cluster ids V Q d \<Longrightarrow> fair_cluster ids V Q (inject_reading self v d)"
  unfolding inject_reading_def by (intro fair) simp_all

lemma fair_idle_leaf:
  "fair_cluster ids V Q d \<Longrightarrow> \<not> coordinator_tier (heap d self) \<Longrightarrow>
   fair_cluster ids V Q (on_idle_leaf self d)"
  unfolding on_idle_leaf_def Let_def split_beta by (intro fair) simp_all

lemma fair_leaf_messages [fair]:
  "fair_cluster ids V Q d \<Longrightarrow> fair_cluster ids V Q (handle_append_entries_leaf self s p d)"
  "fair_cluster ids V Q d \<Longrightarrow> fair_cluster ids V Q (handle_liveness_ping_leaf self s p d)"
  unfolding handle_append_entries_leaf_def handle_liveness_ping_leaf_def Let_def split_beta
  by (intro fair; simp)+


section \<open>The event loop\<close>

lemma fair_member:
  "fair_cluster ids V Q d \<Longrightarrow> i \<in> set (members d) \<Longrightarrow> coordinator_tier (heap d i) \<Longrightarrow> i \<in> set ids"
  by (auto simp: fair_cluster_def coordinator_ids_def)

lemma fair_on_leaf_or:
  "(\<not> coordinator_tier (heap d self) \<Longrightarrow> fair_cluster ids V Q (f d)) \<Longrightarrow>
   (coordinator_tier (heap d self) \<Longrightarrow> fair_cluster ids V Q (g d)) \<Longrightarrow>
   fair_cluster ids V Q (on_leaf_or self f g d)"
  by (simp add: on_leaf_or_def)

lemma fair_handle_message:
  assumes "fair_cluster ids V {} d" and "self \<in> set (members d)" and "reported self m \<subseteq> V"
    and "is_RequestVoteRPC (payload_of m) \<longrightarrow> q_candidate_id (payload_of m) = sender_id m \<and>
      (coordinator_tier (heap d self) \<longrightarrow> state (heap d self) = OBSERVER \<or> \<not> drained (heap d self))"
  shows "\<exists>W. fair_cluster ids (V \<union> W) {} (handle_message self m d)"
proof -
  have member: "self \<in> set ids" if "coordinator_tier (heap d self)"
    using fair_member [OF assms(1,2) that] .
  have keep: ?thesis if "fair_cluster ids V {} (handle_message self m d)"
    using that by (metis sup_bot.right_neutral)
  show ?thesis
  proof (cases "payload_of m")
    case (RequestVoteRPC t k a b e)
    then show ?thesis
      using assms fair_request_vote [OF assms(1) member, of "sender_id m" "payload_of m"] keep
      by (auto simp: handle_message_def Let_def on_leaf_or_def)
  next
    case (RequestVoteResponse t g v b)
    show ?thesis
      by (rule keep)
        (use RequestVoteResponse assms member in \<open>auto simp: handle_message_def Let_def on_leaf_or_def
           reported_def intro!: fair_vote_response\<close>)
  next
    case (LeadershipHandoffMsg t k)
    have "coordinator_tier (heap d self)" if "cls (heap d self) = EchoDCoordinator"
      using that by (simp add: coordinator_tier_def)
    then show ?thesis
      using LeadershipHandoffMsg assms member
      by (intro keep) (auto simp: handle_message_def Let_def intro!: fair_on_handoff)
  qed (rule keep; use assms(1) in \<open>auto simp: handle_message_def Let_def on_leaf_or_def
      intro: fair fair_register_reply\<close>)+
qed

lemma fair_idle:
  assumes "fair_cluster ids V {} d" and "self \<in> set (members d)" and "unasked (heap d self)"
  shows "fair_cluster ids V {} (on_idle self d)"
  unfolding on_idle_def
  using assms fair_member [OF assms(1,2)]
  by (intro fair_on_leaf_or fair_idle_leaf fair_idle_coord) simp_all

lemma fair_wakeup: "fair_cluster ids V Q d \<Longrightarrow> fair_cluster ids V Q (snd (wakeup_interval self d))"
  unfolding wakeup_interval_def wakeup_interval_base_def wakeup_interval_echod_def fair_defs
  by (intro fair)

lemma members_wakeup: "members (snd (wakeup_interval self d)) = members d"
  using stays_wakeup [OF stays_refl, of self d] by (simp add: stays_def topology_def)

lemma fair_loop_round:
  assumes "fair_cluster ids {} {} d" and "self \<in> set (members d)"
  shows "fair_cluster ids {} {} (loop_round self d)"
proof -
  let ?e = "snd (wakeup_interval self d)"
  have e: "fair_cluster ids {} {} ?e" using assms(1) by (rule fair_wakeup)
  show ?thesis
  proof (cases "inbox (heap ?e self)")
    case Nil
    then have "fair_cluster ids {} {} (on_idle self ?e)"
      using e assms(2) by (intro fair_idle) (simp_all add: members_wakeup unasked_def)
    then show ?thesis using Nil assms(1) by (simp add: loop_round_def split_beta Let_def)
  next
    case (Cons m ms)
    let ?d = "upd self (\<lambda>n. n\<lparr>inbox := ms\<rparr>) ?e"
    have "voter_ok (heap ?e self)" by (rule fairD(1) [OF e])
    then have "is_RequestVoteRPC (payload_of m) \<longrightarrow> q_candidate_id (payload_of m) = sender_id m \<and>
        (coordinator_tier (heap ?d self) \<longrightarrow> state (heap ?d self) = OBSERVER \<or> \<not> drained (heap ?d self))"
      using Cons by (auto simp: voter_ok_def unasked_def coordinator_tier_def drained_def)
    from fair_handle_message [OF fair_pop [OF e Cons] _ _ this]
    obtain W where "fair_cluster ids W {} (handle_message self m ?d)"
      using assms(2) by (auto simp: members_wakeup)
    then have "fair_cluster ids {} {} (handle_message self m ?d)"
      by (rule fair_weaken) simp_all
    then show ?thesis
      using Cons assms(1) by (simp add: loop_round_def split_beta Let_def)
  qed
qed


section \<open>Runs\<close>

lemma fair_housekeeping:
  assumes "fair_cluster ids {} {} c" and "0 \<le> battery_drain a"
  shows "fair_cluster ids {} {} (snd (snd (side_effects a start prev c)))"
proof -
  let ?e = "tick_batteries_weighted (battery_drain a * (1 / 10)) (snd (now c))"
  have mult: "0 \<le> drain_mult n" for n
    by (simp add: drain_mult_def DRAIN_MULT_LEAF_def DRAIN_MULT_LEADER_def DRAIN_MULT_CANDIDATE_def
        DRAIN_MULT_OBSERVER_def DRAIN_MULT_FOLLOWER_def)
  have "fair_cluster ids {} {} ?e"
    unfolding tick_batteries_weighted_def
    using assms mult by (intro fair) simp_all
  then show ?thesis
    by (rule fair_same)
      (simp_all add: side_effects_def Let_def split_beta snapshot_all_def split_members_def
        inject_partition_def heal_partition_def observe_leader_def split: list.split option.split)
qed

lemma fair_deliver_event:
  "fair_cluster ids {} {} c \<Longrightarrow> fair_cluster ids {} {} (deliver_event ev c)"
  unfolding deliver_event_def Let_def replicate_raft_def by (intro fair)

text \<open>Only members of the cluster have a task, and no turn changes that.\<close>

definition tasks_known :: "cluster \<Rightarrow> bool" where
  "tasks_known c \<longleftrightarrow> set (tasks c) \<subseteq> set (members c)"

lemma known_stays: "stays i c d \<Longrightarrow> tasks_known c \<Longrightarrow> tasks_known d"
  by (simp add: stays_def topology_def tasks_known_def)

lemma known_housekeeping: "tasks_known c \<Longrightarrow> tasks_known (snd (snd (side_effects a start prev c)))"
proof -
  have ticks: "tasks (tick_batteries_weighted x d) = tasks d" for x d
    unfolding tick_batteries_weighted_def
    by (rule fold_invariant [where P = "\<lambda>e. tasks e = tasks d" and Q = "\<lambda>_. True"]) simp_all
  assume "tasks_known c"
  then show ?thesis
    by (simp add: tasks_known_def side_effects_def Let_def split_beta snapshot_all_def split_members_def
        inject_partition_def heal_partition_def observe_leader_def ticks now_def split: list.split option.split)
qed

lemma fair_turn:
  assumes "fair_cluster ids {} {} (sc_cluster s) \<and> tasks_known (sc_cluster s)" and "0 \<le> battery_drain a"
  shows "fair_cluster ids {} {} (sc_cluster (take_turn a tn s)) \<and> tasks_known (sc_cluster (take_turn a tn s))"
proof (cases tn)
  case (Node i)
  have "tasks_known (loop_round i (sc_cluster s))"
    using known_stays [OF stays_loop_round [OF stays_refl]] assms(1) by blast
  then show ?thesis
    using assms(1) Node by (auto simp: take_turn_def tasks_known_def intro!: fair_loop_round)
next
  case Housekeeping
  then show ?thesis
    using assms fair_housekeeping known_housekeeping
    by (auto simp: take_turn_def split_beta Let_def)
next
  case Driver
  have "tasks_known (deliver_event ev (sc_cluster s))" for ev
    using assms(1) known_stays [OF stays_inject [OF stays_refl]]
      known_stays [OF stays_replicate [OF stays_refl]]
    by (auto simp: deliver_event_def replicate_raft_def Let_def split: option.split)
  then show ?thesis
    using Driver assms(1) by (auto simp: take_turn_def split: list.split intro!: fair_deliver_event)
qed

lemma fair_turns:
  assumes "0 \<le> battery_drain a"
  shows "fair_cluster ids {} {} (sc_cluster s) \<and> tasks_known (sc_cluster s) \<Longrightarrow>
    fair_cluster ids {} {} (sc_cluster (fold (take_turn a) tns s)) \<and>
    tasks_known (sc_cluster (fold (take_turn a) tns s))"
proof (induction tns arbitrary: s)
  case (Cons tn tns)
  show ?case using Cons.IH [OF fair_turn [OF Cons.prems assms]] by simp
qed simp


section \<open>The three clusters\<close>

text \<open>A cluster in which nothing has happened yet.\<close>

definition newborn :: "sim_node \<Rightarrow> bool" where
  "newborn n \<longleftrightarrow> state n \<in> {FOLLOWER, UNREGISTERED} \<and> inbox n = [] \<and> votes_received n = []"

definition unstarted :: "cluster \<Rightarrow> bool" where
  "unstarted c \<longleftrightarrow> (\<forall>i. newborn (heap c i)) \<and> distinct (members c) \<and>
     set (bus_nodes c) \<subseteq> set (members c) \<and> tasks c = []"

lemma newborn_new [simp]: "newborn (new_node k b)"
  by (simp add: newborn_def new_node_def)

lemma unstarted_register: "unstarted c \<Longrightarrow> unstarted (register_node i c)"
  by (auto simp: unstarted_def register_node_def add_node_def newborn_def)

lemma deadline_frame:
  "members (snd (new_election_deadline_sim self d)) = members d"
  "bus_nodes (snd (new_election_deadline_sim self d)) = bus_nodes d"
  "tasks (snd (new_election_deadline_sim self d)) = tasks d"
proof -
  have "stays self d (snd (new_election_deadline_sim self d))" by (intro stay)
  then show "members (snd (new_election_deadline_sim self d)) = members d"
    "bus_nodes (snd (new_election_deadline_sim self d)) = bus_nodes d"
    "tasks (snd (new_election_deadline_sim self d)) = tasks d"
    by (simp_all add: stays_def topology_def)
qed

lemma unstarted_construct:
  "unstarted c \<Longrightarrow> unstarted (construct_coordinator k i c)"
  "unstarted c \<Longrightarrow> unstarted (construct_leaf k i sensor auto c)"
  by (auto simp: unstarted_def construct_coordinator_def construct_leaf_def newborn_def new_node_def
      reset_election_timer_sim_def now_def deadline_frame Let_def split_beta)

lemma unstarted_fold:
  "(\<And>x d. unstarted d \<Longrightarrow> unstarted (f x d)) \<Longrightarrow> unstarted d \<Longrightarrow> unstarted (fold f xs d)"
  by (induction xs arbitrary: d) auto

lemma unstarted_new: "unstarted (new_cluster w)"
  by (simp add: unstarted_def new_cluster_def new_metrics_def split_beta Let_def)

lemma unstarted_built: "c \<in> built_clusters w \<Longrightarrow> unstarted c"
  unfolding built_clusters_def build_raft_cluster_def build_echo_cluster_def build_echod_cluster_def
    build_tiered_def Let_def
  by (auto intro!: unstarted_fold unstarted_register unstarted_construct unstarted_new)

lemma fair_start:
  assumes "unstarted c"
  defines "d \<equiv> run_begin (scenario_begin c)"
  shows "fair_cluster (coordinator_ids d) {} {} d \<and> tasks_known d"
proof -
  have started: "members (fold start_task is e) = members e \<and> bus_nodes (fold start_task is e) = bus_nodes e \<and>
      energy_hook (fold start_task is e) = energy_hook e \<and> set (tasks (fold start_task is e)) = set (tasks e) \<union> set is \<and>
      ((\<forall>i. newborn (heap e i)) \<longrightarrow> (\<forall>i. newborn (heap (fold start_task is e) i)))" for "is" and e :: cluster
    by (induction "is" arbitrary: e) (auto simp: start_task_def newborn_def)
  have new: "\<forall>i. newborn (heap d i)" and frame: "members d = members c" "bus_nodes d = bus_nodes c"
    "energy_hook d" "set (tasks d) \<subseteq> set (members c)"
    using assms(1) started unfolding d_def
    by (auto simp: run_begin_def scenario_begin_def snapshot_all_def unstarted_def now_def Let_def split_beta)
  let ?p = "\<lparr>member = (\<lambda>i. sim_ballot (heap d i)), cast = {}, won = {}\<rparr>"
  have "sim_role (heap d i) \<in> {Idle, Muted}" for i
    using spec [OF new, of i] by (auto simp: sim_role_def newborn_def is_leading_def)
  then have "poll_start ?p" by (simp add: poll_start_def sim_ballot_def)
  then have "poll_reach (majority_of (set (coordinator_ids d))) ?p" by (rule poll_reach.start)
  then have "backed (coordinator_ids d) ?p d"
    using new by (simp add: backed_def newborn_def)
  moreover have "voter_ok (heap d i)" for i
    using spec [OF new, of i] by (auto simp: newborn_def voter_ok_def unasked_def)
  ultimately show ?thesis
    using assms(1) frame
    by (auto simp: fair_cluster_def unstarted_def coordinator_ids_def tasks_known_def)
qed

lemma fair_scenario:
  assumes "unstarted c" and "0 \<le> battery_drain a"
  shows "\<exists>ids. fair_cluster ids {} {} (run_scenario a events tns c)"
proof -
  let ?c = "run_begin (scenario_begin c)"
  let ?ids = "coordinator_ids ?c"
  have "fair_cluster ?ids {} {} (snd (now ?c)) \<and> tasks_known (snd (now ?c))"
    using fair_start [OF assms(1)] by (simp add: fair_now) (simp add: now_def tasks_known_def split_beta)
  then have turns: "fair_cluster ?ids {} {} (sc_cluster (fold (take_turn a) tns
      \<lparr>sc_cluster = snd (now ?c), effects_start = t, effects_done = False, prev_leader = None,
       pending_events = events\<rparr>))" for t
    using fair_turns [OF assms(2), where ids = ?ids] by simp
  have stop: "fair_cluster ?ids {} {} (run_end e)" if "fair_cluster ?ids {} {} e" for e
  proof -
    have "fair_cluster ?ids {} {} (fold (\<lambda>i. upd i stop_node) (members e) e)"
      using that by (intro fair) (simp_all add: stop_node_def)
    then show ?thesis by (rule fair_same) (simp_all add: run_end_def)
  qed
  show ?thesis
    unfolding run_scenario_def Let_def split_beta by (intro exI [of _ ?ids] stop turns)
qed


lemma length_le_one:
  "(\<And>i j. i \<in> set xs \<Longrightarrow> j \<in> set xs \<Longrightarrow> i = j) \<Longrightarrow> distinct xs \<Longrightarrow> length xs \<le> 1"
proof (rule ccontr)
  assume same: "\<And>i j. i \<in> set xs \<Longrightarrow> j \<in> set xs \<Longrightarrow> i = j" and "distinct xs" and long: "\<not> length xs \<le> 1"
  obtain x y zs where "xs = x # y # zs"
    using long by (cases xs; cases "tl xs") auto
  with same [of x y] \<open>distinct xs\<close> show False by simp
qed

text \<open>C3. In every run of every simulated cluster (Raft, ECHO or echoD, any workload, any order of
  turns, any partitions and random numbers, batteries that drain and turn coordinators into
  observers in the middle of an election) at most one coordinator leads each term.\<close>

theorem simulated_one_leader_per_term:
  assumes "c \<in> built_clusters w" and "0 \<le> battery_drain a" and "d = run_scenario a events tns c"
  shows "length (filter (\<lambda>i. is_leading (heap d i) \<and> current_term (heap d i) = t) (coordinator_ids d)) \<le> 1"
proof -
  obtain ids where fair: "fair_cluster ids {} {} d"
    using fair_scenario [OF unstarted_built [OF assms(1)] assms(2)] unfolding assms(3) by blast
  then obtain p where p: "poll_reach (majority_of (set ids)) p" "\<And>i. member p i = sim_ballot (heap d i)"
    by (auto simp: fair_cluster_def backed_def)
  let ?lead = "filter (\<lambda>i. is_leading (heap d i) \<and> current_term (heap d i) = t) (coordinator_ids d)"
  have "i = j" if "i \<in> set ?lead" "j \<in> set ?lead" for i j
  proof (rule maj.elected_unique [OF p(1)])
    show "b_role (member p i) = Elected" "b_role (member p j) = Elected"
      using that by (auto simp: p(2) sim_ballot_def sim_role_def is_leading_def coordinator_ids_def)
    show "b_term (member p i) = b_term (member p j)"
      using that by (simp add: p(2) sim_ballot_def)
  qed
  moreover have "distinct ?lead"
    using fairD(2,3) [OF fair] by simp
  ultimately show ?thesis by (rule length_le_one)
qed

theorem simulated_one_leader_per_term_witness:
  "length (filter (\<lambda>i. is_leading (heap pair_run i) \<and> current_term (heap pair_run i) = 1)
     (coordinator_ids pair_run)) \<le> 1"
proof (rule simulated_one_leader_per_term)
  show "build_raft_cluster 2 (new_cluster flat_world) \<in> built_clusters flat_world"
    unfolding built_clusters_def by blast
qed (simp_all add: default_args_def)

end
