(* ===== verification/SimProvisional.thy ===== *)
theory SimProvisional
  imports SimRuns
begin

text \<open>
  Provisional mode in the simulation: what a local leader of ECHO can still do.
\<close>

section \<open>A local leader makes no progress\<close>

lemma log_frame:
  "log (heap (reset_election_timer_sim self c) j) = log (heap c j)"
  "log (step_down_sim t n) = log n"
  by (simp_all add: step_down_sim_def Let_def)

text \<open>C33. In ECHO (not in echoD) a local leader drops every sensor report without forwarding it, and
  in both no acknowledgement ever moves its commit index: both handlers ask for the state
  \<open>LEADER\<close>. So the minority side of a partition neither records nor commits anything.\<close>

theorem local_leader_makes_no_progress:
  assumes "state (heap c self) = LOCAL_LEADER"
  shows "(cls (heap c self) = EchoCoordinator \<longrightarrow> handle_sensor_data_coord self s p c = c) \<and>
    log (heap (handle_append_entries_response_sim self r q c) self) = log (heap c self)"
  using assms
  by (simp add: handle_sensor_data_coord_def handle_sensor_data_echo_def handle_sensor_data_base_def
      is_leading_def handle_append_entries_response_sim_def log_frame Let_def)

definition lone_local_leader :: cluster where
  "lone_local_leader = upd ''a'' (\<lambda>n. (new_node EchoCoordinator 1)\<lparr>state := LOCAL_LEADER,
     current_term := 1, partition_epoch := 1, attached := True\<rparr>) (new_cluster flat_world)"

theorem local_leader_makes_no_progress_witness:
  "handle_sensor_data_coord ''a'' ''leaf-0'' (SensorDataReport ''leaf-0'' ''temperature'' 25) lone_local_leader =
     lone_local_leader \<and>
   log (heap (handle_append_entries_response_sim ''a'' ''b'' (AppendEntriesResponse 1 True ''b'' 3 90)
     lone_local_leader) ''a'') = new_log"
  using local_leader_makes_no_progress [of lone_local_leader "''a''" "''leaf-0''"
      "SensorDataReport ''leaf-0'' ''temperature'' 25" "''b''" "AppendEntriesResponse 1 True ''b'' 3 90"]
  by (simp add: lone_local_leader_def new_node_def)


section \<open>Reconciliation\<close>

text \<open>Reconciliation of a local leader whose side has committed as much as the other: it steps
  back to follower and then writes its provisional entries to its own log a second time.\<close>

definition provisional_sim :: sim_entry where
  "provisional_sim = \<lparr>e_index = 1, e_term = 1, e_command = JInt 7, e_trigger_type = DELTA,
     e_partition_epoch = 1\<rparr>"

theorem reconciled_follower_writes:
  "let c = upd ''a'' (\<lambda>n. n\<lparr>log := append_log provisional_sim new_log\<rparr>) lone_local_leader;
       n = heap (reconcile_sim ''a'' [] 0 c) ''a''
   in state n = FOLLOWER \<and> map e_command (entries (log n)) = [JInt 7, JInt 7]"
  by (simp add: reconcile_sim_def lone_local_leader_def provisional_sim_def append_log_def new_log_def
      entries_from_def py_from_nonneg reconcile_log_def exit_provisional_mode_sim_def new_node_def
      flush_pending_triggers_sim_def flush_pending_triggers_echo_def replicate_entry_sim_def Let_def
      last_index_def send_all_append_entries_def new_cluster_def coordinator_ids_def)

end
