(* ===== verification/SimCollector.thy ===== *)
theory SimCollector
  imports SimMetrics
begin

text \<open>
  The collector of the simulation over a whole run: whatever calls it gets, its counters
  agree with each other and its figures are meaningful.
\<close>

section \<open>Calls\<close>

datatype collector_call =
    Message message
  | LeaderChange string
  | Snapshot string rat
  | Availability bool

fun collect :: "collector_call \<Rightarrow> metrics \<times> world \<Rightarrow> metrics \<times> world" where
  "collect (Message msg) (m, w) = on_message msg m w"
| "collect (LeaderChange i) (m, w) = (record_leader_change i m, w)"
| "collect (Snapshot i b) (m, w) = (snapshot_energy i b m, w)"
| "collect (Availability up) (m, w) = record_availability up m w"

definition is_message :: "collector_call \<Rightarrow> bool" where
  "is_message x = (case x of Message _ \<Rightarrow> True | _ \<Rightarrow> False)"


section \<open>The invariant\<close>

text \<open>\<open>t0\<close> is the time the collector was made, \<open>k\<close> how many messages it has seen.\<close>

definition rounds_timed :: "metrics \<Rightarrow> rat \<Rightarrow> bool" where
  "rounds_timed m t \<longleftrightarrow>
     (\<forall>r\<in>set (rounds m). \<exists>c. commit_time r = Some c \<and> trigger_time r \<le> c) \<and>
     (\<forall>r. active_round m = Some r \<longrightarrow> commit_time r = None \<and> trigger_time r \<le> t)"

definition counts_agree :: "metrics \<Rightarrow> nat \<Rightarrow> bool" where
  "counts_agree m k \<longleftrightarrow> total_messages_m m = k \<and> wf_dict (messages_by_type m) \<and>
     sum_list (map snd (messages_by_type m)) = k \<and>
     sum_list (map messages (rounds m)) + (case active_round m of None \<Rightarrow> 0 | Some r \<Rightarrow> messages r) \<le> k"

definition time_split :: "metrics \<Rightarrow> rat \<Rightarrow> rat \<Rightarrow> bool" where
  "time_split m t0 t \<longleftrightarrow> 0 \<le> cluster_up_time m \<and> 0 \<le> cluster_down_time m \<and>
     cluster_up_time m + cluster_down_time m = last_check m - t0 \<and> last_check m \<le> t"

definition collector_inv :: "rat \<Rightarrow> nat \<Rightarrow> metrics \<times> world \<Rightarrow> bool" where
  "collector_inv t0 k x \<longleftrightarrow> steady (snd x) \<and>
     rounds_timed (fst x) (mono_tape (snd x) (mono_pos (snd x))) \<and> counts_agree (fst x) k \<and>
     time_split (fst x) t0 (mono_tape (snd x) (mono_pos (snd x)))"

lemma steady_next: "steady w \<Longrightarrow> mono_tape w (mono_pos w) \<le> mono_tape w (Suc (mono_pos w))"
  by (simp add: steady_def)

lemma steady_pos [simp]: "steady (w\<lparr>mono_pos := n\<rparr>) = steady w"
  by (simp add: steady_def)

lemma inv_count:
  "collector_inv t0 k (m, w) \<Longrightarrow> collector_inv t0 (Suc k) (count_message p m, w)"
  by (auto simp: collector_inv_def rounds_timed_def counts_agree_def time_split_def count_message_def
      sum_list_bump split: option.splits)

lemma inv_open:
  assumes "collector_inv t0 k (m, w)"
  shows "collector_inv t0 k (open_round p m w)"
proof (cases p)
  case (AppendEntriesRPC t l prev pt es lc trig ep)
  show ?thesis
  proof (cases "es \<noteq> [] \<and> active_round m = None")
    case True
    then show ?thesis
      using assms AppendEntriesRPC steady_next [of w]
      by (auto simp: collector_inv_def open_round_def monotonic_def rounds_timed_def counts_agree_def
          time_split_def)
  qed (use assms AppendEntriesRPC in \<open>auto simp: open_round_def\<close>)
qed (use assms in \<open>simp_all add: open_round_def\<close>)

lemma inv_close:
  assumes "collector_inv t0 k (m, w)"
  shows "collector_inv t0 k (close_round p m w)"
proof (cases p)
  case (AppendEntriesResponse t ok i mi b)
  show ?thesis
  proof (cases "active_round m")
    case (Some r)
    then show ?thesis
      using assms AppendEntriesResponse steady_next [of w]
      by (auto simp: collector_inv_def close_round_def monotonic_def rounds_timed_def
          counts_agree_def time_split_def)
  qed (use assms AppendEntriesResponse in \<open>simp add: close_round_def\<close>)
qed (use assms in \<open>simp_all add: close_round_def\<close>)

lemma inv_availability:
  assumes "collector_inv t0 k (m, w)"
  shows "collector_inv t0 k (record_availability up m w)"
  using assms steady_next [of w]
  by (auto simp: collector_inv_def record_availability_def monotonic_def Let_def rounds_timed_def
      counts_agree_def time_split_def intro: order_trans)

lemma inv_collect:
  assumes "collector_inv t0 k x"
  shows "collector_inv t0 (if is_message op then Suc k else k) (collect op x)"
proof -
  obtain m w where x: "x = (m, w)" by (cases x)
  show ?thesis
  proof (cases op)
    case (Message msg)
    have "collector_inv t0 (Suc k) (open_round (payload_of msg) (count_message (payload_of msg) m) w)"
      using assms by (intro inv_open inv_count) (simp add: x)
    from inv_close [of _ _ "fst (open_round (payload_of msg) (count_message (payload_of msg) m) w)"
        "snd (open_round (payload_of msg) (count_message (payload_of msg) m) w)"] this
    show ?thesis
      using Message by (simp add: x on_message_def Let_def split_beta is_message_def)
  next
    case (Availability up)
    then show ?thesis using assms inv_availability by (simp add: x is_message_def)
  qed (use assms in \<open>auto simp: x is_message_def collector_inv_def record_leader_change_def
      snapshot_energy_def rounds_timed_def counts_agree_def time_split_def\<close>)
qed

lemma inv_calls:
  "collector_inv t0 k x \<Longrightarrow> collector_inv t0 (k + length (filter is_message ops)) (fold collect ops x)"
proof (induction ops arbitrary: k x)
  case (Cons op ops)
  from Cons.IH [OF inv_collect [OF Cons.prems, of op]] show ?case
    by (cases "is_message op") simp_all
qed simp

lemma latencies_nonneg: "rounds_timed m t \<Longrightarrow> \<forall>l\<in>set (consensus_latencies_ms m). 0 \<le> l"
  by (fastforce simp: rounds_timed_def consensus_latencies_ms_def map_filter_def)

text \<open>C29. Whatever calls a collector gets after its creation, its total is the number of messages it
  was shown and the sum of its counters per type, the messages of its rounds are among them,
  no latency is negative, up and down time add up to the time it has watched, and the
  availability is a percentage.\<close>

theorem collector_accounts:
  assumes "steady w" and "fold collect ops (new_metrics w) = (m, w')"
  shows "total_messages_m m = length (filter is_message ops) \<and>
    sum_list (map snd (messages_by_type m)) = total_messages_m m \<and>
    sum_list (map messages (rounds m)) \<le> total_messages_m m \<and>
    list_all (\<lambda>l. 0 \<le> l) (consensus_latencies_ms m) \<and>
    cluster_up_time m + cluster_down_time m = last_check m - mono_tape w (mono_pos w) \<and>
    0 \<le> availability_pct m \<and> availability_pct m \<le> 100"
proof -
  let ?t0 = "mono_tape w (mono_pos w)"
  have "collector_inv ?t0 0 (new_metrics w)"
    using assms(1) steady_next [of w]
    by (simp add: collector_inv_def new_metrics_def monotonic_def rounds_timed_def counts_agree_def
        time_split_def)
  then have inv: "collector_inv ?t0 (length (filter is_message ops)) (m, w')"
    using inv_calls [of ?t0 0 "new_metrics w" ops] by (simp add: assms(2))
  have "list_all (\<lambda>l. 0 \<le> l) (consensus_latencies_ms m)"
    using inv latencies_nonneg by (auto simp: collector_inv_def list_all_iff)
  moreover have "0 \<le> cluster_up_time m" "0 \<le> cluster_down_time m"
    using inv by (simp_all add: collector_inv_def time_split_def)
  then have "0 \<le> availability_pct m \<and> availability_pct m \<le> 100"
    by (auto simp: availability_pct_def Let_def divide_le_eq)
  ultimately show ?thesis
    using inv by (auto simp: collector_inv_def counts_agree_def time_split_def split: option.splits)
qed

theorem collector_accounts_witness:
  "let ae = AppendEntriesRPC 1 ''a'' 0 0 [\<lparr>e_index = 1, e_term = 1, e_command = JNull,
         e_trigger_type = DELTA, e_partition_epoch = 0\<rparr>] 0 DELTA 0;
       ok = AppendEntriesResponse 1 True ''b'' 1 90;
       w = \<lparr>mono_tape = of_nat, mono_pos = 0, wall_tape = of_nat, wall_pos = 0,
         rand_tape = (\<lambda>_. 1 / 2), rand_pos = 0, adc_tape = (\<lambda>_. 4), adc_pos = 0\<rparr>;
       m = fst (fold collect [Message \<lparr>sender_id = ''a'', recipient_id = ''b'', payload_of = ae\<rparr>,
         Availability True, Message \<lparr>sender_id = ''b'', recipient_id = ''a'', payload_of = ok\<rparr>]
         (new_metrics w))
   in total_messages_m m = 2 \<and> availability_pct m \<le> 100 \<and> consensus_latencies_ms m = [2000]"
proof -
  define w :: world where "w = \<lparr>mono_tape = of_nat, mono_pos = 0, wall_tape = of_nat, wall_pos = 0,
         rand_tape = (\<lambda>_. 1 / 2), rand_pos = 0, adc_tape = (\<lambda>_. 4), adc_pos = 0\<rparr>"
  define ae where "ae = AppendEntriesRPC 1 ''a'' 0 0 [\<lparr>e_index = 1, e_term = 1, e_command = JNull,
         e_trigger_type = DELTA, e_partition_epoch = 0\<rparr>] 0 DELTA 0"
  let ?ops = "[Message \<lparr>sender_id = ''a'', recipient_id = ''b'', payload_of = ae\<rparr>,
         Availability True,
         Message \<lparr>sender_id = ''b'', recipient_id = ''a'', payload_of = AppendEntriesResponse 1 True ''b'' 1 90\<rparr>]"
  obtain m w' where run: "fold collect ?ops (new_metrics w) = (m, w')" by fastforce
  have "steady w" by (simp add: steady_def w_def)
  from collector_accounts [OF this run]
  have "total_messages_m m = 2" "availability_pct m \<le> 100"
    by (simp_all add: is_message_def)
  moreover have "consensus_latencies_ms m = [2000]"
    using run
    by (auto simp: ae_def w_def new_metrics_def on_message_def open_round_def close_round_def
        count_message_def monotonic_def record_availability_def consensus_latencies_ms_def
        map_filter_def Let_def)
  ultimately show ?thesis
    unfolding Let_def w_def [symmetric] ae_def [symmetric] using run by simp
qed

end
