(* ===== verification/SimWorkload.thy ===== *)
theory SimWorkload
  imports SimRun
begin

text \<open>
  The workload generator: when its loop ends, and that the schedule is one reading of every
  source at every time that adding the interval, with Python's rounding, gives up to the
  duration.
\<close>

section \<open>One burst\<close>

lemma length_burst: "length (fst (snd (burst t i vs w))) = length vs"
  by (induction vs arbitrary: i w) (simp_all add: Let_def split_beta)

lemma burst_slots:
  "map (\<lambda>e. (time_s e, source_index e)) (fst (burst t i vs w)) = map (Pair t) [i..<i + length vs]"
  by (induction vs arbitrary: i w) (simp_all add: Let_def split_beta upt_conv_Cons del: upt_Suc)

lemma length_first_values: "length (fst (first_values n w)) = n"
  by (induction n arbitrary: w) (simp_all add: Let_def split_beta)


section \<open>The burst times\<close>

text \<open>The time after \<open>k\<close> turns of the loop, each of which adds the interval to a float.\<close>

definition burst_time :: "rat \<Rightarrow> rat \<Rightarrow> nat \<Rightarrow> rat" where
  "burst_time interval start k = ((\<lambda>t. float_add t interval) ^^ k) start"

lemma burst_time_simps [simp]:
  "burst_time b t 0 = t"
  "burst_time b t (Suc k) = float_add (burst_time b t k) b"
  by (simp_all add: burst_time_def)

lemma burst_time_shift: "burst_time b (float_add t b) k = burst_time b t (Suc k)"
  by (induction k) simp_all

text \<open>An interval that is not too small against the time moves it on by half the interval at
  least.\<close>

lemma float_add_error: "\<bar>float_add t b - (t + b)\<bar> \<le> \<bar>t + b\<bar> / 2 ^ 53"
  unfolding float_add_def by (rule to_double_error)

lemma float_add_advances:
  assumes "0 < b" and "\<bar>t\<bar> \<le> 2 ^ 51 * b"
  shows "t + b / 2 \<le> float_add t b"
  using float_add_error [of t b] assms by (simp add: abs_le_iff abs_if split: if_splits)

lemma burst_time_advances:
  assumes "0 < b" and "\<bar>t\<bar> \<le> 2 ^ 51 * b" and "d \<le> 2 ^ 51 * b"
    and "\<forall>k<n. burst_time b t k \<le> d"
  shows "t + of_nat n * b / 2 \<le> burst_time b t n"
  using assms(4)
proof (induction n)
  case (Suc n)
  then have low: "t + of_nat n * b / 2 \<le> burst_time b t n" and high: "burst_time b t n \<le> d"
    by simp_all
  moreover have "0 \<le> of_nat n * b / 2" using assms(1) by simp
  ultimately have "\<bar>burst_time b t n\<bar> \<le> 2 ^ 51 * b"
    using assms(2,3) unfolding abs_le_iff by linarith
  from float_add_advances [OF assms(1) this] low show ?case
    by (simp add: algebra_simps add_divide_distrib)
qed simp

lemma burst_time_accurate:
  assumes "0 < b" and "\<bar>t\<bar> \<le> 2 ^ 51 * b" and "d \<le> 2 ^ 51 * b"
    and "\<forall>k<n. burst_time b t k \<le> d"
  shows "\<bar>burst_time b t n - (t + of_nat n * b)\<bar> \<le> of_nat n * ((max \<bar>t\<bar> \<bar>d\<bar> + b) / 2 ^ 53)"
  using assms(4)
proof (induction n)
  case (Suc n)
  let ?x = "burst_time b t n" and ?M = "max \<bar>t\<bar> \<bar>d\<bar> + b"
  define u where "u = ?M / 2 ^ 53"
  have "t + of_nat n * b / 2 \<le> ?x"
    using Suc.prems by (intro burst_time_advances [OF assms(1-3)]) simp
  moreover have "0 \<le> of_nat n * b / 2" using assms(1) by simp
  ultimately have "t \<le> ?x" by linarith
  moreover have "?x \<le> d" using Suc.prems by simp
  ultimately have "\<bar>?x + b\<bar> \<le> ?M"
    using assms(1) unfolding abs_le_iff by (auto simp: max_def abs_if split: if_splits)
  then have "\<bar>?x + b\<bar> / 2 ^ 53 \<le> ?M / 2 ^ 53" by (intro divide_right_mono) simp_all
  then have "\<bar>float_add ?x b - (?x + b)\<bar> \<le> u"
    using float_add_error [of ?x b] unfolding u_def by linarith
  moreover have "\<bar>?x - (t + of_nat n * b)\<bar> \<le> of_nat n * u"
    using Suc unfolding u_def by simp
  moreover have "of_nat (Suc n) * b = b + of_nat n * b" "of_nat (Suc n) * u = u + of_nat n * u"
    by (simp_all only: of_nat_Suc distrib_right mult_1)
  ultimately show ?case
    unfolding burst_time_simps u_def [symmetric] by linarith
qed simp

lemma burst_time_passes:
  assumes "0 < b" and "\<bar>t\<bar> \<le> 2 ^ 51 * b" and "d \<le> 2 ^ 51 * b"
  obtains n where "\<forall>k<n. burst_time b t k \<le> d" and "d < burst_time b t n"
proof -
  have "\<exists>n. d < burst_time b t n"
  proof (rule ccontr)
    assume "\<not> ?thesis"
    then have within: "burst_time b t k \<le> d" for k by (auto simp: not_less)
    obtain n where "(d - t) / (b / 2) < of_nat n" using reals_Archimedean2 by blast
    then have "d < t + of_nat n * b / 2" using assms(1) by (simp add: divide_less_eq)
    then show False
      using burst_time_advances [OF assms, of n] within [of n] within by force
  qed
  then obtain n where "d < burst_time b t n" "\<forall>k<n. \<not> d < burst_time b t k"
    using exists_least_iff [of "\<lambda>n. d < burst_time b t n"] by blast
  then show thesis by (intro that) (auto simp: not_less)
qed


section \<open>The schedule\<close>

text \<open>\<open>n\<close> bursts from \<open>start\<close> on, each with the sources in order.\<close>

definition slots :: "rat \<Rightarrow> rat \<Rightarrow> nat \<Rightarrow> nat \<Rightarrow> (rat \<times> nat) list" where
  "slots interval start n sources =
     concat (map (\<lambda>k. map (Pair (burst_time interval start k)) [0..<sources]) [0..<n])"

lemma slots_Suc:
  "slots b t (Suc n) k = map (Pair t) [0..<k] @ slots b (float_add t b) n k"
proof -
  have "[0..<Suc n] = 0 # map Suc [0..<n]"
    by (simp add: upt_conv_Cons map_Suc_upt del: upt_Suc)
  then show ?thesis by (simp add: slots_def o_def burst_time_shift del: upt_Suc)
qed

lemma bursts_schedule:
  assumes "\<forall>k<n. burst_time b t k \<le> d" and "d < burst_time b t n"
  shows "\<exists>evs. bursts d b t vs w = Some evs \<and>
    map (\<lambda>e. (time_s e, source_index e)) evs = slots b t n (length vs)"
  using assms
proof (induction n arbitrary: t vs w)
  case 0
  then show ?case by (simp add: bursts.simps slots_def)
next
  case (Suc n)
  then have t: "t \<le> d" by force
  have later: "\<forall>k<n. burst_time b (float_add t b) k \<le> d" "d < burst_time b (float_add t b) n"
    using Suc.prems unfolding burst_time_shift by auto
  obtain es vs' w' where one: "burst t 0 vs w = (es, vs', w')" by (metis prod_cases3)
  obtain rest where "bursts d b (float_add t b) vs' w' = Some rest"
    "map (\<lambda>e. (time_s e, source_index e)) rest = slots b (float_add t b) n (length vs')"
    using Suc.IH [OF later] by blast
  then show ?case
    using t burst_slots [of t 0 vs w] length_burst [of t 0 vs w] one
    by (subst bursts.simps) (simp add: slots_Suc)
qed

text \<open>The loop returns only when a burst time is past the duration.\<close>

lemma bursts_return:
  assumes "bursts d b t vs w = Some evs"
  shows "\<exists>n. d < burst_time b t n"
proof (rule bursts.raw_induct [OF _ assms])
  fix f d b t vs w evs
  assume later: "\<And>d b t vs w evs. f d b t vs w = Some evs \<Longrightarrow> \<exists>n. d < burst_time b t n"
    and loop: "(if t \<le> d then let (es, vs, w) = burst t 0 vs w
         in Option.bind (f d b (float_add t b) vs w) (\<lambda>rest. Some (es @ rest)) else Some []) = Some evs"
  show "\<exists>n. d < burst_time b t n"
  proof (cases "t \<le> d")
    case True
    with loop obtain vs' w' rest where "f d b (float_add t b) vs' w' = Some rest"
      by (auto simp: split_beta split: bind_splits)
    from later [OF this] show ?thesis by (auto simp only: burst_time_shift)
  qed (auto intro: exI [of _ 0])
qed

text \<open>Up to \<open>2\<^sup>-\<^sup>5\<^sup>3\<close>, half the distance of 1 to the next double, an interval added to 1 is
  lost.\<close>

lemma float_add_absorbs:
  assumes "0 \<le> b" and "b \<le> 1 / 2 ^ 53"
  shows "float_add 1 b = 1"
proof -
  have less: "1 + b < 2" using assms(2) by simp
  have "(2 :: rat) powi leading_bit (1 + b) < 2 powi 1" "(2 :: rat) powi 0 < 2 powi (leading_bit (1 + b) + 1)"
    using leading_bit_bounds [of "1 + b"] assms(1) less by simp_all
  then have bit: "leading_bit (1 + b) = 0"
    using power_int_increasing [of 1 "leading_bit (1 + b)" "2 :: rat"]
      power_int_increasing [of "leading_bit (1 + b) + 1" 0 "2 :: rat"] by force
  let ?y = "(1 + b) / 2 powi (- 52)"
  have y: "?y = 2 ^ 52 + b * 2 ^ 52" by (simp add: power_int_def field_simps)
  have "\<lfloor>?y\<rfloor> = 2 ^ 52" using assms unfolding y by (intro floor_unique) simp_all
  then have "py_round ?y 0 = 2 ^ 52"
    using assms unfolding y by (auto simp: py_round_def Let_def le_less field_simps)
  then show ?thesis using assms(1) by (simp add: float_add_def to_double_def bit power_int_def power_divide)
qed

theorem small_interval_never_ends:
  assumes "0 \<le> interval" and "interval \<le> 1 / 2 ^ 53" and "1 \<le> until"
  shows "generate_workload until leaf_count interval 1 rng = None"
proof -
  have "burst_time interval 1 k = 1" for k
    by (induction k) (simp_all add: float_add_absorbs [OF assms(1,2)])
  then show ?thesis
    using bursts_return [of until interval 1] assms(3)
    by (fastforce simp: generate_workload_def split_beta not_less intro: not_Some_eq [THEN iffD1])
qed

text \<open>C28. For a burst interval above a \<open>2\<^sup>-\<^sup>5\<^sup>1\<close>st of the start time and the duration the generator
  returns. Its schedule has one event for every source, in order, at each of the times that
  repeated float addition of the interval gives, rounding included, up to the last one within
  the duration (with no leaves there is still one source); the \<open>k\<close>th of them is off the start
  time plus \<open>k\<close> intervals by at most \<open>k\<close> half units in the last place of the largest time.\<close>

theorem workload_schedule:
  assumes "0 < interval" and "\<bar>start_at\<bar> \<le> 2 ^ 51 * interval" and "until \<le> 2 ^ 51 * interval"
  shows "\<exists>n evs. generate_workload until leaf_count interval start_at rng = Some evs \<and>
    map (\<lambda>e. (time_s e, source_index e)) evs = slots interval start_at n (max leaf_count 1) \<and>
    (\<forall>k<n. burst_time interval start_at k \<le> until) \<and> until < burst_time interval start_at n \<and>
    (\<forall>k\<le>n. \<bar>burst_time interval start_at k - (start_at + of_nat k * interval)\<bar> \<le>
      of_nat k * ((max \<bar>start_at\<bar> \<bar>until\<bar> + interval) / 2 ^ 53))"
proof -
  obtain n where n: "\<forall>k<n. burst_time interval start_at k \<le> until" "until < burst_time interval start_at n"
    using burst_time_passes [OF assms] by blast
  obtain vs w where vs: "first_values (max leaf_count 1) rng = (vs, w)" by fastforce
  then have "length vs = max leaf_count 1"
    using length_first_values [of "max leaf_count 1" rng] by (simp del: One_nat_def)
  then obtain evs where "generate_workload until leaf_count interval start_at rng = Some evs"
    "map (\<lambda>e. (time_s e, source_index e)) evs = slots interval start_at n (max leaf_count 1)"
    using bursts_schedule [OF n, of vs w] by (auto simp: generate_workload_def vs simp del: One_nat_def)
  moreover have "\<forall>k\<le>n. \<bar>burst_time interval start_at k - (start_at + of_nat k * interval)\<bar> \<le>
      of_nat k * ((max \<bar>start_at\<bar> \<bar>until\<bar> + interval) / 2 ^ 53)"
    using n(1) by (intro allI impI burst_time_accurate [OF assms]) simp
  ultimately show ?thesis using n by blast
qed

lemma float_add_drift:
  "float_add 1 (3152519739159347 / 2 ^ 53) = 6079859496950170 / 2 ^ 52"
  "float_add (6079859496950170 / 2 ^ 52) (3152519739159347 / 2 ^ 53) = 7656119366529844 / 2 ^ 52"
  by code_simp+

text \<open>The floats 0.35 as interval and 1.7 as duration: 2 bursts, at 1 and 1.35, since the next
  time, 1.7000000000000002, is past the duration; the exact sum would not be.\<close>

theorem workload_schedule_witness:
  "\<exists>evs. generate_workload (7656119366529843 / 2 ^ 52) 1 (3152519739159347 / 2 ^ 53) 1
       \<lparr>mono_tape = of_nat, mono_pos = 0, wall_tape = of_nat, wall_pos = 0, rand_tape = (\<lambda>_. 1 / 2),
        rand_pos = 0, adc_tape = (\<lambda>_. 4), adc_pos = 0\<rparr> = Some evs \<and> length evs = 2 \<and>
     1 + 2 * (3152519739159347 / 2 ^ 53 :: rat) \<le> 7656119366529843 / 2 ^ 52"
proof -
  let ?b = "3152519739159347 / 2 ^ 53 :: rat" and ?d = "7656119366529843 / 2 ^ 52 :: rat"
  let ?w = "\<lparr>mono_tape = of_nat, mono_pos = 0, wall_tape = of_nat, wall_pos = 0,
    rand_tape = (\<lambda>_. 1 / 2), rand_pos = 0, adc_tape = (\<lambda>_. 4), adc_pos = 0\<rparr>"
  have t1: "burst_time ?b 1 1 = 6079859496950170 / 2 ^ 52"
    unfolding One_nat_def burst_time_simps by (rule float_add_drift)
  then have first: "burst_time ?b 1 1 \<le> ?d" by simp
  have "burst_time ?b 1 2 = float_add (burst_time ?b 1 1) ?b" by (simp add: numeral_2_eq_2)
  also have "\<dots> = 7656119366529844 / 2 ^ 52" unfolding t1 by (rule float_add_drift)
  finally have second: "?d < burst_time ?b 1 2" by simp
  have pre: "0 < ?b" "\<bar>1 :: rat\<bar> \<le> 2 ^ 51 * ?b" "?d \<le> 2 ^ 51 * ?b" by simp_all
  from workload_schedule [OF pre, of 1 ?w] obtain n evs where
    run: "generate_workload ?d 1 ?b 1 ?w = Some evs"
    and evs: "map (\<lambda>e. (time_s e, source_index e)) evs = slots ?b 1 n 1"
    and n: "\<forall>k<n. burst_time ?b 1 k \<le> ?d" "?d < burst_time ?b 1 n"
    by (auto simp only: max.idem)
  have "n \<noteq> 0" using n(2) by (intro notI) simp
  moreover have "n \<noteq> 1" using n(2) first by (intro notI) simp
  moreover have "\<not> 2 < n" using n(1) second by (meson not_less)
  ultimately have "n = 2" by linarith
  moreover have "length evs = length (slots ?b 1 n 1)" using evs by (metis length_map)
  ultimately have "length evs = 2" by (simp add: slots_def length_concat o_def)
  with run show ?thesis by simp
qed

end
