(* ===== verification/Transport.thy ===== *)
theory Transport
  imports Json PyStrings
begin

text \<open>
  \<open>rpi/coordinator/transport.py\<close>: what the MQTT transport publishes, what it subscribes to
  and what it hands to the node. The MQTT client and the JSON codec are libraries: the model
  records the topic and the JSON value of each publication, and takes the JSON value a
  received body decodes to (\<open>None\<close> when it does not decode).
\<close>

section \<open>State\<close>

text \<open>\<open>handler_set\<close> says that \<open>set_handler\<close> has been called.\<close>

record transport =
  t_node_id :: string
  t_cluster_id :: string
  handler_set :: bool
  connected :: bool
  subscriptions :: "string list"
  publications :: "(string \<times> json \<times> bool) list"

definition rpc_topic :: "string \<Rightarrow> string \<Rightarrow> string" where
  "rpc_topic cluster node = ''echo/'' @ cluster @ ''/rpc/'' @ node"

definition broadcast_topic :: "string \<Rightarrow> string" where
  "broadcast_topic cluster = ''echo/'' @ cluster @ ''/broadcast''"

definition status_topic :: "string \<Rightarrow> string \<Rightarrow> string" where
  "status_topic cluster node = ''echo/'' @ cluster @ ''/status/'' @ node"

definition new_transport :: "string \<Rightarrow> string \<Rightarrow> transport" where
  "new_transport node cluster = \<lparr>t_node_id = node, t_cluster_id = cluster, handler_set = False,
     connected = False, subscriptions = [], publications = []\<rparr>"

definition set_handler :: "transport \<Rightarrow> transport" where
  "set_handler t = t\<lparr>handler_set := True\<rparr>"


section \<open>Connecting\<close>

text \<open>
  The reason codes paho passes: an integer, an object with a \<open>value\<close> (which \<open>int()\<close> may
  refuse), a list of reason codes, anything else. \<open>Flags\<close> is a dict argument.
\<close>

datatype reason = RInt int | RValue "int option" | RList "reason list" | ROther

datatype connect_arg = Flags | Reason reason

fun reason_code_value :: "reason \<Rightarrow> int option" where
  "reason_code_value (RInt i) = Some i"
| "reason_code_value (RValue v) = v"
| "reason_code_value (RList []) = None"
| "reason_code_value (RList (r # rs)) = reason_code_value r"
| "reason_code_value ROther = None"

text \<open>The first argument that looks like a reason code; \<open>None\<close> has no value.\<close>

fun find_reason :: "connect_arg list \<Rightarrow> reason" where
  "find_reason [] = ROther"
| "find_reason (Flags # as) = find_reason as"
| "find_reason (Reason ROther # as) = find_reason as"
| "find_reason (Reason r # as) = r"

definition on_connect :: "connect_arg list \<Rightarrow> transport \<Rightarrow> transport" where
  "on_connect as t =
     (if reason_code_value (find_reason as) = Some 0
      then t\<lparr>connected := True, subscriptions := subscriptions t @
             [rpc_topic (t_cluster_id t) (t_node_id t), broadcast_topic (t_cluster_id t)]\<rparr>
      else t)"

definition on_disconnect :: "transport \<Rightarrow> transport" where
  "on_disconnect t = t\<lparr>connected := False\<rparr>"


section \<open>Publishing\<close>

definition publish_envelope ::
    "rat \<Rightarrow> string \<Rightarrow> string \<Rightarrow> string \<Rightarrow> json \<Rightarrow> transport \<Rightarrow> transport" where
  "publish_envelope now topic recipient msg_type payload t =
     t\<lparr>publications := publications t @ [(topic, JObj
         [(''sender_id'', JStr (t_node_id t)),
          (''recipient_id'', JStr recipient),
          (''msg_type'', JStr msg_type),
          (''payload'', payload),
          (''timestamp'', JFloat now)], False)]\<rparr>"

definition transport_send :: "rat \<Rightarrow> string \<Rightarrow> string \<Rightarrow> json \<Rightarrow> transport \<Rightarrow> transport" where
  "transport_send now recipient msg_type payload t =
     publish_envelope now (rpc_topic (t_cluster_id t) recipient) recipient msg_type payload t"

definition transport_broadcast :: "rat \<Rightarrow> string \<Rightarrow> json \<Rightarrow> transport \<Rightarrow> transport" where
  "transport_broadcast now msg_type payload t =
     publish_envelope now (broadcast_topic (t_cluster_id t)) ''*'' msg_type payload t"

text \<open>\<open>{"node_id": ..., "timestamp": ..., **status}\<close>: the status wins on common keys.\<close>

definition publish_status_blob :: "rat \<Rightarrow> (string, json) dict \<Rightarrow> transport \<Rightarrow> transport" where
  "publish_status_blob now status t =
     t\<lparr>publications := publications t @ [(status_topic (t_cluster_id t) (t_node_id t),
         JObj (fold (\<lambda>(k, v). dput k v) status
           [(''node_id'', JStr (t_node_id t)), (''timestamp'', JFloat now)]), True)]\<rparr>"


section \<open>Receiving\<close>

text \<open>
  The call \<open>_on_message\<close> makes of the handler, if any. A body that is no JSON object raises
  inside the \<open>try\<close> and is dropped.
\<close>

definition transport_on_message :: "json option \<Rightarrow> transport \<Rightarrow> (json \<times> json \<times> json) option" where
  "transport_on_message body t = (case body of
     Some (JObj data) \<Rightarrow>
       (let sender = dget_or data ''sender_id'' (JStr [])
        in if sender = JStr (t_node_id t) then None
           else if handler_set t
           then Some (sender, dget_or data ''msg_type'' (JStr []), dget_or data ''payload'' (JObj []))
           else None)
   | _ \<Rightarrow> None)"

text \<open>
  What the broker does with the two kinds of publication: it passes the body to the clients
  that subscribed to the topic.
\<close>

definition receives :: "string \<times> json \<times> bool \<Rightarrow> transport \<Rightarrow> (json \<times> json \<times> json) option" where
  "receives pub t =
     (if fst pub \<in> set (subscriptions t) then transport_on_message (Some (fst (snd pub))) t else None)"


section \<open>Directed and broadcast messages\<close>

lemma rpc_topic_inj: "rpc_topic c a = rpc_topic c b \<longleftrightarrow> a = b"
  by (simp add: rpc_topic_def)

text \<open>On a cluster whose nodes are connected and have set their handlers, a directed message is
  handed to the node it names, with its sender, type and payload, and to no other node, and
  a broadcast is handed to every node but its sender.\<close>

theorem messages_reach_their_recipients:
  assumes "t_cluster_id a = t_cluster_id b" and "t_node_id a \<noteq> t_node_id b" and "handler_set b"
    and "subscriptions b = [rpc_topic (t_cluster_id b) (t_node_id b), broadcast_topic (t_cluster_id b)]"
  shows "receives (last (publications (transport_send now r k p a))) b =
           (if r = t_node_id b then Some (JStr (t_node_id a), JStr k, p) else None) \<and>
         receives (last (publications (transport_broadcast now k p a))) b =
           Some (JStr (t_node_id a), JStr k, p) \<and>
         transport_on_message (Some (fst (snd (last (publications (transport_broadcast now k p a)))))) a = None"
proof -
  have "rpc_topic (t_cluster_id b) r \<noteq> broadcast_topic (t_cluster_id b)"
    by (simp add: rpc_topic_def broadcast_topic_def)
  then show ?thesis
    using assms
    by (simp add: receives_def transport_on_message_def transport_send_def transport_broadcast_def
        publish_envelope_def dget_or_def rpc_topic_inj)
qed

definition plugged_in :: "string \<Rightarrow> transport" where
  "plugged_in i = on_connect [Flags, Reason (RList [RInt 0])] (set_handler (new_transport i ''echo-default''))"

theorem messages_reach_their_recipients_witness:
  "receives (last (publications (transport_send 0 ''b'' ''liveness_ping'' (JObj []) (plugged_in ''a''))))
     (plugged_in ''b'') = Some (JStr ''a'', JStr ''liveness_ping'', JObj [])"
  using messages_reach_their_recipients [of "plugged_in ''a''" "plugged_in ''b''" 0 "''b''" "''liveness_ping''" "JObj []"]
  by (simp add: plugged_in_def on_connect_def set_handler_def new_transport_def)

end
