(* ===== verification/Codec.thy ===== *)
theory Codec
  imports Transport MainLoop
begin

text \<open>
  The JSON form of every payload: the dicts the methods of \<open>rpi/coordinator/echo_node.py\<close> hand
  to the transport, and how its handlers read the dicts they are given. A reader collects all
  keys its handler may look up, so a missing key shows here even where the handler would
  return before it looks; and as in \<open>Wire\<close> a value of another JSON type than the senders use
  counts as the \<open>TypeError\<close> its use would raise.
\<close>

section \<open>Reading keys\<close>

text \<open>\<open>p[k]\<close>, \<open>p.get(k)\<close>, and a key that no handler reads.\<close>

definition need :: "(json \<Rightarrow> 'a result) \<Rightarrow> (string, json) dict \<Rightarrow> string \<Rightarrow> 'a result" where
  "need get d k = (case dget d k of None \<Rightarrow> Inl KeyError | Some v \<Rightarrow> get v)"

definition may :: "(json \<Rightarrow> 'a result) \<Rightarrow> (string, json) dict \<Rightarrow> string \<Rightarrow> 'a option result" where
  "may get d k = (case dget d k of None \<Rightarrow> Inr None | Some v \<Rightarrow> bind (get v) (\<lambda>x. Inr (Some x)))"

definition unread :: "(json \<Rightarrow> 'a result) \<Rightarrow> (string, json) dict \<Rightarrow> string \<Rightarrow> 'a \<Rightarrow> 'a" where
  "unread get d k dflt = (case dget d k of
     None \<Rightarrow> dflt | Some v \<Rightarrow> (case get v of Inl e \<Rightarrow> dflt | Inr x \<Rightarrow> x))"

fun all_results :: "'a result list \<Rightarrow> 'a list result" where
  "all_results [] = Inr []"
| "all_results (r # rs) = bind r (\<lambda>x. bind (all_results rs) (\<lambda>xs. Inr (x # xs)))"

lemma all_results_Inr [simp]: "(\<And>x. x \<in> set xs \<Longrightarrow> h x = Inr x) \<Longrightarrow> all_results (map h xs) = Inr xs"
  by (induction xs) simp_all

fun json_list :: "(json \<Rightarrow> 'a result) \<Rightarrow> json \<Rightarrow> 'a list result" where
  "json_list get (JList xs) = all_results (map get xs)"
| "json_list get _ = Inl TypeError"

definition json_truth :: "json \<Rightarrow> bool result" where
  "json_truth v = Inr (truthy v)"

text \<open>\<open>json.dumps\<close> keeps integers and floats apart; \<open>read_level\<close> returns an integer.\<close>

definition num_json :: "rat \<Rightarrow> json" where
  "num_json x = (if of_int \<lfloor>x\<rfloor> = x then JInt \<lfloor>x\<rfloor> else JFloat x)"

lemma json_num_num_json [simp]: "json_num (num_json x) = Inr x"
  by (simp add: num_json_def)

text \<open>A key that is present only when there is a value for it.\<close>

definition key_if :: "string \<Rightarrow> ('a \<Rightarrow> json) \<Rightarrow> 'a option \<Rightarrow> (string, json) dict" where
  "key_if k f v = (case v of None \<Rightarrow> [] | Some x \<Rightarrow> [(k, f x)])"


section \<open>What the node sends\<close>

definition request_vote_json :: "payload \<Rightarrow> json" where
  "request_vote_json p = JObj [(''term'', JInt (rv_term p)),
     (''candidate_id'', JStr (rv_candidate_id p)),
     (''last_log_index'', JInt (rv_last_log_index p)),
     (''last_log_term'', JInt (rv_last_log_term p)),
     (''battery_level'', JInt (rv_battery_level p))]"

definition vote_response_json :: "payload \<Rightarrow> json" where
  "vote_response_json p = JObj [(''term'', JInt (vr_term p)),
     (''vote_granted'', JBool (vr_vote_granted p)),
     (''voter_id'', JStr (vr_voter_id p)),
     (''voter_battery'', JInt (vr_voter_battery p))]"

definition append_entries_json :: "payload \<Rightarrow> json" where
  "append_entries_json p = JObj ([(''term'', JInt (ae_term p))] @
     key_if ''leader_id'' JStr (ae_leader_id p) @
     [(''prev_log_index'', JInt (ae_prev_log_index p)),
      (''prev_log_term'', JInt (ae_prev_log_term p))] @
     key_if ''entries'' (\<lambda>es. JList (map to_dict es)) (ae_entries p) @
     key_if ''leader_commit'' JInt (ae_leader_commit p) @
     [(''trigger_type'', JStr (ae_trigger_type p)),
      (''partition_epoch'', JInt (ae_partition_epoch p))])"

definition append_response_json :: "payload \<Rightarrow> json" where
  "append_response_json p = JObj ([(''term'', JInt (ar_term p)),
     (''success'', JBool (ar_success p)),
     (''responder_id'', JStr (ar_responder_id p)),
     (''match_index'', JInt (ar_match_index p))] @
     key_if ''responder_battery'' num_json (ar_responder_battery p))"

definition liveness_ping_json :: "payload \<Rightarrow> json" where
  "liveness_ping_json p = JObj ((''term'', JInt (lp_term p)) # key_if ''leader_id'' JStr (lp_leader_id p))"

definition leaf_register_response_json :: "payload \<Rightarrow> json" where
  "leaf_register_response_json p = JObj [(''accepted'', JBool (lrr_accepted p)),
     (''coordinator_id'', JStr (lrr_coordinator_id p)), (''term'', JInt (lrr_term p))]"

definition leadership_handoff_json :: "payload \<Rightarrow> json" where
  "leadership_handoff_json p = JObj ((''term'', JInt (lh_term p)) # key_if ''leader_id'' JStr (lh_leader_id p))"

definition reconcile_batch_json :: "payload \<Rightarrow> json" where
  "reconcile_batch_json p = JObj ([(''term'', JInt (rb_term p)),
     (''sender_node'', JStr (rb_sender_node p))] @ key_if ''commands'' JList (rb_commands p))"

text \<open>A forwarded sensor report is the dict that was received, the one of the leaf.\<close>

definition sensor_data_json :: "payload \<Rightarrow> json" where
  "sensor_data_json p = JObj ([(''leaf_id'', JStr (sd_leaf_id p)),
     (''sensor_type'', JStr (sd_sensor_type p)), (''value'', JFloat (sd_value p))] @
     key_if ''sent_at'' JFloat (sd_sent_at p))"

text \<open>The types a coordinator sends; the others come from leaves and commands.\<close>

fun payload_json :: "payload \<Rightarrow> json option" where
  "payload_json (RequestVote t c i lt b) = Some (request_vote_json (RequestVote t c i lt b))"
| "payload_json (VoteResponse t g v b) = Some (vote_response_json (VoteResponse t g v b))"
| "payload_json (AppendEntries t l i pt es c g ep) =
     Some (append_entries_json (AppendEntries t l i pt es c g ep))"
| "payload_json (AppendResponse t ok r m b) = Some (append_response_json (AppendResponse t ok r m b))"
| "payload_json (LivenessPing t l) = Some (liveness_ping_json (LivenessPing t l))"
| "payload_json (LeafRegisterResponse a c t) =
     Some (leaf_register_response_json (LeafRegisterResponse a c t))"
| "payload_json (SensorData l k v s) = Some (sensor_data_json (SensorData l k v s))"
| "payload_json (LeadershipHandoff t l) = Some (leadership_handoff_json (LeadershipHandoff t l))"
| "payload_json (ReconcileBatch t n cs) = Some (reconcile_batch_json (ReconcileBatch t n cs))"
| "payload_json _ = None"


section \<open>What the handlers read\<close>

definition read_request_vote :: "(string, json) dict \<Rightarrow> payload result" where
  "read_request_vote d =
     bind (need json_int d ''term'') (\<lambda>t.
     bind (need json_str d ''candidate_id'') (\<lambda>c.
     bind (need json_int d ''battery_level'') (\<lambda>b.
     bind (need json_int d ''last_log_index'') (\<lambda>i.
     bind (need json_int d ''last_log_term'') (\<lambda>lt.
     Inr (RequestVote t c i lt b))))))"

definition read_vote_response :: "(string, json) dict \<Rightarrow> payload result" where
  "read_vote_response d =
     bind (need json_int d ''term'') (\<lambda>t.
     bind (need json_truth d ''vote_granted'') (\<lambda>g.
     bind (need json_int d ''voter_battery'') (\<lambda>b.
     Inr (VoteResponse t g (unread json_str d ''voter_id'' []) b))))"

text \<open>\<open>now\<close> is what \<open>time.time\<close> would return for an entry without a timestamp.\<close>

definition read_append_entries :: "rat \<Rightarrow> (string, json) dict \<Rightarrow> payload result" where
  "read_append_entries now d =
     bind (need json_int d ''term'') (\<lambda>t.
     bind (may json_str d ''leader_id'') (\<lambda>l.
     bind (need json_int d ''prev_log_index'') (\<lambda>i.
     bind (need json_int d ''prev_log_term'') (\<lambda>pt.
     bind (may (json_list (from_dict now)) d ''entries'') (\<lambda>es.
     bind (may json_int d ''leader_commit'') (\<lambda>c.
     Inr (AppendEntries t l i pt es c (unread json_str d ''trigger_type'' [])
            (unread json_int d ''partition_epoch'' 0))))))))"

definition read_append_response :: "(string, json) dict \<Rightarrow> payload result" where
  "read_append_response d =
     bind (need json_int d ''term'') (\<lambda>t.
     bind (may json_num d ''responder_battery'') (\<lambda>b.
     bind (need json_truth d ''success'') (\<lambda>ok.
     bind (need json_int d ''match_index'') (\<lambda>m.
     Inr (AppendResponse t ok (unread json_str d ''responder_id'' []) m b)))))"

definition read_liveness_ping :: "(string, json) dict \<Rightarrow> payload result" where
  "read_liveness_ping d =
     bind (need json_int d ''term'') (\<lambda>t.
     bind (may json_str d ''leader_id'') (\<lambda>l. Inr (LivenessPing t l)))"

definition read_leaf_register :: "(string, json) dict \<Rightarrow> payload result" where
  "read_leaf_register d = bind (need json_str d ''leaf_id'') (\<lambda>l. Inr (LeafRegister l))"

definition read_sensor_data :: "(string, json) dict \<Rightarrow> payload result" where
  "read_sensor_data d =
     bind (need json_str d ''sensor_type'') (\<lambda>k.
     bind (need json_num d ''value'') (\<lambda>v.
     bind (need json_str d ''leaf_id'') (\<lambda>l.
     Inr (SensorData l k v (unread (\<lambda>x. bind (json_num x) (\<lambda>y. Inr (Some y))) d ''sent_at'' None)))))"

definition read_leadership_handoff :: "(string, json) dict \<Rightarrow> payload result" where
  "read_leadership_handoff d =
     bind (need json_int d ''term'') (\<lambda>t.
     bind (may json_str d ''leader_id'') (\<lambda>l. Inr (LeadershipHandoff t l)))"

definition read_reconcile_batch :: "(string, json) dict \<Rightarrow> payload result" where
  "read_reconcile_batch d =
     bind (may (json_list Inr) d ''commands'') (\<lambda>cs.
     Inr (ReconcileBatch (unread json_int d ''term'' 0) (unread json_str d ''sender_node'' []) cs))"

definition read_partition_control :: "(string, json) dict \<Rightarrow> payload result" where
  "read_partition_control d =
     bind (may json_str d ''action'') (\<lambda>a.
     bind (may (json_list (json_list json_str)) d ''groups'') (\<lambda>gs.
     bind (may (json_list json_str) d ''blocked_senders'') (\<lambda>bs.
     Inr (PartitionControl a gs bs))))"

definition read_demo_control :: "(string, json) dict \<Rightarrow> payload result" where
  "read_demo_control d =
     bind (may json_str d ''action'') (\<lambda>a.
     bind (may json_num d ''level'') (\<lambda>l.
     bind (may json_num d ''rate'') (\<lambda>r.
     bind (may json_truth d ''paused'') (\<lambda>b.
     Inr (DemoControl a l r b)))))"

text \<open>
  The table of \<open>_drain_inbox\<close> by message type. A type without a handler is not looked into;
  a payload that is no dict fails at the handler's first lookup.
\<close>

definition decode_payload :: "rat \<Rightarrow> string \<Rightarrow> json \<Rightarrow> payload result" where
  "decode_payload now kind j =
     (let readers = [(''request_vote'', read_request_vote), (''vote_response'', read_vote_response),
            (''append_entries'', read_append_entries now), (''append_response'', read_append_response),
            (''liveness_ping'', read_liveness_ping), (''leaf_register'', read_leaf_register),
            (''sensor_data'', read_sensor_data), (''leadership_handoff'', read_leadership_handoff),
            (''reconcile_batch'', read_reconcile_batch),
            (''partition_control'', read_partition_control), (''demo_control'', read_demo_control)]
      in case dget readers kind of
           None \<Rightarrow> Inr (OtherMessage kind)
         | Some reader \<Rightarrow> (case j of JObj d \<Rightarrow> reader d | _ \<Rightarrow> Inl TypeError))"


section \<open>Across the wire\<close>

text \<open>The answer to a registration has no handler in a coordinator: only its type is seen.\<close>

definition seen_as :: "payload \<Rightarrow> payload" where
  "seen_as p = (case p of LeafRegisterResponse a c t \<Rightarrow> OtherMessage (msg_type p) | _ \<Rightarrow> p)"

lemma receive_seen: "receive i (seen_as p) = receive i p"
  by (cases p) (simp_all add: seen_as_def receive_def handle_def count_received_def fun_eq_iff)

lemmas reader_defs = read_request_vote_def read_vote_response_def read_append_entries_def
  read_append_response_def read_liveness_ping_def read_leaf_register_def read_sensor_data_def
  read_leadership_handoff_def read_reconcile_batch_def read_partition_control_def
  read_demo_control_def need_def may_def unread_def

lemmas sender_defs = request_vote_json_def vote_response_json_def append_entries_json_def
  append_response_json_def liveness_ping_json_def leaf_register_response_json_def
  leadership_handoff_json_def reconcile_batch_json_def sensor_data_json_def key_if_def

lemma decode_payload_json:
  assumes "payload_json p = Some j"
  shows "decode_payload now (msg_type p) j = Inr (seen_as p)"
  using assms
  by (cases p)
    (auto simp: decode_payload_def seen_as_def reader_defs sender_defs json_truth_def
      from_dict_to_dict split: option.split)

text \<open>What \<open>_dispatch\<close> is called with, decoded; sender and type are strings in every envelope.\<close>

definition inbound :: "rat \<Rightarrow> (json \<times> json \<times> json) option \<Rightarrow> (string \<times> payload) result option" where
  "inbound now m = (case m of
     Some (JStr i, JStr k, j) \<Rightarrow> Some (bind (decode_payload now k j) (\<lambda>p. Inr (i, p)))
   | _ \<Rightarrow> None)"

text \<open>C32. Between connected nodes of one cluster a payload that a coordinator sends to a node reaches
  that node's dispatcher unchanged and under its sender's name, and no other node's; a
  broadcast reaches every node but its sender; no key that a handler looks up is missing.\<close>

theorem payloads_cross_the_wire:
  assumes "t_cluster_id a = t_cluster_id b" and "t_node_id a \<noteq> t_node_id b" and "handler_set b"
    and "subscriptions b = [rpc_topic (t_cluster_id b) (t_node_id b), broadcast_topic (t_cluster_id b)]"
    and "payload_json p = Some j"
  shows "inbound now (receives (last (publications (transport_send ts r (msg_type p) j a))) b) =
           (if r = t_node_id b then Some (Inr (t_node_id a, seen_as p)) else None) \<and>
         inbound now (receives (last (publications (transport_broadcast ts (msg_type p) j a))) b) =
           Some (Inr (t_node_id a, seen_as p)) \<and>
         transport_on_message (Some (fst (snd (last (publications (transport_broadcast ts (msg_type p) j a)))))) a = None \<and>
         receive i (seen_as p) = receive i p"
  using messages_reach_their_recipients [OF assms(1-4), where now = ts and k = "msg_type p" and p = j and r = r]
    decode_payload_json [OF assms(5), of now]
  by (simp add: inbound_def receive_seen)

theorem payloads_cross_the_wire_witness:
  "inbound 0 (receives (last (publications (transport_send 0 ''b'' ''append_response''
       (append_response_json (AppendResponse 3 True ''a'' 7 (Some 80))) (plugged_in ''a'')))) (plugged_in ''b'')) =
     Some (Inr (''a'', AppendResponse 3 True ''a'' 7 (Some 80)))"
  using payloads_cross_the_wire [of "plugged_in ''a''" "plugged_in ''b''" "AppendResponse 3 True ''a'' 7 (Some 80)"
      _ 0 0 "''b''" "''a''"]
  by (simp add: plugged_in_def on_connect_def set_handler_def new_transport_def seen_as_def)

end
