(* ===== verification/PartitionCtl.thy ===== *)
theory PartitionCtl
  imports Codec
begin

text \<open>
  \<open>rpi/partition_ctl.py\<close>: the command that splits or heals a cluster, and what its message
  does to every node that receives it.
\<close>

section \<open>The command\<close>

text \<open>
  \<open>action\<close> is one of the two choices of the parser, \<open>side\<close> the list of its options. The
  result is the payload of the \<open>partition_control\<close> broadcast, or \<open>None\<close> when the command
  exits with its error message.
\<close>

definition parse_sides :: "string list \<Rightarrow> string list list" where
  "parse_sides sides = filter (\<lambda>g. g \<noteq> []) (map comma_list sides)"

definition control_payload :: "string \<Rightarrow> string list \<Rightarrow> payload option" where
  "control_payload action sides =
     (if action = ''partition''
      then (let groups = parse_sides sides
            in if length groups < 2 then None
               else Some (PartitionControl (Some action) (Some groups) None))
      else Some (PartitionControl (Some action) None None))"

text \<open>The options of the command; the broker's address only goes to the client.\<close>

record ctl_args =
  ctl_action :: string
  ctl_sides :: "string list"
  ctl_broker :: string
  ctl_port :: int
  ctl_cluster :: string

text \<open>The parser refuses an action that is no choice; the other options have defaults.\<close>

definition parse_ctl_args ::
    "broker_settings \<Rightarrow> string \<Rightarrow> string list \<Rightarrow> string option \<Rightarrow> int option \<Rightarrow> string option \<Rightarrow> ctl_args option" where
  "parse_ctl_args conf action sides broker port cluster =
     (if action \<in> {''partition'', ''heal''}
      then Some \<lparr>ctl_action = action, ctl_sides = sides, ctl_broker = py_get broker (broker_host conf),
        ctl_port = py_get port (broker_port conf), ctl_cluster = py_get cluster (cluster_name conf)\<rparr>
      else None)"

definition partition_control_json :: "payload \<Rightarrow> json" where
  "partition_control_json p = JObj (key_if ''action'' JStr (pc_action p) @
     key_if ''groups'' (\<lambda>gs. JList (map (\<lambda>g. JList (map JStr g)) gs)) (pc_groups p))"

text \<open>\<open>main\<close>: the topic and the body it publishes, if it gets there.\<close>

definition partition_command :: "ctl_args \<Rightarrow> rat \<Rightarrow> (string \<times> json) option" where
  "partition_command a now =
     (case control_payload (ctl_action a) (ctl_sides a) of
        None \<Rightarrow> None
      | Some p \<Rightarrow> Some (broadcast_topic (ctl_cluster a), JObj
          [(''sender_id'', JStr ''partition-ctl''), (''recipient_id'', JStr ''*''),
           (''msg_type'', JStr ''partition_control''), (''payload'', partition_control_json p),
           (''timestamp'', JFloat now)]))"


section \<open>What a node blocks\<close>

lemma my_group_fold:
  "fold (\<lambda>g mine. if nid \<in> set g then Some (set g) else mine) gs acc =
     (if \<exists>g\<in>set gs. nid \<in> set g
      then Some (set (last (filter (\<lambda>g. nid \<in> set g) gs))) else acc)"
  by (induction gs arbitrary: acc) (auto simp: filter_empty_conv)

lemma blocked_fold:
  "fold (\<lambda>g b. if P g then b \<union> set g else b) gs acc = acc \<union> \<Union> (set ` {g \<in> set gs. P g})"
  by (induction gs arbitrary: acc) auto

text \<open>Two groups of a split are the same set of nodes or share none.\<close>

definition separate :: "string list list \<Rightarrow> bool" where
  "separate gs \<longleftrightarrow> (\<forall>g\<in>set gs. \<forall>h\<in>set gs. set g = set h \<or> set g \<inter> set h = {})"

lemma blocked_by_separate_groups:
  assumes "separate gs" and "g \<in> set gs" and "nid \<in> set g"
  shows "blocked_by_groups nid gs = \<Union> (set ` set gs) - set g"
proof -
  define h where "h = last (filter (\<lambda>g. nid \<in> set g) gs)"
  have "filter (\<lambda>g. nid \<in> set g) gs \<noteq> []"
    using assms(2,3) by (auto simp: filter_empty_conv)
  then have "h \<in> set gs" "nid \<in> set h"
    using last_in_set [of "filter (\<lambda>g. nid \<in> set g) gs"] by (simp_all add: h_def)
  then have "set h = set g"
    using assms unfolding separate_def by blast
  then have mine: "my_group nid gs = Some (set g)"
    using assms(2,3) by (auto simp: my_group_def my_group_fold h_def)
  have "set f \<inter> set g = {}" if "f \<in> set gs" "set f \<noteq> set g" for f
    using that assms(1,2) unfolding separate_def by blast
  then show ?thesis
    using assms(2,3) by (auto simp: blocked_by_groups_def mine blocked_fold)
qed

text \<open>C26. A split into separate sides cuts exactly the links between sides: a node of one side
  drops the messages of the nodes of every other side and queues all the rest, whatever it
  blocked before; and a heal makes it queue every message again.\<close>

theorem partition_command_splits_cluster:
  assumes "control_payload ''partition'' sides = Some p" and "control_payload ''heal'' [] = Some h"
    and "separate (parse_sides sides)" and "g \<in> set (parse_sides sides)" and "node_id s \<in> set g"
    and "inbox s = Some queued" and "msg_type m \<noteq> ''partition_control''"
  shows "inbox (dispatch i m (handle_partition_control ctl p s)) = Some (queued @
           (if \<exists>f\<in>set (parse_sides sides). i \<in> set f - set g then [] else [(i, m)])) \<and>
         inbox (dispatch i m (handle_partition_control ctl h s)) = Some (queued @ [(i, m)])"
proof -
  have "blocked_senders (handle_partition_control ctl p s) =
      \<Union> (set ` set (parse_sides sides)) - set g"
    using assms(1) blocked_by_separate_groups [OF assms(3-5)]
    by (auto simp: control_payload_def handle_partition_control_def Let_def enter_provisional_mode_def
        split: if_splits)
  moreover have "blocked_senders (handle_partition_control ctl h s) = {}"
    using assms(2)
    by (auto simp: control_payload_def handle_partition_control_def Let_def exit_provisional_mode_def)
  moreover have "inbox (handle_partition_control ctl q s) = Some queued" for q
    using assms(6) by (simp add: handle_partition_control_def Let_def enter_provisional_mode_def
        exit_provisional_mode_def)
  ultimately show ?thesis
    using assms(7) by (auto simp: dispatch_def)
qed

definition split_node :: coordinator where
  "split_node = (blank Echo ''a'' [''b'', ''c''] \<lparr>mock = True, level = 60, drain_rate = 0,
     drain_paused = False, last_read = 0, adc_present = False\<rparr> True second_hand)\<lparr>inbox := Some []\<rparr>"

lemma split_sides: "parse_sides [''a, b'', '' ,'', ''c''] = [[''a'', ''b''], [''c'']]"
  by code_simp

theorem partition_command_splits_cluster_witness:
  "inbox (dispatch ''c'' (LivenessPing 1 None) (handle_partition_control ''ctl''
      (PartitionControl (Some ''partition'') (Some [[''a'', ''b''], [''c'']]) None) split_node)) = Some [] \<and>
   inbox (dispatch ''b'' (LivenessPing 1 None) (handle_partition_control ''ctl''
      (PartitionControl (Some ''partition'') (Some [[''a'', ''b''], [''c'']]) None) split_node)) =
     Some [(''b'', LivenessPing 1 None)]"
proof -
  let ?p = "PartitionControl (Some ''partition'') (Some [[''a'', ''b''], [''c'']]) None"
  let ?h = "PartitionControl (Some ''heal'') None None"
  have p: "control_payload ''partition'' [''a, b'', '' ,'', ''c''] = Some ?p"
    and h: "control_payload ''heal'' [] = Some ?h"
    and sep: "separate (parse_sides [''a, b'', '' ,'', ''c''])"
    and g: "[''a'', ''b''] \<in> set (parse_sides [''a, b'', '' ,'', ''c''])"
    and me: "node_id split_node \<in> set [''a'', ''b'']" "inbox split_node = Some []"
    by (auto simp: control_payload_def separate_def split_sides split_node_def blank_def)
  show ?thesis
    using partition_command_splits_cluster [OF p h sep g me, of "LivenessPing 1 None" "''c''" "''ctl''"]
      partition_command_splits_cluster [OF p h sep g me, of "LivenessPing 1 None" "''b''" "''ctl''"]
    by (simp add: split_sides)
qed

end
