(* ===== verification/Dashboard.thy ===== *)
theory Dashboard
  imports Transport RpiConfig
begin

text \<open>
  \<open>rpi/dashboard/app.py\<close>: the monitor that keeps the last status of every node and the last
  broadcasts, and turns the demo buttons into control messages. Flask, Socket.IO and the
  MQTT client are libraries: a route is a function to a status code and a body, and what is
  published or emitted is recorded.
\<close>

section \<open>State\<close>

record dashboard =
  db_nodes :: "(string, json) dict"
  message_log :: "json list"
  client_set :: bool
  db_cluster_id :: string
  broker_endpoint :: "string \<times> int"
  db_subscriptions :: "string list"
  mqtt_connected :: bool
  mqtt_last_rx :: "rat option"
  emitted :: "(string \<times> json) list"
  db_published :: "(string \<times> json) list"

definition MAX_MESSAGE_LOG :: nat where "MAX_MESSAGE_LOG = 500"

definition DEMO_SENDER_ID :: string where "DEMO_SENDER_ID = ''echo-dashboard''"


section \<open>Callbacks\<close>

text \<open>The dashboard has its own copy of the conversion of reason codes.\<close>

fun db_reason_code_value :: "reason \<Rightarrow> int option" where
  "db_reason_code_value (RInt i) = Some i"
| "db_reason_code_value (RValue v) = v"
| "db_reason_code_value (RList []) = None"
| "db_reason_code_value (RList (r # rs)) = db_reason_code_value r"
| "db_reason_code_value ROther = None"

lemma db_reason_code_value_same: "db_reason_code_value r = reason_code_value r"
  by (induction r rule: db_reason_code_value.induct) simp_all

definition db_on_connect :: "connect_arg list \<Rightarrow> dashboard \<Rightarrow> dashboard" where
  "db_on_connect as d =
     (if db_reason_code_value (find_reason as) = Some 0
      then d\<lparr>mqtt_connected := True, db_subscriptions := db_subscriptions d @
             [''echo/'' @ db_cluster_id d @ ''/status/+'', broadcast_topic (db_cluster_id d)]\<rparr>
      else d\<lparr>mqtt_connected := False\<rparr>)"

definition db_on_disconnect :: "dashboard \<Rightarrow> dashboard" where
  "db_on_disconnect d = d\<lparr>mqtt_connected := False\<rparr>"

definition keep_last :: "json list \<Rightarrow> json list" where
  "keep_last xs =
     (if length xs > MAX_MESSAGE_LOG then drop (length xs - MAX_MESSAGE_LOG) xs else xs)"

definition contains :: "string \<Rightarrow> string \<Rightarrow> bool" where
  "contains pat s \<longleftrightarrow> list_ex (\<lambda>i. take (length pat) (drop i s) = pat) [0..<Suc (length s)]"

text \<open>
  \<open>body\<close> is the decoded JSON value. The time is stored before the body is decoded; a status
  that is no object, or whose \<open>node_id\<close> cannot be a key, raises and is dropped.
\<close>

definition db_on_message :: "rat \<Rightarrow> string \<Rightarrow> json option \<Rightarrow> dashboard \<Rightarrow> dashboard" where
  "db_on_message now topic body d =
     (let d = d\<lparr>mqtt_last_rx := Some now\<rparr>
      in case body of
           None \<Rightarrow> d
         | Some data \<Rightarrow>
             if contains ''/status/'' topic
             then (case data of
                     JObj obj \<Rightarrow>
                       (case dget_or obj ''node_id'' (JStr ''unknown'') of
                          JStr i \<Rightarrow> d\<lparr>db_nodes := dput i data (db_nodes d),
                                     emitted := emitted d @ [(''node_update'', data)]\<rparr>
                        | _ \<Rightarrow> d)
                   | _ \<Rightarrow> d)
             else if contains ''/broadcast'' topic
             then d\<lparr>message_log := keep_last (message_log d @ [data]),
                    emitted := emitted d @ [(''broadcast_msg'', data)]\<rparr>
             else d)"


section \<open>Routes\<close>

text \<open>\<open>_message_log[-100:]\<close>\<close>

definition api_nodes :: "dashboard \<Rightarrow> json" where
  "api_nodes d = JList (map snd (db_nodes d))"

definition api_messages :: "dashboard \<Rightarrow> json" where
  "api_messages d = JList (py_from (message_log d) (- 100))"

text \<open>\<open>client_ok\<close> is what the MQTT client's \<open>is_connected()\<close> returns.\<close>

definition api_dashboard_status ::
    "rat \<Rightarrow> bool \<Rightarrow> dashboard \<Rightarrow> bool \<times> rat option \<times> (string \<times> int)" where
  "api_dashboard_status now client_ok d =
     (client_set d \<and> client_ok \<and> mqtt_connected d, map_option (\<lambda>t. now - t) (mqtt_last_rx d),
      broker_endpoint d)"

definition publish_demo :: "rat \<Rightarrow> json \<Rightarrow> dashboard \<Rightarrow> dashboard" where
  "publish_demo now payload d =
     d\<lparr>db_published := db_published d @ [(broadcast_topic (db_cluster_id d), JObj
        [(''sender_id'', JStr DEMO_SENDER_ID), (''recipient_id'', JStr ''*''),
         (''msg_type'', JStr ''demo_control''), (''payload'', payload),
         (''timestamp'', JFloat now)])]\<rparr>"

datatype response = Ok | Refused nat string

text \<open>
  \<open>float(v)\<close>: a number or a truth value converts, a string by \<open>parse_float\<close>, which stands
  for Python's own parser, anything else is refused.
\<close>

fun to_float :: "(string \<Rightarrow> rat option) \<Rightarrow> json \<Rightarrow> rat option" where
  "to_float pf (JInt i) = Some (of_int i)"
| "to_float pf (JFloat x) = Some x"
| "to_float pf (JBool b) = Some (if b then 1 else 0)"
| "to_float pf (JStr s) = pf s"
| "to_float pf _ = None"

definition clamp_level :: "rat \<Rightarrow> rat" where
  "clamp_level x = max 0 (min 100 x)"

text \<open>\<open>obj\<close> is \<open>request.get_json(silent=True) or {}\<close>, a JSON object.\<close>

definition api_demo_battery ::
    "(string \<Rightarrow> rat option) \<Rightarrow> rat \<Rightarrow> (string, json) dict \<Rightarrow> dashboard \<Rightarrow> response \<times> dashboard" where
  "api_demo_battery pf now obj d =
     (if \<not> client_set d then (Refused 503 ''MQTT unavailable'', d)
      else (case to_float pf (dget_or obj ''level'' (JInt 100)) of
              None \<Rightarrow> (Refused 400 ''invalid level'', d)
            | Some x \<Rightarrow> (Ok, publish_demo now (JObj [(''action'', JStr ''set_battery''),
                              (''level'', JFloat (clamp_level x))]) d)))"

definition api_demo_drain_rate ::
    "(string \<Rightarrow> rat option) \<Rightarrow> rat \<Rightarrow> (string, json) dict \<Rightarrow> dashboard \<Rightarrow> response \<times> dashboard" where
  "api_demo_drain_rate pf now obj d =
     (if \<not> client_set d then (Refused 503 ''MQTT unavailable'', d)
      else (case to_float pf (dget_or obj ''rate'' (JFloat (1 / 2))) of
              None \<Rightarrow> (Refused 400 ''invalid rate'', d)
            | Some x \<Rightarrow>
                if x < 0 then (Refused 400 ''rate must be non-negative'', d)
                else (Ok, publish_demo now (JObj [(''action'', JStr ''set_drain_rate''),
                            (''rate'', JFloat x)]) d)))"

definition api_demo_drain_paused ::
    "rat \<Rightarrow> (string, json) dict \<Rightarrow> dashboard \<Rightarrow> response \<times> dashboard" where
  "api_demo_drain_paused now obj d =
     (if \<not> client_set d then (Refused 503 ''MQTT unavailable'', d)
      else (Ok, publish_demo now (JObj [(''action'', JStr ''set_drain_paused''),
               (''paused'', JBool (truthy (dget_or obj ''paused'' (JBool False))))]) d))"

definition publish_demo_leaves :: "bool \<Rightarrow> dashboard \<Rightarrow> dashboard" where
  "publish_demo_leaves pause d = d\<lparr>db_published := db_published d @
     [(''echo/'' @ db_cluster_id d @ ''/demo/leaves'', JObj [(''paused'', JBool pause)])]\<rparr>"

definition api_demo_leaves_pause :: "dashboard \<Rightarrow> response \<times> dashboard" where
  "api_demo_leaves_pause d =
     (if \<not> client_set d then (Refused 503 ''MQTT unavailable'', d)
      else (Ok, publish_demo_leaves True d))"

definition api_demo_leaves_resume :: "dashboard \<Rightarrow> response \<times> dashboard" where
  "api_demo_leaves_resume d =
     (if \<not> client_set d then (Refused 503 ''MQTT unavailable'', d)
      else (Ok, publish_demo_leaves False d))"


section \<open>Start\<close>

text \<open>The options of the dashboard; their texts are split and the numbers read by \<open>argparse\<close>.\<close>

record db_args =
  da_broker :: string
  da_port :: int
  da_cluster :: string
  da_host :: string
  da_dash_port :: int

text \<open>Each option or, without it, the value of the configuration.\<close>

definition parse_db_args ::
    "broker_settings \<Rightarrow> web_settings \<Rightarrow> (string, string) dict \<Rightarrow> (string, int) dict \<Rightarrow> db_args" where
  "parse_db_args conf web opts ports =
     \<lparr>da_broker = dget_or opts ''broker'' (broker_host conf),
      da_port = dget_or ports ''port'' (broker_port conf),
      da_cluster = dget_or opts ''cluster'' (cluster_name conf),
      da_host = dget_or opts ''host'' (web_host web),
      da_dash_port = dget_or ports ''dash-port'' (web_port web)\<rparr>"

text \<open>\<open>main\<close> up to the web server: the client exists, the subscriptions follow on connecting.\<close>

definition db_start :: "db_args \<Rightarrow> dashboard" where
  "db_start a = \<lparr>db_nodes = [], message_log = [], client_set = True, db_cluster_id = da_cluster a,
     broker_endpoint = (da_broker a, da_port a), db_subscriptions = [], mqtt_connected = False,
     mqtt_last_rx = None, emitted = [], db_published = []\<rparr>"


section \<open>The broadcast log is bounded\<close>

text \<open>The broadcasts among a sequence of received messages: decoded, on a topic that is no status.\<close>

definition broadcasts :: "(rat \<times> string \<times> json option) list \<Rightarrow> json list" where
  "broadcasts ms = List.map_filter (\<lambda>(now, topic, body).
     if contains ''/broadcast'' topic \<and> \<not> contains ''/status/'' topic then body else None) ms"

definition db_run :: "(rat \<times> string \<times> json option) list \<Rightarrow> dashboard \<Rightarrow> dashboard" where
  "db_run ms d = fold (\<lambda>(now, topic, body). db_on_message now topic body) ms d"

lemma keep_last_drop: "keep_last xs = drop (length xs - MAX_MESSAGE_LOG) xs"
  by (simp add: keep_last_def)

lemma keep_last_snoc: "keep_last (keep_last xs @ [x]) = keep_last (xs @ [x])"
proof (cases "length xs \<le> 500")
  case False
  then have "Suc (length xs - 500) = length xs - 499" by arith
  then show ?thesis using False by (simp add: keep_last_drop MAX_MESSAGE_LOG_def)
qed (simp add: keep_last_drop MAX_MESSAGE_LOG_def)

lemma keep_last_append: "keep_last (keep_last xs @ ys) = keep_last (xs @ ys)"
proof (induction ys rule: rev_induct)
  case Nil
  then show ?case by (simp add: keep_last_def)
next
  case (snoc y ys)
  have "keep_last (keep_last xs @ ys @ [y]) = keep_last (keep_last (keep_last xs @ ys) @ [y])"
    by (simp add: keep_last_snoc)
  also have "\<dots> = keep_last (xs @ ys @ [y])"
    by (simp add: snoc keep_last_snoc)
  finally show ?case .
qed

lemma message_log_step:
  "message_log (db_on_message now topic body d) =
     (if contains ''/broadcast'' topic \<and> \<not> contains ''/status/'' topic \<and> body \<noteq> None
      then keep_last (message_log d @ [the body]) else message_log d)"
  by (auto simp: db_on_message_def Let_def split: option.splits json.splits)

lemma message_log_run:
  "keep_last (message_log d) = message_log d \<Longrightarrow>
   message_log (db_run ms d) = keep_last (message_log d @ broadcasts ms)"
proof (induction ms arbitrary: d)
  case Nil
  then show ?case by (simp add: db_run_def broadcasts_def map_filter_def)
next
  case (Cons m ms)
  obtain now topic body where m: "m = (now, topic, body)" by (cases m)
  let ?d = "db_on_message now topic body d"
  have "keep_last (message_log ?d) = message_log ?d"
    using Cons.prems keep_last_append [of _ "[]"] by (simp add: message_log_step)
  from Cons.IH [OF this]
  have "message_log (db_run (m # ms) d) = keep_last (message_log ?d @ broadcasts ms)"
    by (simp add: db_run_def m)
  then show ?case
    by (auto simp: message_log_step broadcasts_def map_filter_def m keep_last_append)
qed

text \<open>Whatever messages a dashboard with an empty log receives, its log holds the last 500
  broadcasts in order, and the page of messages shows the last 100 of them.\<close>

theorem dashboard_keeps_last_broadcasts:
  assumes "message_log d = []"
  shows "message_log (db_run ms d) = drop (length (broadcasts ms) - 500) (broadcasts ms) \<and>
    api_messages (db_run ms d) = JList (drop (length (broadcasts ms) - 100) (broadcasts ms))"
proof -
  have log: "message_log (db_run ms d) = drop (length (broadcasts ms) - 500) (broadcasts ms)"
    using message_log_run [of d ms] assms by (auto simp: keep_last_def MAX_MESSAGE_LOG_def)
  have "py_bound xs (- 100) = length xs - 100" for xs :: "json list"
    by (auto simp: py_bound_def)
  moreover have "n - (n - 500 + 100) + (n - 500) = n - 100" for n :: nat
    by arith
  ultimately show ?thesis
    by (simp add: log api_messages_def py_from_def)
qed

definition new_dashboard :: dashboard where
  "new_dashboard = db_start \<lparr>da_broker = ''localhost'', da_port = 1883, da_cluster = ''c'',
     da_host = ''0.0.0.0'', da_dash_port = 5000\<rparr>"

theorem dashboard_keeps_last_broadcasts_witness:
  "message_log (db_run [(0, ''echo/c/broadcast'', Some (JInt 1)), (1, ''echo/c/rpc/a'', Some (JInt 2)),
     (2, ''echo/c/broadcast'', None)] new_dashboard) = [JInt 1]"
proof -
  let ?ms = "[(0, ''echo/c/broadcast'', Some (JInt 1)), (1, ''echo/c/rpc/a'', Some (JInt 2)),
     (2, ''echo/c/broadcast'', None)]"
  have "broadcasts ?ms = [JInt 1]"
    by code_simp
  then show ?thesis
    using dashboard_keeps_last_broadcasts [of new_dashboard ?ms] by (simp add: new_dashboard_def db_start_def)
qed

end
