(* ===== verification/MockLeaf.thy ===== *)
theory MockLeaf
  imports Json PyStrings RpiConfig
begin

text \<open>
  \<open>rpi/mock_leaf.py\<close>: leaf nodes that register with a coordinator and publish readings over
  MQTT, for demos and for the experiment harness. Publications go to one list, the client's,
  as topic and JSON body.
\<close>

section \<open>One leaf\<close>

text \<open>\<open>rng\<close> is the leaf's own generator, seeded per leaf; the module generator is the world
  that the operations take.\<close>

record mock_leaf =
  leaf_id :: string
  leaf_cluster :: string
  leaf_coordinators :: "string list"
  leaf_sensor_type :: string
  edge_filter :: bool
  rng :: world
  leaf_value :: rat
  leaf_last_transmitted :: "rat option"
  leaf_coordinator :: "string option"
  registered :: bool
  sent_count :: nat
  leaf_suppressed :: nat
  recv_by_type :: "(json, nat) dict"
  published_by_leaf :: "(string \<times> json) list"

definition new_mock_leaf ::
    "string \<Rightarrow> string \<Rightarrow> string list \<Rightarrow> bool \<Rightarrow> bool \<Rightarrow> world \<Rightarrow> world \<Rightarrow> mock_leaf \<times> world" where
  "new_mock_leaf i cluster coords filt bursts seeded w =
     (let (d, seeded, w) = (if bursts then let (d, seeded) = uniform (- 2) 2 seeded in (d, seeded, w)
                            else let (d, w) = uniform (- 2) 2 w in (d, seeded, w))
      in (\<lparr>leaf_id = i, leaf_cluster = cluster, leaf_coordinators = coords,
           leaf_sensor_type = ''temperature'', edge_filter = filt, rng = seeded,
           leaf_value = 20 + d, leaf_last_transmitted = None, leaf_coordinator = None,
           registered = False, sent_count = 0, leaf_suppressed = 0, recv_by_type = [],
           published_by_leaf = []\<rparr>, w))"

definition leaf_topic :: "mock_leaf \<Rightarrow> string \<Rightarrow> string" where
  "leaf_topic l target = ''echo/'' @ leaf_cluster l @ ''/rpc/'' @ target"

definition leaf_envelope :: "mock_leaf \<Rightarrow> string \<Rightarrow> string \<Rightarrow> json \<Rightarrow> rat \<Rightarrow> json" where
  "leaf_envelope l target kind payload t = JObj
     [(''sender_id'', JStr (leaf_id l)), (''recipient_id'', JStr target),
      (''msg_type'', JStr kind), (''payload'', payload), (''timestamp'', JFloat t)]"

text \<open>\<open>random.choice\<close> raises on an empty list of coordinators.\<close>

definition register :: "mock_leaf \<Rightarrow> world \<Rightarrow> (mock_leaf \<times> world) result" where
  "register l w =
     (if leaf_coordinators l = [] then Inl IndexError
      else (let (target, w) = choice (leaf_coordinators l) w;
                (t, w) = wall_time w;
                body = leaf_envelope l target ''leaf_register'' (JObj
                  [(''leaf_id'', JStr (leaf_id l)),
                   (''capabilities'', JObj [(''sensor'', JStr (leaf_sensor_type l))])]) t
            in Inr (l\<lparr>published_by_leaf := published_by_leaf l @ [(leaf_topic l target, body)],
                     leaf_coordinator := Some target, registered := True\<rparr>, w)))"

definition next_burst_value :: "mock_leaf \<Rightarrow> rat \<times> mock_leaf" where
  "next_burst_value l =
     (let (r, g) = py_random (rng l);
          (step, g) = (if r < 3 / 10
                       then (let (sgn, g) = choice [- 1, 1] g; (m, g) = uniform 2 5 g
                             in (sgn * m, g))
                       else uniform (- 4 / 10) (4 / 10) g);
          l = l\<lparr>rng := g, leaf_value := leaf_value l + step\<rparr>
      in (leaf_value l, l))"

text \<open>The relative change against the last transmitted value, below the threshold.\<close>

definition near :: "rat \<Rightarrow> rat \<Rightarrow> bool" where
  "near prev v \<longleftrightarrow> \<bar>v - prev\<bar> / max \<bar>prev\<bar> (1 / 1000000000) < DELTA_THRESHOLD"

definition leaf_filtered :: "mock_leaf \<Rightarrow> bool" where
  "leaf_filtered l \<longleftrightarrow> edge_filter l \<and>
     (case leaf_last_transmitted l of None \<Rightarrow> False | Some prev \<Rightarrow> near prev (leaf_value l))"

definition transmit :: "string \<Rightarrow> mock_leaf \<Rightarrow> world \<Rightarrow> mock_leaf \<times> world" where
  "transmit target l w =
     (let l = l\<lparr>leaf_last_transmitted := Some (leaf_value l)\<rparr>;
          (sent_at, w) = wall_time w;
          (t, w) = wall_time w;
          body = leaf_envelope l target ''sensor_data'' (JObj
            [(''leaf_id'', JStr (leaf_id l)), (''sensor_type'', JStr (leaf_sensor_type l)),
             (''value'', JFloat (py_round (leaf_value l) 2)), (''sent_at'', JFloat sent_at)]) t
      in (l\<lparr>published_by_leaf := published_by_leaf l @ [(leaf_topic l target, body)],
           sent_count := sent_count l + 1\<rparr>, w))"

definition send_leaf_reading :: "rat option \<Rightarrow> mock_leaf \<Rightarrow> world \<Rightarrow> mock_leaf \<times> world" where
  "send_leaf_reading v l w =
     (case leaf_coordinator l of
        None \<Rightarrow> (l, w)
      | Some target \<Rightarrow>
          if \<not> registered l then (l, w)
          else (let (l, w) = (case v of
                      None \<Rightarrow> (let (d, w) = uniform (- 1 / 2) (1 / 2) w
                               in (l\<lparr>leaf_value := leaf_value l + d\<rparr>, w))
                    | Some x \<Rightarrow> (l\<lparr>leaf_value := x\<rparr>, w))
                in if leaf_filtered l then (l\<lparr>leaf_suppressed := leaf_suppressed l + 1\<rparr>, w)
                   else transmit target l w))"

definition note_inbound :: "json \<Rightarrow> mock_leaf \<Rightarrow> mock_leaf" where
  "note_inbound kind l = l\<lparr>recv_by_type := bump kind (recv_by_type l)\<rparr>"

text \<open>The keys of a JSON object are strings, so the counters are listed by their key's text.\<close>

definition stats_payload :: "mock_leaf \<Rightarrow> world \<Rightarrow> (string \<times> nat \<times> nat \<times> (json, nat) dict \<times> rat) \<times> world" where
  "stats_payload l w =
     (let (t, w) = wall_time w
      in ((leaf_id l, sent_count l, leaf_suppressed l, recv_by_type l, t), w))"


section \<open>The process\<close>

text \<open>\<open>main\<close>: its leaves, the pause switch, and the local variables of its loops.\<close>

record fleet =
  fl_leaves :: "mock_leaf list"
  fl_cluster :: string
  paused :: bool
  started :: rat
  next_burst :: rat
  last_stats :: rat
  stats_out :: "(string \<times> nat \<times> nat \<times> (json, nat) dict \<times> rat) list"
  fl_world :: world

text \<open>Which JSON values can be keys of a dict.\<close>

fun hashable :: "json \<Rightarrow> bool" where
  "hashable (JList xs) = False"
| "hashable (JObj d) = False"
| "hashable _ = True"

definition demo_topic :: "fleet \<Rightarrow> string" where
  "demo_topic f = ''echo/'' @ fl_cluster f @ ''/demo/leaves''"

text \<open>A body that raises anywhere is dropped by the surrounding \<open>try\<close>.\<close>

definition fleet_on_message :: "string \<Rightarrow> json option \<Rightarrow> fleet \<Rightarrow> fleet" where
  "fleet_on_message topic body f =
     (case body of
        Some (JObj data) \<Rightarrow>
          if topic = demo_topic f
          then (case dget data ''paused'' of None \<Rightarrow> f | Some v \<Rightarrow> f\<lparr>paused := truthy v\<rparr>)
          else (let kind = dget_or data ''msg_type'' (JStr []);
                    recipient = dget_or data ''recipient_id'' (JStr [])
                in if \<not> hashable kind then f
                   else if recipient = JStr ''*''
                   then f\<lparr>fl_leaves := map (note_inbound kind) (fl_leaves f)\<rparr>
                   else f\<lparr>fl_leaves := map (\<lambda>l. if recipient = JStr (leaf_id l)
                          then note_inbound kind l else l) (fl_leaves f)\<rparr>)
      | _ \<Rightarrow> f)"

text \<open>One pass of every leaf through \<open>send_reading\<close>, in order; \<open>bursts\<close> draws the values.\<close>

fun read_all :: "bool \<Rightarrow> mock_leaf list \<Rightarrow> world \<Rightarrow> mock_leaf list \<times> world" where
  "read_all bursts [] w = ([], w)"
| "read_all bursts (l # ls) w =
     (let (v, l) = (if bursts then (let (v, l) = next_burst_value l in (Some v, l)) else (None, l));
          (l, w) = send_leaf_reading v l w;
          (ls, w) = read_all bursts ls w
      in (l # ls, w))"

fun all_stats :: "mock_leaf list \<Rightarrow> world \<Rightarrow> (string \<times> nat \<times> nat \<times> (json, nat) dict \<times> rat) list \<times> world" where
  "all_stats [] w = ([], w)"
| "all_stats (l # ls) w =
     (let (s, w) = stats_payload l w; (ss, w) = all_stats ls w in (s # ss, w))"

definition publish_stats :: "fleet \<Rightarrow> fleet" where
  "publish_stats f =
     (let (ss, w) = all_stats (fl_leaves f) (fl_world f)
      in f\<lparr>stats_out := stats_out f @ ss, fl_world := w\<rparr>)"

definition stats_if_due :: "bool \<Rightarrow> rat \<Rightarrow> fleet \<Rightarrow> fleet" where
  "stats_if_due stats now f =
     (if stats \<and> now - last_stats f \<ge> 2 then publish_stats (f\<lparr>last_stats := now\<rparr>) else f)"

definition expired :: "rat \<Rightarrow> rat \<Rightarrow> fleet \<Rightarrow> bool" where
  "expired duration now f \<longleftrightarrow> duration \<noteq> 0 \<and> now - started f \<ge> duration"

text \<open>A turn of the two loops; the first component says that the loop ends.\<close>

definition bursts_round :: "rat \<Rightarrow> rat \<Rightarrow> bool \<Rightarrow> fleet \<Rightarrow> bool \<times> fleet" where
  "bursts_round duration interval stats f =
     (let (t, w) = monotonic (fl_world f); f = f\<lparr>fl_world := w\<rparr>
      in if expired duration t f then (True, f)
         else (let f = (if t \<ge> next_burst f
                   then (let f = (if paused f then f
                                  else let (ls, w) = read_all True (fl_leaves f) (fl_world f)
                                       in f\<lparr>fl_leaves := ls, fl_world := w\<rparr>)
                         in f\<lparr>next_burst := next_burst f + interval\<rparr>)
                   else f)
               in (False, stats_if_due stats t f)))"

definition stream_round :: "rat \<Rightarrow> bool \<Rightarrow> fleet \<Rightarrow> bool \<times> fleet" where
  "stream_round duration stats f =
     (let (t, w) = monotonic (fl_world f); f = f\<lparr>fl_world := w\<rparr>
      in if expired duration t f then (True, f)
         else (let f = (if paused f then f
                        else let (ls, w) = read_all False (fl_leaves f) (fl_world f)
                             in f\<lparr>fl_leaves := ls, fl_world := w\<rparr>)
               in (False, stats_if_due stats t f)))"



section \<open>The edge filter\<close>

text \<open>The readings a filtering leaf is to send: each that is not near the last one sent.\<close>

fun thin :: "rat option \<Rightarrow> rat list \<Rightarrow> rat list" where
  "thin prev [] = []"
| "thin prev (v # vs) =
     (if (case prev of None \<Rightarrow> False | Some x \<Rightarrow> near x v) then thin prev vs
      else v # thin (Some v) vs)"

text \<open>\<open>send_reading\<close> called with one value after the other.\<close>

fun send_values :: "rat list \<Rightarrow> mock_leaf \<times> world \<Rightarrow> mock_leaf \<times> world" where
  "send_values [] x = x"
| "send_values (v # vs) x = send_values vs (send_leaf_reading (Some v) (fst x) (snd x))"

text \<open>The values in the bodies of the sensor messages a leaf has published.\<close>

definition value_of_body :: "json \<Rightarrow> rat option" where
  "value_of_body b = (case b of
     JObj d \<Rightarrow> (case dget d ''payload'' of
        Some (JObj p) \<Rightarrow> (case dget p ''value'' of Some (JFloat x) \<Rightarrow> Some x | _ \<Rightarrow> None)
      | _ \<Rightarrow> None)
   | _ \<Rightarrow> None)"

definition published_values :: "mock_leaf \<Rightarrow> rat list" where
  "published_values l = List.map_filter (\<lambda>(t, b). value_of_body b) (published_by_leaf l)"

lemma send_one:
  assumes "registered l" and "leaf_coordinator l = Some t" and "edge_filter l"
    and "send_leaf_reading (Some v) l w = (l', w')"
  defines "skip \<equiv> (case leaf_last_transmitted l of None \<Rightarrow> False | Some x \<Rightarrow> near x v)"
  shows "registered l'" and "leaf_coordinator l' = Some t" and "edge_filter l'"
    and "leaf_last_transmitted l' = (if skip then leaf_last_transmitted l else Some v)"
    and "sent_count l' = sent_count l + (if skip then 0 else 1)"
    and "leaf_suppressed l' = leaf_suppressed l + (if skip then 1 else 0)"
    and "published_values l' = published_values l @ (if skip then [] else [py_round v 2])"
  using assms(1-4) unfolding skip_def
  by (auto simp: send_leaf_reading_def leaf_filtered_def transmit_def wall_time_def Let_def
      published_values_def map_filter_def value_of_body_def leaf_envelope_def
      split: if_splits option.splits)

lemma send_values_thin:
  assumes "registered l" and "leaf_coordinator l = Some t" and "edge_filter l"
    and "send_values vs (l, w) = (l', w')"
  shows "published_values l' = published_values l @ map (\<lambda>v. py_round v 2) (thin (leaf_last_transmitted l) vs)
    \<and> sent_count l' = sent_count l + length (thin (leaf_last_transmitted l) vs)
    \<and> sent_count l' + leaf_suppressed l' = sent_count l + leaf_suppressed l + length vs"
  using assms
proof (induction vs arbitrary: l w)
  case Nil
  then show ?case by simp
next
  case (Cons v vs)
  obtain l1 w1 where one: "send_leaf_reading (Some v) l w = (l1, w1)" by fastforce
  note step = send_one [OF Cons.prems(1-3) one]
  have "send_values vs (l1, w1) = (l', w')"
    using Cons.prems(4) by (simp add: one)
  note Cons.IH [OF step(1-3) this]
  then show ?case
    by (cases "case leaf_last_transmitted l of None \<Rightarrow> False | Some x \<Rightarrow> near x v")
      (simp_all add: step)
qed

lemma thin_spaced:
  "successively (\<lambda>x y. \<not> near x y) (thin prev vs) \<and>
   (case prev of None \<Rightarrow> True | Some x \<Rightarrow> successively (\<lambda>x y. \<not> near x y) (x # thin prev vs))"
  by (induction prev vs rule: thin.induct) (auto split: option.splits)

text \<open>C30. A registered leaf with the edge filter publishes, of any readings it is given, exactly the
  subsequence in which each differs from the one before by at least the delta threshold,
  rounded to two decimals; neighbours in it are never near each other, and every reading is
  counted once, as sent or as suppressed.\<close>

theorem edge_filter_thins_readings:
  assumes "registered l" and "leaf_coordinator l = Some t" and "edge_filter l"
    and "send_values vs (l, w) = (l', w')"
  shows "published_values l' =
      published_values l @ map (\<lambda>v. py_round v 2) (thin (leaf_last_transmitted l) vs) \<and>
    successively (\<lambda>x y. \<not> near x y) (thin (leaf_last_transmitted l) vs) \<and>
    sent_count l' + leaf_suppressed l' = sent_count l + leaf_suppressed l + length vs"
  using send_values_thin [OF assms] thin_spaced by blast

definition still :: world where
  "still = \<lparr>mono_tape = (\<lambda>_. 0), mono_pos = 0, wall_tape = (\<lambda>_. 0), wall_pos = 0,
     rand_tape = (\<lambda>_. 1 / 2), rand_pos = 0, adc_tape = (\<lambda>_. 0), adc_pos = 0\<rparr>"

definition sample_leaf :: mock_leaf where
  "sample_leaf = (fst (new_mock_leaf ''leaf-0'' ''c'' [''a''] True True still still))
     \<lparr>leaf_coordinator := Some ''a'', registered := True\<rparr>"

theorem edge_filter_thins_readings_witness:
  "published_values (fst (send_values [20, 41 / 2, 22] (sample_leaf, still))) = [20, 22] \<and>
   leaf_suppressed (fst (send_values [20, 41 / 2, 22] (sample_leaf, still))) = 1"
proof -
  obtain l' w' where run: "send_values [20, 41 / 2, 22] (sample_leaf, still) = (l', w')"
    by fastforce
  have s: "registered sample_leaf" "leaf_coordinator sample_leaf = Some ''a''"
    "edge_filter sample_leaf" "leaf_last_transmitted sample_leaf = None"
    "published_values sample_leaf = []" "sent_count sample_leaf = 0" "leaf_suppressed sample_leaf = 0"
    by (simp_all add: sample_leaf_def new_mock_leaf_def published_values_def map_filter_def
        uniform_def py_random_def Let_def)
  have "thin None [20, 41 / 2, 22] = [20, 22]"
    by (simp add: near_def DELTA_THRESHOLD_def)
  then show ?thesis
    using edge_filter_thins_readings [OF s(1-3) run] send_values_thin [OF s(1-3) run]
    by (simp add: s run py_round_def del: send_values.simps thin.simps)
qed

end
