(* ===== verification/Producers.thy ===== *)
theory Producers
  imports PartitionCtl Dashboard MockLeaf
begin

text \<open>
  The other programs that talk to a coordinator: mock leaves, the dashboard and the partition
  command each build their messages by hand. What they build is what the coordinator's
  handlers read.
\<close>

section \<open>What a coordinator makes of a body\<close>

text \<open>\<open>taken t now body\<close> is the sender and the payload that reach the dispatcher.\<close>

definition taken :: "transport \<Rightarrow> rat \<Rightarrow> json \<Rightarrow> (string \<times> payload) result option" where
  "taken t now body = inbound now (transport_on_message (Some body) t)"

lemma taken_envelope:
  assumes "handler_set t" and "i \<noteq> t_node_id t"
  shows "taken t now (JObj [(''sender_id'', JStr i), (''recipient_id'', r), (''msg_type'', JStr k),
      (''payload'', p), (''timestamp'', ts)]) = Some (bind (decode_payload now k p) (\<lambda>x. Inr (i, x)))"
  using assms by (simp add: taken_def transport_on_message_def dget_or_def inbound_def)

lemma all_results_groups:
  "all_results (map (json_list json_str \<circ> (\<lambda>g. JList (map JStr g))) gs) = Inr gs"
  by (intro all_results_Inr) (simp add: comp_def)

lemma decode_controls:
  "decode_payload now ''partition_control'' (partition_control_json (PartitionControl a gs None)) =
     Inr (PartitionControl a gs None)"
  "decode_payload now ''demo_control'' (JObj [(''action'', JStr k), (''level'', JFloat x)]) =
     Inr (DemoControl (Some k) (Some x) None None)"
  "decode_payload now ''demo_control'' (JObj [(''action'', JStr k), (''rate'', JFloat x)]) =
     Inr (DemoControl (Some k) None (Some x) None)"
  "decode_payload now ''demo_control'' (JObj [(''action'', JStr k), (''paused'', JBool b)]) =
     Inr (DemoControl (Some k) None None (Some b))"
  by (auto simp: decode_payload_def partition_control_json_def reader_defs key_if_def json_truth_def
      all_results_groups split: option.split)

lemma decode_leaf_messages:
  "decode_payload now ''leaf_register'' (JObj [(''leaf_id'', JStr l), (''capabilities'', c)]) =
     Inr (LeafRegister l)"
  "decode_payload now ''sensor_data'' (JObj [(''leaf_id'', JStr l), (''sensor_type'', JStr k),
     (''value'', JFloat v), (''sent_at'', JFloat s)]) = Inr (SensorData l k v (Some s))"
  by (simp_all add: decode_payload_def reader_defs)


section \<open>All of it is understood\<close>

text \<open>C34. Every message of the other programs reaches a coordinator's dispatcher with its sender and
  with all keys its handler looks up: a leaf's registration and readings, the dashboard's
  battery commands, and the partition command.\<close>

theorem producers_are_understood:
  assumes "handler_set t" and "t_node_id t \<notin> {leaf_id l, DEMO_SENDER_ID, ''partition-ctl''}"
  shows "(case register l w of
        Inl e \<Rightarrow> leaf_coordinators l = []
      | Inr (l', w') \<Rightarrow> taken t now (snd (last (published_by_leaf l'))) =
          Some (Inr (leaf_id l, LeafRegister (leaf_id l)))) \<and>
    (\<exists>s. taken t now (snd (last (published_by_leaf (fst (transmit target l w))))) =
       Some (Inr (leaf_id l, SensorData (leaf_id l) (leaf_sensor_type l) (py_round (leaf_value l) 2) (Some s)))) \<and>
    (case api_demo_battery pf ts obj d of
        (Ok, d') \<Rightarrow> \<exists>x\<ge>0. x \<le> 100 \<and> taken t now (snd (last (db_published d'))) =
          Some (Inr (DEMO_SENDER_ID, DemoControl (Some ''set_battery'') (Some x) None None))
      | (Refused n e, d') \<Rightarrow> d' = d) \<and>
    (case api_demo_drain_rate pf ts obj d of
        (Ok, d') \<Rightarrow> \<exists>x\<ge>0. taken t now (snd (last (db_published d'))) =
          Some (Inr (DEMO_SENDER_ID, DemoControl (Some ''set_drain_rate'') None (Some x) None))
      | (Refused n e, d') \<Rightarrow> d' = d) \<and>
    (case api_demo_drain_paused ts obj d of
        (Ok, d') \<Rightarrow> \<exists>b. taken t now (snd (last (db_published d'))) =
          Some (Inr (DEMO_SENDER_ID, DemoControl (Some ''set_drain_paused'') None None (Some b)))
      | (Refused n e, d') \<Rightarrow> d' = d) \<and>
    (case partition_command a ts of
        None \<Rightarrow> control_payload (ctl_action a) (ctl_sides a) = None
      | Some (topic, body) \<Rightarrow> taken t now body =
          Some (Inr (''partition-ctl'', the (control_payload (ctl_action a) (ctl_sides a)))))"
proof (intro conjI)
  have ids: "leaf_id l \<noteq> t_node_id t" "DEMO_SENDER_ID \<noteq> t_node_id t" "''partition-ctl'' \<noteq> t_node_id t"
    using assms(2) by auto
  note env = taken_envelope [OF assms(1)]
  show "case register l w of Inl e \<Rightarrow> leaf_coordinators l = []
      | Inr (l', w') \<Rightarrow> taken t now (snd (last (published_by_leaf l'))) =
          Some (Inr (leaf_id l, LeafRegister (leaf_id l)))"
    by (simp add: register_def Let_def split_beta leaf_envelope_def env [OF ids(1)] decode_leaf_messages)
  show "\<exists>s. taken t now (snd (last (published_by_leaf (fst (transmit target l w))))) =
       Some (Inr (leaf_id l, SensorData (leaf_id l) (leaf_sensor_type l) (py_round (leaf_value l) 2) (Some s)))"
    by (simp add: transmit_def Let_def split_beta leaf_envelope_def env [OF ids(1)] decode_leaf_messages)
  show "case api_demo_battery pf ts obj d of
        (Ok, d') \<Rightarrow> \<exists>x\<ge>0. x \<le> 100 \<and> taken t now (snd (last (db_published d'))) =
          Some (Inr (DEMO_SENDER_ID, DemoControl (Some ''set_battery'') (Some x) None None))
      | (Refused n e, d') \<Rightarrow> d' = d"
    by (auto simp: api_demo_battery_def publish_demo_def env [OF ids(2)] decode_controls clamp_level_def
        split: option.split)
  show "case api_demo_drain_rate pf ts obj d of
        (Ok, d') \<Rightarrow> \<exists>x\<ge>0. taken t now (snd (last (db_published d'))) =
          Some (Inr (DEMO_SENDER_ID, DemoControl (Some ''set_drain_rate'') None (Some x) None))
      | (Refused n e, d') \<Rightarrow> d' = d"
    by (auto simp: api_demo_drain_rate_def publish_demo_def env [OF ids(2)] decode_controls
        split: option.split)
  show "case api_demo_drain_paused ts obj d of
        (Ok, d') \<Rightarrow> \<exists>b. taken t now (snd (last (db_published d'))) =
          Some (Inr (DEMO_SENDER_ID, DemoControl (Some ''set_drain_paused'') None None (Some b)))
      | (Refused n e, d') \<Rightarrow> d' = d"
    by (auto simp: api_demo_drain_paused_def publish_demo_def env [OF ids(2)] decode_controls)
  show "case partition_command a ts of
        None \<Rightarrow> control_payload (ctl_action a) (ctl_sides a) = None
      | Some (topic, body) \<Rightarrow> taken t now body =
          Some (Inr (''partition-ctl'', the (control_payload (ctl_action a) (ctl_sides a))))"
    by (auto simp: partition_command_def env [OF ids(3)] control_payload_def decode_controls Let_def
        split: option.split)
qed

theorem producers_are_understood_witness:
  "taken (plugged_in ''c'') 9 (snd (the (partition_command
     \<lparr>ctl_action = ''heal'', ctl_sides = [], ctl_broker = ''localhost'', ctl_port = 1883,
       ctl_cluster = ''echo-default''\<rparr> 5))) =
     Some (Inr (''partition-ctl'', PartitionControl (Some ''heal'') None None)) \<and>
   (\<exists>x\<ge>0. x \<le> 100 \<and> taken (plugged_in ''c'') 9
      (snd (last (db_published (snd (api_demo_battery (\<lambda>_. None) 5 [(''level'', JInt 140)] new_dashboard))))) =
     Some (Inr (DEMO_SENDER_ID, DemoControl (Some ''set_battery'') (Some x) None None)))"
proof -
  let ?a = "\<lparr>ctl_action = ''heal'', ctl_sides = [], ctl_broker = ''localhost'', ctl_port = 1883,
       ctl_cluster = ''echo-default''\<rparr>"
  have t: "handler_set (plugged_in ''c'')"
    "t_node_id (plugged_in ''c'') \<notin> {leaf_id sample_leaf, DEMO_SENDER_ID, ''partition-ctl''}"
    by (simp_all add: plugged_in_def on_connect_def set_handler_def new_transport_def sample_leaf_def
        DEMO_SENDER_ID_def new_mock_leaf_def split_beta Let_def)
  have "control_payload ''heal'' [] = Some (PartitionControl (Some ''heal'') None None)"
    by (simp add: control_payload_def)
  moreover have "fst (api_demo_battery (\<lambda>_. None) 5 [(''level'', JInt 140)] new_dashboard) = Ok"
    by (simp add: api_demo_battery_def new_dashboard_def db_start_def dget_or_def)
  ultimately show ?thesis
    using producers_are_understood [OF t, where now = 9 and pf = "\<lambda>_. None" and ts = 5
      and obj = "[(''level'', JInt 140)]" and d = new_dashboard and a = ?a]
    by (auto simp: partition_command_def split_beta split: prod.splits)
qed

end
