(* ===== verification/HwMetrics.thy ===== *)
theory HwMetrics
  imports PyStrings
begin

text \<open>
  \<open>rpi/metrics_collector.py\<close>: the collector of the experiment harness, which listens to the
  status of the coordinators and the counters of the leaves and computes the figures of a
  run. Locks only make each operation atomic.
\<close>

section \<open>State\<close>

text \<open>
  A decoded status or stats object: one option per key the collector reads. The coordinator
  publishes the first group of keys, the mock leaves the second.
\<close>

record status_report =
  k_state :: "string option"
  k_term :: "int option"
  k_battery :: "int option"
  k_log_length :: "nat option"
  k_commit_index :: "nat option"
  k_partition_epoch :: "int option"
  k_messages_sent :: "nat option"
  k_messages_received :: "nat option"
  k_messages_sent_by_type :: "(string, nat) dict option"
  k_messages_recv_by_type :: "(string, nat) dict option"
  k_consensus_rounds :: "nat option"
  k_avg_consensus_latency_ms :: "rat option"
  k_leader_changes :: "nat option"
  k_sent :: "nat option"
  k_suppressed :: "nat option"
  k_recv_by_type :: "(string, nat) dict option"

text \<open>A row of the time series; a value the status lacks is the empty cell \<open>None\<close>.\<close>

record sample_row =
  x_time :: rat
  x_node_id :: string
  x_state :: "string option"
  x_term :: "int option"
  x_battery :: "int option"
  x_log_length :: "nat option"
  x_commit_index :: "nat option"
  x_partition_epoch :: int

record hw_collector =
  hw_cluster_id :: string
  hw_coordinators :: "(string, status_report) dict"
  hw_leaves :: "(string, status_report) dict"
  hw_availability :: "(rat \<times> bool) list"
  hw_samples :: "sample_row list"

definition new_hw_collector :: "string \<Rightarrow> hw_collector" where
  "new_hw_collector cluster = \<lparr>hw_cluster_id = cluster, hw_coordinators = [], hw_leaves = [],
     hw_availability = [], hw_samples = []\<rparr>"

definition PLUMBING_TYPES :: "string list" where
  "PLUMBING_TYPES = [''partition_control'', ''demo_control'']"


section \<open>Ingestion\<close>

text \<open>\<open>body\<close> is what the payload decodes to, \<open>None\<close> when that is no JSON object.\<close>

definition hw_handle_message :: "string \<Rightarrow> status_report option \<Rightarrow> hw_collector \<Rightarrow> hw_collector" where
  "hw_handle_message topic body m =
     (case body of
        None \<Rightarrow> m
      | Some data \<Rightarrow>
          (let parts = py_split (CHR ''/'') topic
           in if length parts < 4 \<or> parts ! 0 \<noteq> ''echo'' \<or> parts ! 1 \<noteq> hw_cluster_id m then m
              else if parts ! 2 = ''status'' \<and> k_state data \<noteq> None
              then m\<lparr>hw_coordinators := dput (parts ! 3) data (hw_coordinators m)\<rparr>
              else if parts ! 2 = ''stats'' \<and> k_sent data \<noteq> None
              then m\<lparr>hw_leaves := dput (parts ! 3) data (hw_leaves m)\<rparr>
              else m))"

definition says_leader :: "status_report \<Rightarrow> bool" where
  "says_leader r \<longleftrightarrow> k_state r = Some ''leader'' \<or> k_state r = Some ''local_leader''"

definition sample_of :: "rat \<Rightarrow> string \<times> status_report \<Rightarrow> sample_row" where
  "sample_of now = (\<lambda>(i, r). \<lparr>x_time = py_round now 3, x_node_id = i, x_state = k_state r,
     x_term = k_term r, x_battery = k_battery r, x_log_length = k_log_length r,
     x_commit_index = k_commit_index r, x_partition_epoch = py_get (k_partition_epoch r) 0\<rparr>)"

definition hw_sample :: "hw_collector \<Rightarrow> world \<Rightarrow> hw_collector \<times> world" where
  "hw_sample m w =
     (let (now, w) = wall_time w;
          coords = hw_coordinators m
      in (m\<lparr>hw_availability := hw_availability m @ [(now, list_ex (says_leader \<circ> snd) coords)],
            hw_samples := hw_samples m @ map (sample_of now) coords\<rparr>, w))"


section \<open>Aggregation\<close>

text \<open>\<open>counted_hw\<close> sums the counters of the protocol's own message types.\<close>

definition protocol_counts :: "(string, nat) dict \<Rightarrow> (string, nat) dict" where
  "protocol_counts d = filter (\<lambda>(t, n). t \<notin> set PLUMBING_TYPES) d"

definition counted_hw :: "(string, nat) dict \<Rightarrow> nat" where
  "counted_hw d = sum_list (map snd (protocol_counts d))"

definition recv_of_coordinator :: "status_report \<Rightarrow> (string, nat) dict" where
  "recv_of_coordinator r = py_get (k_messages_recv_by_type r) []"

definition recv_of_leaf :: "status_report \<Rightarrow> (string, nat) dict" where
  "recv_of_leaf r = py_get (k_recv_by_type r) []"

definition add_counts :: "(string, nat) dict \<Rightarrow> (string, nat) dict \<Rightarrow> (string, nat) dict" where
  "add_counts d acc = fold (\<lambda>(t, n) acc. dput t (dget_or acc t 0 + n) acc) (protocol_counts d) acc"

record hw_summary_row =
  h_protocol :: string
  h_total_messages :: nat
  h_consensus_rounds :: nat
  h_avg_consensus_latency_ms :: rat
  h_avg_messages_per_round :: rat
  h_leader_changes :: nat
  h_availability_pct :: rat
  h_messages_recv_by_type :: "(string, nat) dict"
  h_coordinator_rx :: nat
  h_leaf_rx :: nat

definition hw_rounds :: "hw_collector \<Rightarrow> nat" where
  "hw_rounds m = sum_list (map (\<lambda>(i, r). py_get (k_consensus_rounds r) 0) (hw_coordinators m))"

definition hw_avg_latency :: "hw_collector \<Rightarrow> rat" where
  "hw_avg_latency m =
     (let weighted = sum_list (map (\<lambda>(i, r). py_get (k_avg_consensus_latency_ms r) 0 *
                of_nat (py_get (k_consensus_rounds r) 0)) (hw_coordinators m))
      in if hw_rounds m \<noteq> 0 then weighted / of_nat (hw_rounds m) else 0)"

definition hw_availability_pct :: "hw_collector \<Rightarrow> rat" where
  "hw_availability_pct m =
     (let a = hw_availability m
      in if a = [] then 0 else 100 * of_nat (length (filter snd a)) / of_nat (length a))"

definition hw_summary :: "string \<Rightarrow> hw_collector \<Rightarrow> hw_summary_row" where
  "hw_summary protocol m =
     (let coords = map snd (hw_coordinators m);
          leaves = map snd (hw_leaves m);
          coord_rx = sum_list (map (counted_hw \<circ> recv_of_coordinator) coords);
          leaf_rx = sum_list (map (counted_hw \<circ> recv_of_leaf) leaves);
          total = coord_rx + leaf_rx;
          by_type = fold (add_counts \<circ> recv_of_leaf) leaves
                      (fold (add_counts \<circ> recv_of_coordinator) coords []);
          n = hw_rounds m
      in \<lparr>h_protocol = protocol,
          h_total_messages = total,
          h_consensus_rounds = n,
          h_avg_consensus_latency_ms = py_round (hw_avg_latency m) 3,
          h_avg_messages_per_round = (if n \<noteq> 0 then py_round (of_nat total / of_nat n) 1 else 0),
          h_leader_changes = sum_list (map (\<lambda>r. py_get (k_leader_changes r) 0) coords),
          h_availability_pct = py_round (hw_availability_pct m) 2,
          h_messages_recv_by_type = by_type,
          h_coordinator_rx = coord_rx,
          h_leaf_rx = leaf_rx\<rparr>)"


section \<open>Rows of the per-node table\<close>

record node_row =
  n_node_id :: string
  n_leaf :: bool
  n_final_state :: "string option"
  n_final_battery :: "int option"
  n_tx_total :: nat
  n_rx_total :: nat
  n_consensus_rounds :: "nat option"
  n_avg_latency :: "rat option"
  n_leader_changes :: "nat option"
  n_sent_by_type :: "(string, nat) dict"
  n_recv_by_type :: "(string, nat) dict"

text \<open>The JSON cells are written with sorted keys.\<close>

definition coordinator_row :: "string \<times> status_report \<Rightarrow> node_row" where
  "coordinator_row = (\<lambda>(i, r). \<lparr>n_node_id = i, n_leaf = False, n_final_state = k_state r,
     n_final_battery = k_battery r, n_tx_total = py_get (k_messages_sent r) 0,
     n_rx_total = py_get (k_messages_received r) 0,
     n_consensus_rounds = Some (py_get (k_consensus_rounds r) 0),
     n_avg_latency = Some (py_get (k_avg_consensus_latency_ms r) 0),
     n_leader_changes = Some (py_get (k_leader_changes r) 0),
     n_sent_by_type = sort_key fst (py_get (k_messages_sent_by_type r) []),
     n_recv_by_type = sort_key fst (recv_of_coordinator r)\<rparr>)"

definition leaf_row :: "string \<times> status_report \<Rightarrow> node_row" where
  "leaf_row = (\<lambda>(i, r). \<lparr>n_node_id = i, n_leaf = True, n_final_state = None,
     n_final_battery = None, n_tx_total = py_get (k_sent r) 0,
     n_rx_total = sum_list (map snd (recv_of_leaf r)),
     n_consensus_rounds = None, n_avg_latency = None, n_leader_changes = None,
     n_sent_by_type = [(''sensor_data'', py_get (k_sent r) 0),
       (''suppressed'', py_get (k_suppressed r) 0)],
     n_recv_by_type = sort_key fst (recv_of_leaf r)\<rparr>)"

definition node_rows :: "hw_collector \<Rightarrow> node_row list" where
  "node_rows m = map coordinator_row (sort_key fst (hw_coordinators m)) @
     map leaf_row (sort_key fst (hw_leaves m))"


section \<open>The headline figures agree\<close>

lemma sum_dput:
  "wf_dict d \<Longrightarrow> sum_list (map snd (dput t (dget_or d t 0 + n) d)) = sum_list (map snd d) + (n :: nat)"
proof (induction d)
  case Nil
  then show ?case by simp
next
  case (Cons p d)
  then have IH: "sum_list (map snd (dput t (dget_or d t 0 + n) d)) = sum_list (map snd d) + n"
    by (simp add: wf_dict_def keys_def)
  show ?case
    using IH by (cases p) (auto simp: dget_or_def)
qed

lemma add_counts_sum:
  assumes "wf_dict acc"
  shows "sum_list (map snd (add_counts d acc)) = sum_list (map snd acc) + counted_hw d"
    and "wf_dict (add_counts d acc)"
proof -
  have "sum_list (map snd (fold (\<lambda>(t, n) acc. dput t (dget_or acc t 0 + n) acc) xs acc)) =
      sum_list (map snd acc) + sum_list (map snd xs) \<and>
    wf_dict (fold (\<lambda>(t, n) acc. dput t (dget_or acc t 0 + n) acc) xs acc)"
    if "wf_dict acc" for xs and acc :: "(string, nat) dict"
    using that by (induction xs arbitrary: acc) (auto simp: sum_dput)
  from this [OF assms] show "sum_list (map snd (add_counts d acc)) = sum_list (map snd acc) + counted_hw d"
    and "wf_dict (add_counts d acc)"
    by (simp_all add: add_counts_def counted_hw_def)
qed

lemma add_counts_fold:
  "wf_dict acc \<Longrightarrow>
   sum_list (map snd (fold (add_counts \<circ> f) rs acc)) =
     sum_list (map snd acc) + sum_list (map (counted_hw \<circ> f) rs) \<and>
   wf_dict (fold (add_counts \<circ> f) rs acc)"
  by (induction rs arbitrary: acc) (auto simp: add_counts_sum)

text \<open>In the summary of any run the counters per message type add up to the total, the total is
  what coordinators and leaves received together, and the availability (before rounding) is
  a percentage.\<close>

theorem summary_figures_agree:
  "sum_list (map snd (h_messages_recv_by_type (hw_summary p m))) = h_total_messages (hw_summary p m) \<and>
   h_total_messages (hw_summary p m) = h_coordinator_rx (hw_summary p m) + h_leaf_rx (hw_summary p m) \<and>
   0 \<le> hw_availability_pct m \<and> hw_availability_pct m \<le> 100"
proof -
  let ?c = "fold (add_counts \<circ> recv_of_coordinator) (map snd (hw_coordinators m)) []"
  have "sum_list (map snd (fold (add_counts \<circ> recv_of_leaf) (map snd (hw_leaves m)) ?c)) =
      sum_list (map (counted_hw \<circ> recv_of_coordinator) (map snd (hw_coordinators m))) +
      sum_list (map (counted_hw \<circ> recv_of_leaf) (map snd (hw_leaves m)))"
    using add_counts_fold [of "[]" recv_of_coordinator "map snd (hw_coordinators m)"]
      add_counts_fold [of ?c recv_of_leaf "map snd (hw_leaves m)"] by simp
  moreover have "0 \<le> hw_availability_pct m \<and> hw_availability_pct m \<le> 100"
  proof (cases "hw_availability m")
    case (Cons x xs)
    have "length (filter snd (hw_availability m)) \<le> length (hw_availability m)"
      by (rule length_filter_le)
    then have "(of_nat (length (filter snd (hw_availability m))) :: rat) \<le> of_nat (length (hw_availability m))"
      by (simp only: of_nat_le_iff)
    moreover have "(0 :: rat) < of_nat (length (hw_availability m))"
      using Cons by simp
    ultimately show ?thesis
      using Cons by (simp add: hw_availability_pct_def Let_def divide_le_eq del: length_Cons)
  qed (simp add: hw_availability_pct_def)
  ultimately show ?thesis by (simp add: hw_summary_def Let_def)
qed

end
