(* ===== verification/Observed.thy ===== *)
theory Observed
  imports Producers HwMetrics
begin

text \<open>
  The programs that watch a cluster: what a coordinator's status and a leaf's counters look
  like on the wire, and that the collector and the dashboard read from them what the node's
  state says.
\<close>

section \<open>On the wire\<close>

fun state_value :: "node_state \<Rightarrow> string" where
  "state_value Follower = ''follower''"
| "state_value Candidate = ''candidate''"
| "state_value Leader = ''leader''"
| "state_value Observer = ''observer''"
| "state_value LocalLeader = ''local_leader''"

fun protocol_name :: "protocol \<Rightarrow> string" where
  "protocol_name Raft = ''raft''"
| "protocol_name Echo = ''echo''"
| "protocol_name Echod = ''echod''"

definition nat_json :: "nat \<Rightarrow> json" where
  "nat_json n = JInt (int n)"

definition counters_json :: "(string, nat) dict \<Rightarrow> json" where
  "counters_json d = JObj (map (\<lambda>(k, n). (k, nat_json n)) d)"

definition name_json :: "string option \<Rightarrow> json" where
  "name_json v = (case v of None \<Rightarrow> JNull | Some s \<Rightarrow> JStr s)"

definition status_dict :: "status \<Rightarrow> (string, json) dict" where
  "status_dict st = [(''protocol'', JStr (protocol_name (st_protocol st))),
     (''state'', JStr (state_value (st_state st))), (''term'', JInt (st_term st)),
     (''battery'', JInt (st_battery st)), (''log_length'', nat_json (st_log_length st)),
     (''commit_index'', nat_json (st_commit_index st)), (''voted_for'', name_json (st_voted_for st)),
     (''current_leader'', name_json (st_current_leader st)),
     (''partition_epoch'', JInt (st_partition_epoch st)),
     (''peers'', JList (map JStr (st_peers st))), (''leaves'', JList (map JStr (st_leaves st))),
     (''messages_sent'', nat_json (st_messages_sent st)),
     (''messages_received'', nat_json (st_messages_received st)),
     (''messages_sent_by_type'', counters_json (st_sent_by_type st)),
     (''messages_recv_by_type'', counters_json (st_recv_by_type st)),
     (''consensus_rounds'', nat_json (st_consensus_rounds st)),
     (''avg_consensus_latency_ms'', JFloat (st_avg_latency_ms st)),
     (''leader_changes'', nat_json (st_leader_changes st))]"

text \<open>\<open>_publish_status\<close> handed to the transport, at the time \<open>now\<close>.\<close>

definition published_status :: "rat \<Rightarrow> coordinator \<Rightarrow> transport \<Rightarrow> transport" where
  "published_status now s t = (case published (publish_status s) of
     None \<Rightarrow> t | Some st \<Rightarrow> publish_status_blob now (status_dict st) t)"

text \<open>
  A leaf's counters; \<open>json.dumps\<close> turns a key that is no string into text, \<open>other_key\<close>.
\<close>

definition stats_json :: "(json \<Rightarrow> string) \<Rightarrow> string \<times> nat \<times> nat \<times> (json, nat) dict \<times> rat \<Rightarrow> json" where
  "stats_json other_key = (\<lambda>(i, n, suppressed, received, t). JObj [(''leaf_id'', JStr i),
     (''sent'', nat_json n), (''suppressed'', nat_json suppressed),
     (''recv_by_type'', counters_json (map (\<lambda>(k, n).
        (case k of JStr s \<Rightarrow> s | _ \<Rightarrow> other_key k, n)) received)),
     (''timestamp'', JFloat t)])"

definition stats_topic :: "string \<Rightarrow> string \<Rightarrow> string" where
  "stats_topic cluster leaf = ''echo/'' @ cluster @ ''/stats/'' @ leaf"


section \<open>Reading a report\<close>

text \<open>
  What the collector finds in a decoded body under the keys it reads. Values of other types
  than the senders use are outside the model and read as absent.
\<close>

definition key :: "(json \<Rightarrow> 'a option) \<Rightarrow> (string, json) dict \<Rightarrow> string \<Rightarrow> 'a option" where
  "key get d k = Option.bind (dget d k) get"

definition get_text :: "json \<Rightarrow> string option" where
  "get_text v = (case v of JStr s \<Rightarrow> Some s | _ \<Rightarrow> None)"

definition get_int :: "json \<Rightarrow> int option" where
  "get_int v = (case v of JInt i \<Rightarrow> Some i | _ \<Rightarrow> None)"

definition get_nat :: "json \<Rightarrow> nat option" where
  "get_nat v = (case v of JInt i \<Rightarrow> if i \<ge> 0 then Some (nat i) else None | _ \<Rightarrow> None)"

definition get_float :: "json \<Rightarrow> rat option" where
  "get_float v = (case v of JInt i \<Rightarrow> Some (of_int i) | JFloat x \<Rightarrow> Some x | _ \<Rightarrow> None)"

definition get_counters :: "json \<Rightarrow> (string, nat) dict option" where
  "get_counters v = (case v of
     JObj d \<Rightarrow> those (map (\<lambda>(k, n). map_option (Pair k) (get_nat n)) d) | _ \<Rightarrow> None)"

definition read_report :: "json option \<Rightarrow> status_report option" where
  "read_report body = (case body of
     Some (JObj d) \<Rightarrow> Some
       \<lparr>k_state = key get_text d ''state'', k_term = key get_int d ''term'',
        k_battery = key get_int d ''battery'', k_log_length = key get_nat d ''log_length'',
        k_commit_index = key get_nat d ''commit_index'',
        k_partition_epoch = key get_int d ''partition_epoch'',
        k_messages_sent = key get_nat d ''messages_sent'',
        k_messages_received = key get_nat d ''messages_received'',
        k_messages_sent_by_type = key get_counters d ''messages_sent_by_type'',
        k_messages_recv_by_type = key get_counters d ''messages_recv_by_type'',
        k_consensus_rounds = key get_nat d ''consensus_rounds'',
        k_avg_consensus_latency_ms = key get_float d ''avg_consensus_latency_ms'',
        k_leader_changes = key get_nat d ''leader_changes'', k_sent = key get_nat d ''sent'',
        k_suppressed = key get_nat d ''suppressed'',
        k_recv_by_type = key get_counters d ''recv_by_type''\<rparr>
   | _ \<Rightarrow> None)"

lemma get_counters_json [simp]: "get_counters (counters_json d) = Some d"
  by (induction d) (auto simp: get_counters_def counters_json_def get_nat_def nat_json_def)

lemma get_json [simp]:
  "get_text (JStr s) = Some s" "get_int (JInt i) = Some i" "get_nat (nat_json n) = Some n"
  "get_float (JFloat x) = Some x"
  by (simp_all add: get_text_def get_int_def get_nat_def get_float_def nat_json_def)

text \<open>The report of a node with the published status \<open>st\<close>.\<close>

definition report_of :: "status \<Rightarrow> status_report" where
  "report_of st = \<lparr>k_state = Some (state_value (st_state st)), k_term = Some (st_term st),
     k_battery = Some (st_battery st), k_log_length = Some (st_log_length st),
     k_commit_index = Some (st_commit_index st), k_partition_epoch = Some (st_partition_epoch st),
     k_messages_sent = Some (st_messages_sent st), k_messages_received = Some (st_messages_received st),
     k_messages_sent_by_type = Some (st_sent_by_type st),
     k_messages_recv_by_type = Some (st_recv_by_type st),
     k_consensus_rounds = Some (st_consensus_rounds st),
     k_avg_consensus_latency_ms = Some (st_avg_latency_ms st),
     k_leader_changes = Some (st_leader_changes st),
     k_sent = None, k_suppressed = None, k_recv_by_type = None\<rparr>"

text \<open>The blob puts the status behind the node's name and the time.\<close>

lemma blob_dict:
  "fold (\<lambda>(k, v). dput k v) (status_dict st) [(''node_id'', i), (''timestamp'', t)] =
     (''node_id'', i) # (''timestamp'', t) # status_dict st"
  by (simp add: status_dict_def)

lemma read_status:
  "read_report (Some (JObj ((''node_id'', i) # (''timestamp'', t) # status_dict st))) = Some (report_of st)"
  by (simp add: read_report_def report_of_def status_dict_def key_def)

lemma topic_parts:
  assumes "CHR ''/'' \<notin> set c" and "CHR ''/'' \<notin> set i" and "CHR ''/'' \<notin> set k"
  shows "py_split (CHR ''/'') (''echo/'' @ c @ CHR ''/'' # k @ CHR ''/'' # i) = [''echo'', c, k, i]"
  using assms by (simp add: py_split_append py_split_plain)


section \<open>What the watchers know\<close>

lemma contains_infix: "contains p (xs @ p @ ys)"
  by (auto simp: contains_def list_ex_iff intro!: bexI [of _ "length xs"])

lemma says_leader_of: "says_leader (report_of st) \<longleftrightarrow> st_state st = Leader \<or> st_state st = LocalLeader"
  by (cases "st_state st") (simp_all add: says_leader_def report_of_def)

text \<open>C35. When a coordinator publishes its status, the collector of its cluster knows, under its name,
  its role, term, battery reading, log length, commit index, messages received by type and
  numbers of rounds and leader changes as they are in its state, takes
  it for a leader exactly when it is one, and the dashboard shows the very object; when a
  leaf publishes its counters, the collector knows them under the leaf's name, unless a
  message of a type that is no string was received.\<close>

theorem watchers_see_the_state:
  assumes "CHR ''/'' \<notin> set (t_node_id t)" and "CHR ''/'' \<notin> set (t_cluster_id t)"
    and "hw_cluster_id m = t_cluster_id t"
    and "last (publications (published_status now s t)) = (topic, body, keep)"
    and "CHR ''/'' \<notin> set (leaf_id l)" and "stats_payload l w = (ss, w')"
    and "recv_by_type l = map (\<lambda>(k, n). (JStr k, n)) counts"
  shows "(\<exists>r. dget (hw_coordinators (hw_handle_message topic (read_report (Some body)) m)) (t_node_id t) = Some r \<and>
      k_state r = Some (state_value (state s)) \<and> (says_leader r \<longleftrightarrow> state s = Leader \<or> state s = LocalLeader) \<and>
      k_term r = Some (current_term s) \<and> k_battery r = Some (fst (battery_level s)) \<and>
      k_log_length r = Some (length (log s)) \<and> k_commit_index r = Some (commit_index s) \<and>
      k_messages_recv_by_type r = Some (messages_recv_by_type s) \<and>
      k_consensus_rounds r = Some (length (latencies s)) \<and> k_leader_changes r = Some (leader_changes s)) \<and>
    dget (db_nodes (db_on_message seen topic (Some body) d)) (t_node_id t) = Some body \<and>
    (\<exists>r. dget (hw_leaves (hw_handle_message (stats_topic (t_cluster_id t) (leaf_id l))
        (read_report (Some (stats_json other ss))) m)) (leaf_id l) = Some r \<and>
      k_sent r = Some (sent_count l) \<and> k_suppressed r = Some (leaf_suppressed l) \<and> k_recv_by_type r = Some counts)"
proof (intro conjI)
  define st where "st = the (published (publish_status s))"
  have st: "published (publish_status s) = Some st" "st_state st = state s" "st_term st = current_term s"
    "st_battery st = fst (battery_level s)" "st_log_length st = length (log s)"
    "st_commit_index st = commit_index s" "st_recv_by_type st = messages_recv_by_type s"
    "st_consensus_rounds st = length (latencies s)" "st_leader_changes st = leader_changes s"
    by (simp_all add: st_def publish_status_def battery_level_def Let_def split_beta)
  have pub: "topic = status_topic (t_cluster_id t) (t_node_id t)"
    "body = JObj ((''node_id'', JStr (t_node_id t)) # (''timestamp'', JFloat now) # status_dict st)"
    using assms(4) by (simp_all add: published_status_def st(1) publish_status_blob_def blob_dict)
  have "py_split (CHR ''/'') topic = [''echo'', t_cluster_id t, ''status'', t_node_id t]"
    using topic_parts [OF assms(2,1), of "''status''"] by (simp add: pub(1) status_topic_def)
  then have "dget (hw_coordinators (hw_handle_message topic (read_report (Some body)) m)) (t_node_id t) = Some (report_of st)"
    by (simp add: hw_handle_message_def pub(2) read_status assms(3) report_of_def update_conv')
  then show "\<exists>r. dget (hw_coordinators (hw_handle_message topic (read_report (Some body)) m)) (t_node_id t) = Some r \<and>
      k_state r = Some (state_value (state s)) \<and> (says_leader r \<longleftrightarrow> state s = Leader \<or> state s = LocalLeader) \<and>
      k_term r = Some (current_term s) \<and> k_battery r = Some (fst (battery_level s)) \<and>
      k_log_length r = Some (length (log s)) \<and> k_commit_index r = Some (commit_index s) \<and>
      k_messages_recv_by_type r = Some (messages_recv_by_type s) \<and>
      k_consensus_rounds r = Some (length (latencies s)) \<and> k_leader_changes r = Some (leader_changes s)"
    by (intro exI [of _ "report_of st"] conjI says_leader_of [of st, unfolded st])
      (simp_all add: report_of_def st)
  have "contains ''/status/'' topic"
    using contains_infix [of "''/status/''" "''echo/'' @ t_cluster_id t" "t_node_id t"]
    by (simp only: pub(1) status_topic_def append_assoc)
  then show "dget (db_nodes (db_on_message seen topic (Some body) d)) (t_node_id t) = Some body"
    by (simp add: db_on_message_def pub(2) dget_or_def update_conv')
  have "py_split (CHR ''/'') (stats_topic (t_cluster_id t) (leaf_id l)) =
      [''echo'', t_cluster_id t, ''stats'', leaf_id l]"
    using topic_parts [OF assms(2,5), of "''stats''"] by (simp add: stats_topic_def)
  moreover have "ss = (leaf_id l, sent_count l, leaf_suppressed l, recv_by_type l, fst (wall_time w))"
    using assms(6) by (auto simp: stats_payload_def split_beta)
  ultimately show "\<exists>r. dget (hw_leaves (hw_handle_message (stats_topic (t_cluster_id t) (leaf_id l))
        (read_report (Some (stats_json other ss))) m)) (leaf_id l) = Some r \<and>
      k_sent r = Some (sent_count l) \<and> k_suppressed r = Some (leaf_suppressed l) \<and> k_recv_by_type r = Some counts"
    by (simp add: hw_handle_message_def read_report_def stats_json_def key_def assms(3,7) comp_def split_beta update_conv')
qed

theorem watchers_see_the_state_witness:
  "case last (publications (published_status 5 (split_node\<lparr>state := Leader, current_term := 3\<rparr>) (plugged_in ''a''))) of
     (topic, body, keep) \<Rightarrow>
       \<exists>r. dget (hw_coordinators (hw_handle_message topic (read_report (Some body)) (new_hw_collector ''echo-default''))) ''a'' = Some r \<and>
         k_term r = Some 3 \<and> says_leader r"
proof -
  let ?s = "split_node\<lparr>state := Leader, current_term := 3\<rparr>" and ?t = "plugged_in ''a''"
  obtain topic body keep where pub: "last (publications (published_status 5 ?s ?t)) = (topic, body, keep)"
    by (cases "last (publications (published_status 5 ?s ?t))")
  obtain ss w' where stats: "stats_payload sample_leaf still = (ss, w')"
    by fastforce
  have t: "t_node_id ?t = ''a''" "t_cluster_id ?t = ''echo-default''"
    by (simp_all add: plugged_in_def on_connect_def set_handler_def new_transport_def)
  have l: "leaf_id sample_leaf = ''leaf-0''" "recv_by_type sample_leaf = []"
    by (simp_all add: sample_leaf_def new_mock_leaf_def split_beta Let_def)
  show ?thesis
    using watchers_see_the_state [where t = ?t and m = "new_hw_collector ''echo-default''" and now = 5
        and s = ?s and topic = topic and body = body and keep = keep and l = sample_leaf and w = still
        and ss = ss and w' = w' and counts = "[]" and seen = 0 and d = new_dashboard and other = "\<lambda>_. []"]
    by (auto simp: pub stats t l new_hw_collector_def)
qed

end
