(* ===== verification/LeafMain.thy ===== *)
theory LeafMain
  imports MockLeaf Wire
begin

text \<open>
  The program of \<open>rpi/mock_leaf.py\<close>: its options, the start of \<open>main\<close> up to the loops, the
  loops with the messages that arrive between their turns, and the last report. The values of
  a seeded workload depend on nothing but the seed.
\<close>

section \<open>Options\<close>

record leaf_args =
  la_leaves :: int
  la_coordinators :: string
  la_broker :: string
  la_port :: int
  la_cluster :: string
  la_interval :: rat
  la_edge_filter :: bool
  la_bursts :: bool
  la_seed :: int
  la_burst_interval :: rat
  la_start_delay :: rat
  la_duration :: rat
  la_stats :: bool

text \<open>
  The options by type, split and read by \<open>argparse\<close>; \<open>flags\<close> are those given without a value.
  A workload that is no choice ends the program.
\<close>

definition parse_leaf_args :: "broker_settings \<Rightarrow> (string, string) dict \<Rightarrow> (string, int) dict \<Rightarrow>
    (string, rat) dict \<Rightarrow> string set \<Rightarrow> leaf_args option" where
  "parse_leaf_args conf strs ints floats flags =
     (let workload = dget_or strs ''workload'' ''stream''
      in if workload \<notin> {''stream'', ''bursts''} then None
         else Some \<lparr>la_leaves = dget_or ints ''leaves'' 5,
           la_coordinators = dget_or strs ''coordinators'' ''coord-0,coord-1,coord-2,coord-3,coord-4'',
           la_broker = dget_or strs ''broker'' (broker_host conf),
           la_port = dget_or ints ''port'' (broker_port conf),
           la_cluster = dget_or strs ''cluster'' (cluster_name conf),
           la_interval = dget_or floats ''interval'' SAMPLE_INTERVAL_hw,
           la_edge_filter = (''edge-filter'' \<in> flags), la_bursts = (workload = ''bursts''),
           la_seed = dget_or ints ''seed'' 42,
           la_burst_interval = dget_or floats ''burst-interval'' 1,
           la_start_delay = dget_or floats ''start-delay'' 2,
           la_duration = dget_or floats ''duration'' 0, la_stats = (''stats'' \<in> flags)\<rparr>)"


section \<open>Start\<close>

text \<open>
  \<open>seeded k\<close> is the generator \<open>random.Random(k)\<close>; the leaves are made in order and draw from
  their own generator or from the module's.
\<close>

fun make_leaves :: "leaf_args \<Rightarrow> (int \<Rightarrow> world) \<Rightarrow> nat list \<Rightarrow> world \<Rightarrow> mock_leaf list \<times> world" where
  "make_leaves a seeded [] w = ([], w)"
| "make_leaves a seeded (i # ids) w =
     (let (l, w) = new_mock_leaf (''leaf-'' @ decimal i) (la_cluster a) (comma_list (la_coordinators a))
            (la_edge_filter a) (la_bursts a) (seeded (la_seed a * 1000 + int i)) w;
          (ls, w) = make_leaves a seeded ids w
      in (l # ls, w))"

text \<open>The topics \<open>main\<close> subscribes to.\<close>

definition leaf_subscriptions :: "leaf_args \<Rightarrow> string list" where
  "leaf_subscriptions a = map (\<lambda>rest. ''echo/'' @ la_cluster a @ rest)
     [''/demo/leaves'', ''/broadcast'', ''/rpc/+'']"

fun register_all :: "mock_leaf list \<Rightarrow> world \<Rightarrow> (mock_leaf list \<times> world) result" where
  "register_all [] w = Inr ([], w)"
| "register_all (l # ls) w =
     bind (register l w) (\<lambda>(l, w). bind (register_all ls w) (\<lambda>(ls, w). Inr (l # ls, w)))"

definition fleet_start :: "leaf_args \<Rightarrow> (int \<Rightarrow> world) \<Rightarrow> world \<Rightarrow> fleet result" where
  "fleet_start a seeded w =
     (let (ls, w) = make_leaves a seeded [0..<nat (la_leaves a)] w
      in bind (register_all ls w) (\<lambda>(ls, w).
           let (t, w) = monotonic w
           in Inr \<lparr>fl_leaves = ls, fl_cluster = la_cluster a, paused = False, started = t,
                next_burst = t + la_start_delay a, last_stats = 0, stats_out = [], fl_world = w\<rparr>))"


section \<open>The loops\<close>

text \<open>
  The loop of the workload, given the messages (topic and decoded body) that arrive before
  each turn; a list that ends is an interrupt. The last report follows in every case.
\<close>

type_synonym leaf_message = "string \<times> json option"

definition fleet_receive :: "leaf_message \<Rightarrow> fleet \<Rightarrow> fleet" where
  "fleet_receive msg f = fleet_on_message (fst msg) (snd msg) f"

definition fleet_turn :: "leaf_args \<Rightarrow> fleet \<Rightarrow> bool \<times> fleet" where
  "fleet_turn a f =
     (if la_bursts a then bursts_round (la_duration a) (la_burst_interval a) (la_stats a) f
      else stream_round (la_duration a) (la_stats a) f)"

fun fleet_loop :: "leaf_args \<Rightarrow> leaf_message list list \<Rightarrow> fleet \<Rightarrow> fleet" where
  "fleet_loop a [] f = f"
| "fleet_loop a (ms # turns) f =
     (let (stop, f) = fleet_turn a (fold fleet_receive ms f) in if stop then f else fleet_loop a turns f)"

definition fleet_end :: "leaf_args \<Rightarrow> fleet \<Rightarrow> fleet" where
  "fleet_end a f = (if la_stats a then publish_stats f else f)"

definition leaf_main :: "leaf_args \<Rightarrow> (int \<Rightarrow> world) \<Rightarrow> leaf_message list list \<Rightarrow> world \<Rightarrow> fleet result" where
  "leaf_main a seeded turns w =
     bind (fleet_start a seeded w) (\<lambda>f. Inr (fleet_end a (fleet_loop a turns f)))"


section \<open>Seeded readings\<close>

text \<open>A leaf's own generator and value, and a step of its walk.\<close>

definition walker :: "mock_leaf \<Rightarrow> world \<times> rat" where
  "walker l = (rng l, leaf_value l)"

definition leaf_step :: "world \<times> rat \<Rightarrow> world \<times> rat" where
  "leaf_step = (\<lambda>(g, v).
     let (r, g) = py_random g;
         (step, g) = (if r < 3 / 10
                      then (let (sgn, g) = choice [- 1, 1] g; (m, g) = uniform 2 5 g in (sgn * m, g))
                      else uniform (- 4 / 10) (4 / 10) g)
     in (g, v + step))"

definition leaf_origin :: "world \<Rightarrow> world \<times> rat" where
  "leaf_origin g = (let (d, g) = uniform (- 2) 2 g in (g, 20 + d))"

lemma next_burst_walk:
  "walker (snd (next_burst_value l)) = leaf_step (walker l)"
  "fst (next_burst_value l) = snd (leaf_step (walker l))"
  by (simp_all add: next_burst_value_def walker_def leaf_step_def Let_def split_beta)

text \<open>The first \<open>k\<close> values of the walk, and those of them a leaf is to send.\<close>

definition leaf_walk :: "world \<Rightarrow> nat \<Rightarrow> rat list" where
  "leaf_walk g k = map (\<lambda>j. snd ((leaf_step ^^ Suc j) (leaf_origin g))) [0..<k]"

definition to_send :: "bool \<Rightarrow> rat list \<Rightarrow> rat list" where
  "to_send filt vs = (if filt then thin None vs else vs)"

definition last_of :: "'a option \<Rightarrow> 'a list \<Rightarrow> 'a option" where
  "last_of d xs = (if xs = [] then d else Some (last xs))"

lemma thin_snoc:
  "thin prev (vs @ [v]) = thin prev vs @
     (case last_of prev (thin prev vs) of None \<Rightarrow> [v] | Some x \<Rightarrow> if near x v then [] else [v])"
  by (induction prev vs rule: thin.induct) (auto simp: last_of_def split: option.split)

lemma to_send_snoc:
  "to_send filt (vs @ [v]) = to_send filt vs @
     (case last_of None (to_send filt vs) of None \<Rightarrow> [v] | Some x \<Rightarrow> if filt \<and> near x v then [] else [v])"
  by (simp add: to_send_def thin_snoc split: option.split)

text \<open>A leaf with the generator \<open>g\<close> after \<open>k\<close> bursts.\<close>

definition after_bursts :: "bool \<Rightarrow> world \<Rightarrow> nat \<Rightarrow> mock_leaf \<Rightarrow> bool" where
  "after_bursts filt g k l \<longleftrightarrow> registered l \<and> leaf_coordinator l \<noteq> None \<and> edge_filter l = filt \<and>
     walker l = (leaf_step ^^ k) (leaf_origin g) \<and>
     published_values l = map (\<lambda>v. py_round v 2) (to_send filt (leaf_walk g k)) \<and>
     leaf_last_transmitted l = last_of None (to_send filt (leaf_walk g k))"

lemma after_bursts_inbound: "after_bursts filt g k l \<Longrightarrow> after_bursts filt g k (note_inbound kind l)"
  by (simp add: after_bursts_def note_inbound_def walker_def published_values_def)

lemma after_bursts_step:
  assumes "after_bursts filt g k l"
  shows "after_bursts filt g (Suc k)
    (fst (send_leaf_reading (Some (fst (next_burst_value l))) (snd (next_burst_value l)) w))"
proof -
  define v where "v = snd ((leaf_step ^^ Suc k) (leaf_origin g))"
  define l1 where "l1 = snd (next_burst_value l)"
  have val: "fst (next_burst_value l) = v" and l1: "walker l1 = (leaf_step ^^ Suc k) (leaf_origin g)"
    using assms next_burst_walk [of l] by (simp_all add: after_bursts_def v_def l1_def)
  have same: "registered l1 = registered l" "leaf_coordinator l1 = leaf_coordinator l"
    "edge_filter l1 = edge_filter l" "published_values l1 = published_values l"
    "leaf_last_transmitted l1 = leaf_last_transmitted l"
    by (simp_all add: l1_def next_burst_value_def published_values_def Let_def split_beta)
  have lv: "leaf_value l1 = v"
    using l1 by (simp add: walker_def v_def flip: l1) (metis snd_conv)
  then have "l1\<lparr>leaf_value := v\<rparr> = l1"
    by simp
  moreover have "leaf_walk g (Suc k) = leaf_walk g k @ [v]"
    by (simp add: leaf_walk_def v_def)
  ultimately show ?thesis
    using assms l1 same unfolding val l1_def [symmetric]
    by (auto simp: after_bursts_def send_leaf_reading_def leaf_filtered_def transmit_def Let_def split_beta lv
        walker_def to_send_snoc last_of_def published_values_def map_filter_def value_of_body_def
        leaf_envelope_def split: option.splits if_splits)
qed

section \<open>Every run of one seed\<close>

definition seed_of :: "leaf_args \<Rightarrow> (int \<Rightarrow> world) \<Rightarrow> nat \<Rightarrow> world" where
  "seed_of a seeded i = seeded (la_seed a * 1000 + int i)"

definition in_step :: "leaf_args \<Rightarrow> (int \<Rightarrow> world) \<Rightarrow> nat \<Rightarrow> nat list \<Rightarrow> mock_leaf list \<Rightarrow> bool" where
  "in_step a seeded k ids ls \<longleftrightarrow>
     list_all2 (\<lambda>i l. after_bursts (la_edge_filter a) (seed_of a seeded i) k l) ids ls"

lemma in_step_simps [simp]:
  "in_step a seeded k [] ls \<longleftrightarrow> ls = []"
  "in_step a seeded k (i # ids) ls \<longleftrightarrow>
     (\<exists>l ls'. ls = l # ls' \<and> after_bursts (la_edge_filter a) (seed_of a seeded i) k l \<and>
        in_step a seeded k ids ls')"
  by (simp_all add: in_step_def list_all2_Cons1)

lemma read_all_in_step:
  "in_step a seeded k ids ls \<Longrightarrow> in_step a seeded (Suc k) ids (fst (read_all True ls w))"
  by (induction ids arbitrary: ls w) (auto simp: Let_def split_beta after_bursts_step)

lemma registered_fresh:
  assumes "la_bursts a"
    and "register (fst (new_mock_leaf i c cs (la_edge_filter a) (la_bursts a) g w)) w' = Inr (l, w'')"
  shows "after_bursts (la_edge_filter a) g 0 l"
  using assms
  by (auto simp: register_def new_mock_leaf_def after_bursts_def walker_def leaf_origin_def leaf_walk_def
      to_send_def last_of_def published_values_def map_filter_def value_of_body_def leaf_envelope_def
      Let_def split_beta split: if_splits)

lemma start_in_step:
  assumes "la_bursts a" and "register_all (fst (make_leaves a seeded ids w)) w' = Inr (ls, w'')"
  shows "in_step a seeded 0 ids ls"
  using assms(2)
proof (induction ids arbitrary: w w' ls w'')
  case (Cons i ids)
  let ?new = "new_mock_leaf (''leaf-'' @ decimal i) (la_cluster a) (comma_list (la_coordinators a))
      (la_edge_filter a) (la_bursts a) (seeded (la_seed a * 1000 + int i)) w"
  obtain l w1 ls1 w2 where "register (fst ?new) w' = Inr (l, w1)"
    and rest: "register_all (fst (make_leaves a seeded ids (snd ?new))) w1 = Inr (ls1, w2)" "ls = l # ls1"
    using Cons.prems by (auto simp: Let_def split_beta bind_Inr_iff)
  then show ?case
    using registered_fresh [OF assms(1)] Cons.IH [OF rest(1)] by (auto simp: seed_of_def)
qed simp

lemma in_step_map:
  assumes "in_step a seeded k ids ls" and "\<And>l. h l = l \<or> h l = note_inbound kind l"
  shows "in_step a seeded k ids (map h ls)"
  using assms(1) unfolding in_step_def list_all2_map2
  by (rule list_all2_mono) (metis after_bursts_inbound assms(2))

lemma receive_in_step:
  assumes "in_step a seeded k ids (fl_leaves f)"
  shows "in_step a seeded k ids (fl_leaves (fleet_receive msg f))"
  by (auto simp: fleet_receive_def fleet_on_message_def assms Let_def
      split: option.split json.split intro!: in_step_map [OF assms])

lemma stats_leaves [simp]: "fl_leaves (stats_if_due b t f) = fl_leaves f" "fl_leaves (publish_stats f) = fl_leaves f"
  by (simp_all add: stats_if_due_def publish_stats_def Let_def split_beta)

lemma bursts_round_in_step:
  assumes "in_step a seeded k ids (fl_leaves f)"
  shows "in_step a seeded k ids (fl_leaves (snd (bursts_round d i s f))) \<or>
    in_step a seeded (Suc k) ids (fl_leaves (snd (bursts_round d i s f)))"
  using assms by (simp add: bursts_round_def Let_def split_beta read_all_in_step)

lemma fleet_loop_in_step:
  assumes "la_bursts a" and "in_step a seeded k ids (fl_leaves f)"
  shows "\<exists>n\<le>length turns. in_step a seeded (k + n) ids (fl_leaves (fleet_loop a turns f))"
  using assms(2)
proof (induction turns arbitrary: k f)
  case (Cons ms turns)
  let ?f = "snd (fleet_turn a (fold fleet_receive ms f))"
  have "in_step a seeded k ids (fl_leaves (fold fleet_receive ms f))"
    using Cons.prems by (induction ms arbitrary: f) (simp_all add: receive_in_step)
  then consider "in_step a seeded k ids (fl_leaves ?f)" | "in_step a seeded (Suc k) ids (fl_leaves ?f)"
    using bursts_round_in_step [where f = "fold fleet_receive ms f"] assms(1)
    by (metis fleet_turn_def)
  then obtain j where j: "j \<le> 1" "in_step a seeded (k + j) ids (fl_leaves ?f)"
    by cases (metis add_0_right le_numeral_extra(1) zero_le, metis Suc_eq_plus1 le_refl)
  from Cons.IH [OF this(2)]
  obtain n where "n \<le> length turns" "in_step a seeded (k + (j + n)) ids (fl_leaves (fleet_loop a turns ?f))"
    by (auto simp: add.assoc)
  moreover have "fleet_loop a (ms # turns) f =
      (if fst (fleet_turn a (fold fleet_receive ms f)) then ?f else fleet_loop a turns ?f)"
    by (simp add: split_beta)
  ultimately show ?case
    using j by (cases "fst (fleet_turn a (fold fleet_receive ms f))")
      (fastforce intro: exI [of _ j], fastforce intro: exI [of _ "j + n"])
qed auto

text \<open>C31. In a run of the seeded workload that starts, there is one number of bursts such that every
  leaf has published exactly the readings of its own walk up to that burst, thinned by the
  edge filter if it is on and rounded to two decimals, and holds the generator and value that
  the walk leaves. The walk of leaf \<open>i\<close> is drawn from the generator seeded \<open>seed * 1000 + i\<close>, as
  the constructor has it (the module's docstring says \<open>seed + i\<close>): messages, clocks, pauses and the other leaves have no influence on what is
  sent, so runs of different protocols get the same traffic.\<close>

theorem seeded_traffic_is_reproducible:
  assumes "la_bursts a" and "leaf_main a seeded turns w = Inr f"
  shows "\<exists>k\<le>length turns. list_all2 (\<lambda>i l.
      published_values l = map (\<lambda>v. py_round v 2) (to_send (la_edge_filter a)
        (leaf_walk (seeded (la_seed a * 1000 + int i)) k)) \<and>
      (rng l, leaf_value l) = (leaf_step ^^ k) (leaf_origin (seeded (la_seed a * 1000 + int i))))
    [0..<nat (la_leaves a)] (fl_leaves f)"
proof -
  obtain f0 where start: "fleet_start a seeded w = Inr f0" and f: "f = fleet_end a (fleet_loop a turns f0)"
    using assms(2) by (auto simp: leaf_main_def bind_Inr_iff)
  have "in_step a seeded 0 [0..<nat (la_leaves a)] (fl_leaves f0)"
    using start by (auto simp: fleet_start_def Let_def split_beta bind_Inr_iff dest: start_in_step [OF assms(1)])
  from fleet_loop_in_step [OF assms(1) this, of turns]
  obtain k where "k \<le> length turns" "in_step a seeded k [0..<nat (la_leaves a)] (fl_leaves f)"
    by (auto simp: f fleet_end_def)
  then show ?thesis
    unfolding in_step_def seed_of_def
    by (intro exI [of _ k] conjI) (auto elim!: list_all2_mono simp: after_bursts_def walker_def)
qed

definition one_leaf :: leaf_args where
  "one_leaf = \<lparr>la_leaves = 1, la_coordinators = ''coord-0'', la_broker = ''localhost'', la_port = 1883,
     la_cluster = ''c'', la_interval = 1, la_edge_filter = False, la_bursts = True, la_seed = 42,
     la_burst_interval = 1, la_start_delay = 0, la_duration = 0, la_stats = False\<rparr>"

theorem seeded_traffic_is_reproducible_witness:
  "map published_values (fl_leaves (projr (leaf_main one_leaf (\<lambda>_. still) [[]] still))) =
     [map (\<lambda>v. py_round v 2) (leaf_walk still 1)]"
proof -
  let ?r = "leaf_main one_leaf (\<lambda>_. still) [[]] still"
  have "\<not> isl ?r"
    by code_simp+
  then have "?r = Inr (projr ?r)"
    by simp
  from seeded_traffic_is_reproducible [OF _ this]
  obtain k where "k \<le> 1" and *: "map published_values (fl_leaves (projr ?r)) = [map (\<lambda>v. py_round v 2) (leaf_walk still k)]"
    by (auto simp: one_leaf_def to_send_def list_all2_Cons1)
  moreover have "map (length \<circ> published_values) (fl_leaves (projr ?r)) = [1]"
    by code_simp
  then have "k = 1"
    using * by (cases "fl_leaves (projr ?r)") (auto simp: leaf_walk_def)
  ultimately show ?thesis by simp
qed

end
