(* ===== verification/Tables.thy ===== *)
theory Tables
  imports Json
begin

text \<open>
  The files both halves of the repository write at the end of a run, as values: CSV tables as
  \<open>csv.DictWriter\<close> fills them, JSON documents, and figures as the list of the drawing calls.
  How the cells are printed is the library's.
\<close>

section \<open>Files\<close>

text \<open>A panel of a figure: its bar series as labels, heights and legend text, and its settings.\<close>

record panel =
  bars :: "(string list \<times> rat list \<times> string option) list"
  y_label :: string
  panel_title :: string
  y_limits :: "(rat \<times> rat) option"
  with_legend :: bool

datatype artifact =
    Csv "string list" "json list list"
  | Document json
  | Figure "rat \<times> rat" "panel list"

type_synonym folder = "(string, artifact) dict"

text \<open>\<open>os.path.join\<close> of a directory and a file name that has no slash.\<close>

definition join_path :: "string \<Rightarrow> string \<Rightarrow> string" where
  "join_path dir name =
     (if dir = [] \<or> last dir = CHR ''/'' then dir @ name else dir @ ''/'' @ name)"


section \<open>Tables\<close>

text \<open>\<open>writerow\<close>: a key outside the field names raises, a missing one is an empty cell.\<close>

definition write_row :: "string list \<Rightarrow> (string, json) dict \<Rightarrow> json list result" where
  "write_row cols row =
     (if list_all (\<lambda>k. k \<in> set cols) (keys row)
      then Inr (map (\<lambda>k. dget_or row k (JStr [])) cols) else Inl ValueError)"

fun write_rows :: "string list \<Rightarrow> (string, json) dict list \<Rightarrow> json list list result" where
  "write_rows cols [] = Inr []"
| "write_rows cols (row # rows) =
     bind (write_row cols row) (\<lambda>c. bind (write_rows cols rows) (\<lambda>cs. Inr (c # cs)))"

definition csv_table :: "string list \<Rightarrow> (string, json) dict list \<Rightarrow> artifact result" where
  "csv_table cols rows = bind (write_rows cols rows) (\<lambda>cs. Inr (Csv cols cs))"

text \<open>\<open>{k: row.get(k, "") for k in cols}\<close>\<close>

definition pick :: "string list \<Rightarrow> (string, json) dict \<Rightarrow> (string, json) dict" where
  "pick cols row = map (\<lambda>k. (k, dget_or row k (JStr []))) cols"

lemma write_rows_Inr:
  "\<forall>row\<in>set rows. set (keys row) \<subseteq> set cols \<Longrightarrow>
   write_rows cols rows = Inr (map (\<lambda>row. map (\<lambda>k. dget_or row k (JStr [])) cols) rows)"
  by (induction rows) (auto simp: write_row_def list_all_iff)

lemma csv_table_Inr:
  "\<forall>row\<in>set rows. set (keys row) \<subseteq> set cols \<Longrightarrow>
   csv_table cols rows = Inr (Csv cols (map (\<lambda>row. map (\<lambda>k. dget_or row k (JStr [])) cols) rows))"
  by (simp add: csv_table_def write_rows_Inr)

lemma keys_pick [simp]: "keys (pick cols row) = cols"
  by (simp add: pick_def keys_def comp_def)

lemma dget_or_pick [simp]: "k \<in> set cols \<Longrightarrow> dget_or (pick cols row) k (JStr []) = dget_or row k (JStr [])"
  by (induction cols) (auto simp: pick_def dget_or_def)

lemma csv_table_pick:
  "csv_table cols (map (pick cols) rows) =
     Inr (Csv cols (map (\<lambda>row. map (\<lambda>k. dget_or row k (JStr [])) cols) rows))"
  by (simp add: csv_table_Inr comp_def cong: map_cong)


section \<open>Merging and sorting objects\<close>

text \<open>\<open>{**a, **b}\<close>\<close>

definition merged :: "('k, 'v) dict \<Rightarrow> ('k, 'v) dict \<Rightarrow> ('k, 'v) dict" where
  "merged a b = fold (\<lambda>(k, v) d. dput k v d) b a"

lemma dget_merged: "wf_dict b \<Longrightarrow> dget (merged a b) k = (case dget b k of None \<Rightarrow> dget a k | Some v \<Rightarrow> Some v)"
proof (induction b arbitrary: a)
  case (Cons p b)
  then have b: "wf_dict b" and "dget b (fst p) = None"
    by (auto simp: wf_dict_def keys_def map_of_eq_None_iff)
  then show ?case
    by (cases p) (simp add: merged_def update_conv' Cons.IH [OF b, unfolded merged_def] split: option.split)
qed (simp add: merged_def)

lemma wf_merged: "wf_dict a \<Longrightarrow> wf_dict (merged a b)"
  by (induction b arbitrary: a) (auto simp: merged_def)

lemma dget_sort_key:
  assumes "wf_dict d"
  shows "dget (sort_key fst d) k = dget d (k :: 'k :: linorder)"
proof -
  have "distinct (map fst d)"
    using assms by (simp add: wf_dict_def keys_def)
  moreover from this have "distinct (map fst (sort_key fst d))"
    by (simp add: distinct_map)
  ultimately have "map_of (sort_key fst d) = map_of d"
    by (subst map_of_inject_set) simp_all
  then show ?thesis by simp
qed

end
