(* ===== verification/SimReport.thy ===== *)
theory SimReport
  imports SimRun Tables
begin

text \<open>
  \<open>simulation/metrics/reporter.py\<close> as files: the comparison table, the energy table and the
  three figures, and what \<open>main\<close> of \<open>simulation/main.py\<close> leaves in the output directory.
\<close>

section \<open>The two tables\<close>

text \<open>The dict of \<open>summary()\<close>.\<close>

definition summary_dict :: "metrics_summary \<Rightarrow> (string, json) dict" where
  "summary_dict r = [(''total_messages'', JInt (int (sum_total_messages r))),
     (''messages_by_type'', JObj (map (\<lambda>(k, n). (k, JInt (int n))) (sum_messages_by_type r))),
     (''consensus_rounds'', JInt (int (sum_consensus_rounds r))),
     (''avg_consensus_latency_ms'', JFloat (sum_avg_latency_ms r)),
     (''avg_messages_per_round'', JFloat (sum_avg_messages r)),
     (''leader_changes'', JInt (int (sum_leader_changes r))),
     (''availability_pct'', JFloat (sum_availability_pct r)),
     (''energy_per_node'', JObj (map (\<lambda>(k, e). (k, JFloat e)) (sum_energy_per_node r)))]"

definition metrics_columns :: "string list" where
  "metrics_columns = [''protocol'', ''total_messages'', ''consensus_rounds'',
     ''avg_consensus_latency_ms'', ''avg_messages_per_round'', ''leader_changes'',
     ''availability_pct'']"

definition export_csv_file :: "(string, metrics) dict \<Rightarrow> string \<Rightarrow> (string \<times> artifact) result" where
  "export_csv_file cols output_dir =
     (let rows = map (\<lambda>(name, col).
            let row = dput ''protocol'' (JStr name) (summary_dict (summary col));
                row = AList.delete ''energy_per_node'' row
            in pick metrics_columns row) cols
      in bind (csv_table metrics_columns rows) (\<lambda>f. Inr (join_path output_dir ''metrics.csv'', f)))"

definition energy_columns :: "string list" where
  "energy_columns = [''protocol'', ''node_id'', ''energy_consumed'']"

definition export_energy_file :: "(string, metrics) dict \<Rightarrow> string \<Rightarrow> (string \<times> artifact) result" where
  "export_energy_file cols output_dir =
     (let rows = concat (map (\<lambda>(name, col). map (\<lambda>(nid, energy).
            [(''protocol'', JStr name), (''node_id'', JStr nid),
             (''energy_consumed'', JFloat (py_round energy 6))]) (energy_per_node col)) cols)
      in bind (csv_table energy_columns rows) (\<lambda>f. Inr (join_path output_dir ''energy.csv'', f)))"


section \<open>The figures\<close>

text \<open>\<open>have_plt\<close> says that matplotlib can be imported; the paths are the files' names.\<close>

definition single_panel :: "string \<Rightarrow> string \<Rightarrow> (string list \<times> rat list \<times> string option) list \<Rightarrow> panel" where
  "single_panel y t bs = \<lparr>bars = bs, y_label = y, panel_title = t, y_limits = None, with_legend = False\<rparr>"

definition energy_bars :: "(string, metrics) dict \<Rightarrow> (string list \<times> rat list \<times> string option) list" where
  "energy_bars cols = List.map_filter (\<lambda>(name, col).
     let epn = energy_per_node col; nodes = sort (keys epn)
     in if epn = [] then None
        else Some (map (\<lambda>n. name @ CHR 0x0A # n) nodes, map (\<lambda>n. dget_or epn n 0) nodes, Some name)) cols"

definition generate_charts :: "bool \<Rightarrow> (string, metrics) dict \<Rightarrow> string \<Rightarrow> folder" where
  "generate_charts have_plt cols output_dir =
     (if \<not> have_plt then []
      else let protocols = keys cols; values = (\<lambda>g. map (g \<circ> snd) cols) in
        [(join_path output_dir ''latency_messages.png'', Figure (10, 4)
            [single_panel ''ms'' ''Avg Consensus Latency''
               [(protocols, values avg_consensus_latency_ms, None)],
             single_panel ''messages'' ''Avg Messages per Round''
               [(protocols, values avg_messages_per_round, None)]]),
         (join_path output_dir ''energy.png'', Figure (10, 4)
            [(single_panel ''Energy consumed (0-1)'' ''Energy Consumption per Node'' (energy_bars cols))
               \<lparr>with_legend := True\<rparr>]),
         (join_path output_dir ''availability.png'', Figure (6, 4)
            [(single_panel ''%'' ''Cluster Availability'' [(protocols, values availability_pct, None)])
               \<lparr>y_limits := Some (0, 105)\<rparr>])])"


section \<open>What a run of the simulation leaves behind\<close>

text \<open>The end of \<open>main\<close>; a file written again replaces the one of that name.\<close>

definition main_output :: "bool \<Rightarrow> bool \<Rightarrow> (string, metrics) dict \<Rightarrow> string \<Rightarrow> folder \<Rightarrow> folder result" where
  "main_output charts have_plt cols output_dir files =
     bind (export_csv_file cols output_dir) (\<lambda>m.
     bind (export_energy_file cols output_dir) (\<lambda>e.
     Inr (merged files (m # e # (if charts then generate_charts have_plt cols output_dir else [])))))"

text \<open>The cells of a row of the comparison table.\<close>

definition row_cells :: "csv_row \<Rightarrow> json list" where
  "row_cells r = [JStr (row_protocol r), JInt (int (row_total_messages r)),
     JInt (int (row_consensus_rounds r)), JFloat (row_avg_consensus_latency_ms r),
     JFloat (row_avg_messages_per_round r), JInt (int (row_leader_changes r)),
     JFloat (row_availability_pct r)]"

lemma export_csv_rows:
  "export_csv_file cols d = Inr (join_path d ''metrics.csv'', Csv metrics_columns (map row_cells (export_csv cols)))"
proof -
  have "map (\<lambda>k. dget_or (AList.delete ''energy_per_node'' (dput ''protocol'' (JStr name) (summary_dict r))) k (JStr []))
      metrics_columns = [JStr name, JInt (int (sum_total_messages r)),
     JInt (int (sum_consensus_rounds r)), JFloat (sum_avg_latency_ms r),
     JFloat (sum_avg_messages r), JInt (int (sum_leader_changes r)),
     JFloat (sum_availability_pct r)]" for name and r
    by (simp add: metrics_columns_def summary_dict_def dget_or_def delete_conv')
  then show ?thesis
    unfolding export_csv_file_def Let_def split_beta
    by (subst csv_table_Inr) (auto simp: export_csv_def row_cells_def Let_def split_beta cong: map_cong)
qed

lemma export_energy_rows:
  "export_energy_file cols d = Inr (join_path d ''energy.csv'', Csv energy_columns
     (map (\<lambda>(p, n, e). [JStr p, JStr n, JFloat e]) (export_energy_csv cols)))"
  unfolding export_energy_file_def Let_def
  by (subst csv_table_Inr)
    (auto simp: export_energy_csv_def energy_columns_def dget_or_def keys_def map_concat split_beta comp_def)

end
