(* ===== verification/HwRun.thy ===== *)
theory HwRun
  imports HwMetrics SimReport RpiConfig
begin

text \<open>
  The rest of \<open>rpi/metrics_collector.py\<close>: the four files of \<open>write\<close>, the options, and \<open>main\<close>,
  which samples at a fixed cadence while messages come in and writes the files at the end.
\<close>

section \<open>Cells\<close>

text \<open>\<open>s.get(k, "")\<close> of a status, and the counters as JSON.\<close>

definition cell_or_empty :: "('a \<Rightarrow> json) \<Rightarrow> 'a option \<Rightarrow> json" where
  "cell_or_empty f v = (case v of None \<Rightarrow> JStr [] | Some x \<Rightarrow> f x)"

abbreviation JNat :: "nat \<Rightarrow> json" where
  "JNat n \<equiv> JInt (int n)"

definition counts_json :: "(string, nat) dict \<Rightarrow> json" where
  "counts_json d = JObj (map (\<lambda>(k, n). (k, JNat n)) d)"

definition METRICS_FIELDNAMES :: "string list" where
  "METRICS_FIELDNAMES = [''protocol'', ''total_messages'', ''consensus_rounds'',
     ''avg_consensus_latency_ms'', ''avg_messages_per_round'', ''leader_changes'',
     ''availability_pct'']"

definition hw_row :: "hw_summary_row \<Rightarrow> (string, json) dict" where
  "hw_row r = [(''protocol'', JStr (h_protocol r)), (''total_messages'', JNat (h_total_messages r)),
     (''consensus_rounds'', JNat (h_consensus_rounds r)),
     (''avg_consensus_latency_ms'', JFloat (h_avg_consensus_latency_ms r)),
     (''avg_messages_per_round'', JFloat (h_avg_messages_per_round r)),
     (''leader_changes'', JNat (h_leader_changes r)),
     (''availability_pct'', JFloat (h_availability_pct r)),
     (''messages_recv_by_type'', counts_json (h_messages_recv_by_type r)),
     (''coordinator_rx'', JNat (h_coordinator_rx r)), (''leaf_rx'', JNat (h_leaf_rx r))]"

definition nodes_columns :: "string list" where
  "nodes_columns = [''node_id'', ''kind'', ''final_state'', ''final_battery'', ''tx_total'',
     ''rx_total'', ''consensus_rounds'', ''avg_consensus_latency_ms'', ''leader_changes'',
     ''sent_by_type'', ''recv_by_type'']"

definition node_cells :: "node_row \<Rightarrow> (string, json) dict" where
  "node_cells n = [(''node_id'', JStr (n_node_id n)),
     (''kind'', JStr (if n_leaf n then ''leaf'' else ''coordinator'')),
     (''final_state'', cell_or_empty JStr (n_final_state n)),
     (''final_battery'', cell_or_empty JInt (n_final_battery n)),
     (''tx_total'', JNat (n_tx_total n)), (''rx_total'', JNat (n_rx_total n)),
     (''consensus_rounds'', cell_or_empty JNat (n_consensus_rounds n)),
     (''avg_consensus_latency_ms'', cell_or_empty JFloat (n_avg_latency n)),
     (''leader_changes'', cell_or_empty JNat (n_leader_changes n)),
     (''sent_by_type'', counts_json (n_sent_by_type n)),
     (''recv_by_type'', counts_json (n_recv_by_type n))]"

definition timeseries_columns :: "string list" where
  "timeseries_columns = [''time'', ''node_id'', ''state'', ''term'', ''battery'', ''log_length'',
     ''commit_index'', ''partition_epoch'']"

definition sample_cells :: "sample_row \<Rightarrow> (string, json) dict" where
  "sample_cells x = [(''time'', JFloat (x_time x)), (''node_id'', JStr (x_node_id x)),
     (''state'', cell_or_empty JStr (x_state x)), (''term'', cell_or_empty JInt (x_term x)),
     (''battery'', cell_or_empty JInt (x_battery x)),
     (''log_length'', cell_or_empty JNat (x_log_length x)),
     (''commit_index'', cell_or_empty JNat (x_commit_index x)),
     (''partition_epoch'', JInt (x_partition_epoch x))]"


section \<open>Writing\<close>

text \<open>\<open>write\<close>: the row it returns and the four files, in the order they are written.\<close>

definition hw_write ::
    "string \<Rightarrow> string \<Rightarrow> (string, json) dict \<Rightarrow> hw_collector \<Rightarrow> ((string, json) dict \<times> folder) result" where
  "hw_write out_dir protocol meta m =
     (let row = hw_row (hw_summary protocol m)
      in bind (csv_table METRICS_FIELDNAMES [pick METRICS_FIELDNAMES row]) (\<lambda>metrics.
         bind (csv_table nodes_columns (map node_cells (node_rows m))) (\<lambda>nodes.
         bind (csv_table timeseries_columns (map sample_cells (hw_samples m))) (\<lambda>series.
         Inr (row, [(join_path out_dir ''metrics.csv'', metrics),
                    (join_path out_dir ''nodes.csv'', nodes),
                    (join_path out_dir ''timeseries.csv'', series),
                    (join_path out_dir ''summary.json'',
                     Document (JObj (sort_key fst (merged meta row))))])))))"


section \<open>The program\<close>

record hw_args =
  ha_protocol :: string
  ha_duration :: rat
  ha_seed :: int
  ha_out :: string
  ha_broker :: string
  ha_port :: int
  ha_cluster :: string
  ha_sample_interval :: rat
  ha_coordinators :: int
  ha_leaves :: int
  ha_partition_at :: "rat option"
  ha_heal_at :: "rat option"

text \<open>
  The options by type, as \<open>argparse\<close> has split and read them; a missing required one ends the
  program.
\<close>

definition parse_hw_args :: "broker_settings \<Rightarrow> (string, string) dict \<Rightarrow> (string, int) dict \<Rightarrow>
    (string, rat) dict \<Rightarrow> hw_args option" where
  "parse_hw_args conf strs ints floats =
     (case (dget strs ''protocol'', dget floats ''duration'', dget strs ''out'') of
        (Some proto, Some dur, Some out) \<Rightarrow> Some
          \<lparr>ha_protocol = proto, ha_duration = dur, ha_seed = dget_or ints ''seed'' 42, ha_out = out,
           ha_broker = dget_or strs ''broker'' (broker_host conf),
           ha_port = dget_or ints ''port'' (broker_port conf),
           ha_cluster = dget_or strs ''cluster'' (cluster_name conf),
           ha_sample_interval = dget_or floats ''sample-interval'' (1 / 4),
           ha_coordinators = dget_or ints ''coordinators'' 5, ha_leaves = dget_or ints ''leaves'' 5,
           ha_partition_at = dget floats ''partition-at'', ha_heal_at = dget floats ''heal-at''\<rparr>
      | _ \<Rightarrow> None)"

definition hw_meta :: "hw_args \<Rightarrow> string \<Rightarrow> (string, json) dict" where
  "hw_meta a collected_at =
     (let opt = case_option JNull JFloat
      in [(''seed'', JInt (ha_seed a)), (''duration_s'', JFloat (ha_duration a)),
          (''coordinators'', JInt (ha_coordinators a)), (''leaves'', JInt (ha_leaves a)),
          (''partition_at'', opt (ha_partition_at a)), (''heal_at'', opt (ha_heal_at a)),
          (''transport'', JStr ''mqtt''), (''collected_at'', JStr collected_at)])"

text \<open>The topics \<open>main\<close> subscribes to.\<close>

definition hw_subscriptions :: "hw_args \<Rightarrow> string list" where
  "hw_subscriptions a = map (\<lambda>rest. ''echo/'' @ ha_cluster a @ rest) [''/status/#'', ''/stats/#'']"

text \<open>The variables of the loop. A message is its topic and decoded body.\<close>

record hw_state =
  collecting :: hw_collector
  hw_started :: rat
  next_sample :: rat
  hw_world :: world

type_synonym hw_message = "string \<times> status_report option"

definition hw_begin :: "hw_args \<Rightarrow> world \<Rightarrow> hw_state" where
  "hw_begin a w =
     (let (t, w) = monotonic w
      in \<lparr>collecting = new_hw_collector (ha_cluster a), hw_started = t, next_sample = t, hw_world = w\<rparr>)"

definition hw_receive :: "hw_message \<Rightarrow> hw_state \<Rightarrow> hw_state" where
  "hw_receive msg x = x\<lparr>collecting := hw_handle_message (fst msg) (snd msg) (collecting x)\<rparr>"

text \<open>One turn of the loop; the first component says that the condition failed.\<close>

definition hw_turn :: "hw_args \<Rightarrow> hw_state \<Rightarrow> bool \<times> hw_state" where
  "hw_turn a x =
     (let (t, w) = monotonic (hw_world x); x = x\<lparr>hw_world := w\<rparr>
      in if \<not> t - hw_started x < ha_duration a then (True, x)
         else (let (t, w) = monotonic (hw_world x); x = x\<lparr>hw_world := w\<rparr>
               in if t \<ge> next_sample x
                  then (let (m, w) = hw_sample (collecting x) (hw_world x)
                        in (False, x\<lparr>collecting := m, hw_world := w,
                              next_sample := next_sample x + ha_sample_interval a\<rparr>))
                  else (False, x)))"

text \<open>
  The loop, given the messages that come in before each of its turns; a list that ends is
  an interrupt from the keyboard.
\<close>

fun hw_loop :: "hw_args \<Rightarrow> hw_message list list \<Rightarrow> hw_state \<Rightarrow> hw_state" where
  "hw_loop a [] x = x"
| "hw_loop a (ms # turns) x =
     (let (stop, x) = hw_turn a (fold hw_receive ms x) in if stop then x else hw_loop a turns x)"

text \<open>\<open>late\<close> are the messages of the half second before the client stops.\<close>

definition hw_main :: "hw_args \<Rightarrow> hw_message list list \<Rightarrow> hw_message list \<Rightarrow> string \<Rightarrow> world \<Rightarrow>
    ((string, json) dict \<times> folder) result" where
  "hw_main a turns late collected_at w =
     (let x = fold hw_receive late (hw_loop a turns (hw_begin a w))
      in hw_write (ha_out a) (ha_protocol a) (hw_meta a collected_at) (collecting x))"


section \<open>The loop\<close>

lemma hw_receive_simps [simp]:
  "hw_started (hw_receive msg x) = hw_started x" "next_sample (hw_receive msg x) = next_sample x"
  "hw_world (hw_receive msg x) = hw_world x"
  "hw_availability (collecting (hw_receive msg x)) = hw_availability (collecting x)"
  by (simp_all add: hw_receive_def hw_handle_message_def Let_def split: option.split)

lemma hw_receives_simps [simp]:
  "hw_started (fold hw_receive ms x) = hw_started x" "next_sample (fold hw_receive ms x) = next_sample x"
  "hw_world (fold hw_receive ms x) = hw_world x"
  "hw_availability (collecting (fold hw_receive ms x)) = hw_availability (collecting x)"
  by (induction ms arbitrary: x) simp_all

text \<open>A property that messages and turns keep holds when the loop is left.\<close>

lemma hw_loop_keeps:
  assumes "P x" and "\<And>msg x. P x \<Longrightarrow> P (hw_receive msg x)" and "\<And>x. P x \<Longrightarrow> P (snd (hw_turn a x))"
  shows "P (hw_loop a turns x)"
  using assms(1)
proof (induction turns arbitrary: x)
  case (Cons ms turns)
  have "P (fold hw_receive ms x)"
    using Cons.prems assms(2) by (induction ms arbitrary: x) simp_all
  then show ?case
    using Cons.IH assms(3) [of "fold hw_receive ms x"] by (simp add: split_beta)
qed simp

text \<open>The nodes are kept in dicts, so their names are distinct.\<close>

definition known_once :: "hw_collector \<Rightarrow> bool" where
  "known_once m \<longleftrightarrow> wf_dict (hw_coordinators m) \<and> wf_dict (hw_leaves m)"

lemma known_once_loop: "known_once (collecting (fold hw_receive late (hw_loop a turns (hw_begin a w))))"
proof -
  have msg: "known_once (collecting x) \<Longrightarrow> known_once (collecting (hw_receive msg x))" for msg x
    by (simp add: known_once_def hw_receive_def hw_handle_message_def Let_def split: option.split)
  have "known_once (collecting (hw_loop a turns (hw_begin a w)))"
    by (rule hw_loop_keeps, simp add: hw_begin_def known_once_def new_hw_collector_def split_beta, erule msg)
      (simp add: hw_turn_def hw_sample_def known_once_def split_beta Let_def)
  then show ?thesis
    using msg by (induction late arbitrary: turns rule: rev_induct) simp_all
qed

lemma node_cells_columns: "keys (node_cells n) = nodes_columns"
  by (simp add: node_cells_def nodes_columns_def keys_def)

lemma sample_cells_columns: "keys (sample_cells x) = timeseries_columns"
  by (simp add: sample_cells_def timeseries_columns_def keys_def)

text \<open>No row has a key outside its table's columns, so \<open>write\<close> always ends with four files.\<close>

lemma hw_write_files:
  "hw_write out protocol meta m = Inr (hw_row (hw_summary protocol m),
     [(join_path out ''metrics.csv'', Csv METRICS_FIELDNAMES
         [map (\<lambda>k. dget_or (hw_row (hw_summary protocol m)) k (JStr [])) METRICS_FIELDNAMES]),
      (join_path out ''nodes.csv'', Csv nodes_columns
         (map (\<lambda>n. map (\<lambda>k. dget_or (node_cells n) k (JStr [])) nodes_columns) (node_rows m))),
      (join_path out ''timeseries.csv'', Csv timeseries_columns
         (map (\<lambda>x. map (\<lambda>k. dget_or (sample_cells x) k (JStr [])) timeseries_columns) (hw_samples m))),
      (join_path out ''summary.json'',
         Document (JObj (sort_key fst (merged meta (hw_row (hw_summary protocol m))))))])"
  using csv_table_pick [of METRICS_FIELDNAMES "[hw_row (hw_summary protocol m)]"]
  by (simp add: hw_write_def Let_def csv_table_Inr node_cells_columns sample_cells_columns comp_def)

lemma map_insort_key: "map f (insort_key f x xs) = insort (f x) (map f xs)"
  by (induction xs) simp_all

lemma map_sort_key: "map f (sort_key f xs) = sort (map f xs)"
  by (induction xs) (simp_all add: map_insort_key)

lemma node_names:
  "map (\<lambda>n. dget_or (node_cells n) ''node_id'' (JStr [])) (node_rows m) =
     map JStr (sort (keys (hw_coordinators m)) @ sort (keys (hw_leaves m)))"
proof -
  have "dget_or (node_cells (coordinator_row p)) ''node_id'' (JStr []) = JStr (fst p)"
    "dget_or (node_cells (leaf_row p)) ''node_id'' (JStr []) = JStr (fst p)" for p
    by (simp_all add: node_cells_def dget_or_def coordinator_row_def leaf_row_def split_beta)
  then show ?thesis
    by (simp add: node_rows_def keys_def flip: map_sort_key)
qed


section \<open>What a run leaves behind\<close>

text \<open>C36. Whatever messages come in, the collector ends with its four files: the metrics table has
  the columns of the simulation's and one row with the values of the summary; the node table
  lists every node heard from once, coordinators first, in the order of their names; the time
  series has a row per sample; the summary document has every headline value and the
  metadata that they do not replace. The counters per message type add up to the total, and
  the availability before rounding is a percentage.\<close>

theorem harness_artifacts:
  "\<exists>m row nodes series doc by_type pct.
     m = collecting (fold hw_receive late (hw_loop a turns (hw_begin a w))) \<and>
     hw_main a turns late stamp w = Inr (row,
       [(join_path (ha_out a) ''metrics.csv'', Csv metrics_columns [map (the \<circ> dget row) metrics_columns]),
        (join_path (ha_out a) ''nodes.csv'', Csv nodes_columns nodes),
        (join_path (ha_out a) ''timeseries.csv'', Csv timeseries_columns series),
        (join_path (ha_out a) ''summary.json'', Document (JObj doc))]) \<and>
     map hd nodes = map JStr (sort (keys (hw_coordinators m)) @ sort (keys (hw_leaves m))) \<and>
     distinct (keys (hw_coordinators m)) \<and> distinct (keys (hw_leaves m)) \<and>
     list_all (\<lambda>r. length r = length nodes_columns) nodes \<and>
     length series = length (hw_samples m) \<and>
     (\<forall>k. dget doc k = (case dget row k of None \<Rightarrow> dget (hw_meta a stamp) k | Some v \<Rightarrow> Some v)) \<and>
     dget row ''messages_recv_by_type'' = Some (counts_json by_type) \<and>
     dget row ''total_messages'' = Some (JNat (sum_list (map snd by_type))) \<and>
     dget row ''availability_pct'' = Some (JFloat (py_round pct 2)) \<and> 0 \<le> pct \<and> pct \<le> 100"
proof -
  define m where "m = collecting (fold hw_receive late (hw_loop a turns (hw_begin a w)))"
  define row where "row = hw_row (hw_summary (ha_protocol a) m)"
  have row: "wf_dict row"
    by (simp add: row_def hw_row_def wf_dict_def keys_def)
  have meta: "wf_dict (hw_meta a stamp)"
    by (simp add: hw_meta_def wf_dict_def keys_def Let_def)
  have "dget (sort_key fst (merged (hw_meta a stamp) row)) k =
      (case dget row k of None \<Rightarrow> dget (hw_meta a stamp) k | Some v \<Rightarrow> Some v)" for k
    by (simp add: dget_sort_key wf_merged meta dget_merged row)
  moreover have "map (\<lambda>k. dget_or row k (JStr [])) METRICS_FIELDNAMES = map (the \<circ> dget row) metrics_columns"
    by (simp add: row_def hw_row_def METRICS_FIELDNAMES_def metrics_columns_def dget_or_def)
  moreover have "map hd (map (\<lambda>n. map (\<lambda>k. dget_or (node_cells n) k (JStr [])) nodes_columns) (node_rows m)) =
      map JStr (sort (keys (hw_coordinators m)) @ sort (keys (hw_leaves m)))"
    using node_names [of m] by (simp add: comp_def nodes_columns_def)
  moreover have "dget row ''messages_recv_by_type'' = Some (counts_json (h_messages_recv_by_type (hw_summary (ha_protocol a) m)))"
    "dget row ''total_messages'' = Some (JNat (h_total_messages (hw_summary (ha_protocol a) m)))"
    "dget row ''availability_pct'' = Some (JFloat (py_round (hw_availability_pct m) 2))"
    by (simp_all add: row_def hw_row_def hw_summary_def Let_def)
  ultimately show ?thesis
    using summary_figures_agree [of "ha_protocol a" m] known_once_loop [of late a turns w]
    unfolding hw_main_def Let_def hw_write_files m_def [symmetric] row_def [symmetric]
    by (intro exI [of _ m] exI [of _ row] exI conjI allI refl)
      (auto simp: METRICS_FIELDNAMES_def metrics_columns_def known_once_def wf_dict_def list_all_iff)
qed


section \<open>Cadence\<close>

definition samples_taken :: "hw_state \<Rightarrow> nat" where
  "samples_taken x = length (hw_availability (collecting x))"

text \<open>Each sample was due, and all but the last were taken before the end.\<close>

definition on_schedule :: "hw_args \<Rightarrow> hw_state \<Rightarrow> bool" where
  "on_schedule a x \<longleftrightarrow> steady (hw_world x) \<and>
     next_sample x = hw_started x + of_nat (samples_taken x) * ha_sample_interval a \<and>
     (samples_taken x > 0 \<longrightarrow> hw_started x + (of_nat (samples_taken x) - 1) * ha_sample_interval a
        \<le> mono_tape (hw_world x) (mono_pos (hw_world x))) \<and>
     (samples_taken x > 1 \<longrightarrow> (of_nat (samples_taken x) - 2) * ha_sample_interval a < ha_duration a)"

lemma steady_le: "steady w \<Longrightarrow> i \<le> j \<Longrightarrow> mono_tape w i \<le> mono_tape w j"
  by (simp add: steady_def)

lemma steady_moved [simp]:
  "steady (w\<lparr>mono_pos := n\<rparr>) = steady w" "steady (w\<lparr>wall_pos := n\<rparr>) = steady w"
  by (simp_all add: steady_def)

lemma on_schedule_receive: "on_schedule a x \<Longrightarrow> on_schedule a (hw_receive msg x)"
  by (simp add: on_schedule_def samples_taken_def)

lemma on_schedule_turn:
  assumes "on_schedule a x"
  shows "on_schedule a (snd (hw_turn a x))"
proof -
  let ?w = "hw_world x" and ?n = "samples_taken x"
  let ?t = "\<lambda>k. mono_tape ?w (mono_pos ?w + k)"
  have t: "?t 0 \<le> ?t 1" "?t 1 \<le> ?t 2"
    using assms steady_le [of ?w] by (simp_all add: on_schedule_def)
  have due: "?n > 0 \<Longrightarrow> hw_started x + (of_nat ?n - 1) * ha_sample_interval a \<le> ?t 0"
    and next_at: "next_sample x = hw_started x + of_nat ?n * ha_sample_interval a"
    and rest: "steady ?w" "?n > 1 \<Longrightarrow> (of_nat ?n - 2) * ha_sample_interval a < ha_duration a"
    using assms by (auto simp: on_schedule_def)
  consider "\<not> ?t 0 - hw_started x < ha_duration a"
    | "?t 0 - hw_started x < ha_duration a" "next_sample x \<le> ?t 1"
    | "?t 0 - hw_started x < ha_duration a" "\<not> next_sample x \<le> ?t 1"
    by blast
  then show ?thesis
  proof cases
    case 2
    have "?n > 0 \<Longrightarrow> (of_nat ?n - 1) * ha_sample_interval a < ha_duration a"
      using due 2(1) by simp
    moreover have "hw_started x + of_nat ?n * ha_sample_interval a \<le> ?t 2"
      using 2(2) t(2) by (simp add: next_at)
    ultimately show ?thesis
      using 2 rest(1) next_at
      by (simp add: on_schedule_def hw_turn_def hw_sample_def monotonic_def wall_time_def samples_taken_def
          Let_def algebra_simps)
  qed (use rest next_at due t in \<open>auto simp: on_schedule_def hw_turn_def monotonic_def samples_taken_def Let_def\<close>)
qed

text \<open>C38. With a clock that never goes back, a collector that runs for a positive duration with a
  positive sample interval takes fewer than duration / interval + 2 samples, however many
  turns its loop makes: the k-th is due k intervals after the start, and a late turn shifts no
  later one.\<close>

theorem sampling_keeps_cadence:
  assumes "steady w" and "0 < ha_sample_interval a" and "0 < ha_duration a"
    and "x = hw_loop a turns (hw_begin a w)"
  shows "of_nat (samples_taken x) < ha_duration a / ha_sample_interval a + 2 \<and>
    next_sample x = hw_started x + of_nat (samples_taken x) * ha_sample_interval a"
proof -
  have "on_schedule a (hw_begin a w)"
    using assms(1) by (simp add: on_schedule_def hw_begin_def samples_taken_def new_hw_collector_def
        monotonic_def)
  then have "on_schedule a x"
    unfolding assms(4)
    by (rule hw_loop_keeps [OF _ on_schedule_receive on_schedule_turn])
  moreover have "0 < ha_duration a / ha_sample_interval a"
    using assms(2,3) by simp
  moreover have "samples_taken x > 1 \<or> samples_taken x = 0 \<or> samples_taken x = 1"
    by arith
  ultimately show ?thesis
    using assms(2) by (auto simp: on_schedule_def field_simps)
qed

definition three_seconds :: hw_args where
  "three_seconds = \<lparr>ha_protocol = ''echo'', ha_duration = 3, ha_seed = 42, ha_out = ''out'',
     ha_broker = ''localhost'', ha_port = 1883, ha_cluster = ''c'', ha_sample_interval = 1,
     ha_coordinators = 3, ha_leaves = 1, ha_partition_at = None, ha_heal_at = None\<rparr>"

definition ticking :: world where
  "ticking = \<lparr>mono_tape = of_nat, mono_pos = 0, wall_tape = of_nat, wall_pos = 0,
     rand_tape = (\<lambda>_. 0), rand_pos = 0, adc_tape = (\<lambda>_. 0), adc_pos = 0\<rparr>"

theorem sampling_keeps_cadence_witness:
  "next_sample (hw_loop three_seconds [[], [], []] (hw_begin three_seconds ticking)) = 1"
proof -
  let ?x = "hw_loop three_seconds [[], [], []] (hw_begin three_seconds ticking)"
  have "samples_taken ?x = 1" and "hw_started ?x = 0"
    by code_simp+
  then show ?thesis
    using sampling_keeps_cadence [of ticking three_seconds ?x "[[], [], []]"]
    by (simp add: steady_def three_seconds_def ticking_def)
qed

end
