(* ===== verification/NodeMain.thy ===== *)
theory NodeMain
  imports Codec Frames
begin

text \<open>
  The entry point of the coordinator process: the options of \<open>rpi/coordinator/echo_node.py\<close>
  and how its \<open>main\<close> puts transport, battery and node together. \<open>argparse\<close> is a library: the model takes the options it has split, by name.
\<close>

section \<open>Options\<close>

record node_args =
  na_node_id :: string
  na_peers :: string
  na_protocol :: string
  na_broker :: string
  na_port :: int
  na_cluster :: string
  na_mock :: bool
  na_battery :: rat

text \<open>
  \<open>opts\<close> holds the options given with their text, a flag with the empty text. A missing
  required option, an unknown protocol and an unreadable number make the parser exit.
\<close>

definition parse_node_args ::
    "(string \<Rightarrow> int option) \<Rightarrow> (string \<Rightarrow> rat option) \<Rightarrow> broker_settings \<Rightarrow>
     (string, string) dict \<Rightarrow> node_args option" where
  "parse_node_args parse_int parse_float conf opts =
     (case (dget opts ''node-id'', dget opts ''peers'') of
        (Some nid, Some ps) \<Rightarrow>
          (let proto = dget_or opts ''protocol'' ''echo'';
               port = (case dget opts ''port'' of None \<Rightarrow> Some (broker_port conf) | Some t \<Rightarrow> parse_int t);
               bat = (case dget opts ''battery'' of None \<Rightarrow> Some 100 | Some t \<Rightarrow> parse_float t)
           in if proto \<notin> {''raft'', ''echo'', ''echod''} then None
              else (case (port, bat) of
                  (Some port, Some bat) \<Rightarrow> Some \<lparr>na_node_id = nid, na_peers = ps, na_protocol = proto,
                     na_broker = dget_or opts ''broker'' (broker_host conf), na_port = port,
                     na_cluster = dget_or opts ''cluster'' (cluster_name conf),
                     na_mock = (dget opts ''mock'' \<noteq> None), na_battery = bat\<rparr>
                | _ \<Rightarrow> None))
      | _ \<Rightarrow> None)"


section \<open>Putting the process together\<close>

text \<open>\<open>hw\<close> says that the battery hardware answers, \<open>demo\<close> that demo commands are enabled.\<close>

definition coordinator_main ::
    "node_args \<Rightarrow> bool \<Rightarrow> bool \<Rightarrow> world \<Rightarrow> (transport \<times> coordinator) result" where
  "coordinator_main a hw demo w =
     (let ps = comma_list (na_peers a);
          t = new_transport (na_node_id a) (na_cluster a);
          (b, w) = init_battery (na_mock a) (na_battery a) MOCK_BATTERY_DRAIN_RATE hw w
      in bind (init_coordinator (na_protocol a) (na_node_id a) ps b demo w) (\<lambda>s.
         Inr (set_handler t, run_start s)))"

text \<open>
  A process that is given the list of all nodes, itself included, counts exactly the cluster:
  its peers are the others, and its constructor accepts what the parser accepts.
\<close>

lemma coordinator_main_cluster:
  assumes "parse_node_args pint pflt conf opts = Some a" and "coordinator_main a hw demo w = r"
    and "na_peers a = py_join (CHR '','') ids" and "distinct ids" and "na_node_id a \<in> set ids"
    and "\<forall>s\<in>set ids. s \<noteq> [] \<and> CHR '','' \<notin> set s \<and> (\<forall>c\<in>set s. \<not> py_space c)"
  shows "\<exists>t s. r = Inr (t, s) \<and> handler_set t \<and> t_node_id t = node_id s \<and> node_id s = na_node_id a \<and>
    set (peers s) = set ids - {node_id s} \<and> length (peers s) + 1 = length ids \<and>
    state s = Follower \<and> current_term s = 0 \<and> inbox s = Some []"
proof -
  have proto: "na_protocol a \<in> {''raft'', ''echo'', ''echod''}"
    using assms(1) by (auto simp: parse_node_args_def Let_def split: option.splits if_splits)
  have ids: "comma_list (na_peers a) = ids"
    unfolding assms(3) using assms(5,6) by (intro comma_list_join) auto
  have "filter (\<lambda>p. p \<noteq> na_node_id a) ids = remove1 (na_node_id a) ids"
    using assms(4) by (simp add: distinct_remove1_removeAll removeAll_filter_not_eq) metis
  then have "length (filter (\<lambda>p. p \<noteq> na_node_id a) ids) + 1 = length ids"
    using assms(5) by (simp add: length_remove1) (metis Suc_pred length_pos_if_in_set)
  then show ?thesis
    using proto assms(5) unfolding assms(2) [symmetric]
    by (auto simp: coordinator_main_def ids init_coordinator_def parse_protocol_def reset_election_timer_nf
        blank_def run_start_def battery_level_nf now_s_def set_handler_def new_transport_def
        Let_def split_beta)
qed

end
