(* ===== verification/Diagrams.thy ===== *)
theory Diagrams
  imports PyStrings "HOL-Library.State_Monad"
begin

text \<open>
  The element helpers of \<open>scripts/generate_diagrams.py\<close>. The module's counter is the state of
  a state monad: every element takes two numbers from it, one for its seed and one for its
  identifier. A text is a list of code points, for the scenes use characters beyond ASCII;
  coordinates are rationals. Of an element's dict the keys that are the same for all elements
  are left out.
\<close>

section \<open>Texts and colours\<close>

type_synonym unicode = "nat list"

definition ascii :: "string \<Rightarrow> unicode" where
  "ascii s = map of_char s"

definition newline :: unicode where "newline = [10]"
definition em_dash :: unicode where "em_dash = [0x2014]"
definition en_dash :: unicode where "en_dash = [0x2013]"
definition minus_sign :: unicode where "minus_sign = [0x2212]"
definition times_sign :: unicode where "times_sign = [0xD7]"
definition approx_sign :: unicode where "approx_sign = [0x2248]"
definition at_least :: unicode where "at_least = [0x2265]"
definition to_right :: unicode where "to_right = [0x2192]"
definition to_left :: unicode where "to_left = [0x2190]"
definition delta :: unicode where "delta = [0x3B4]"
definition dots :: unicode where "dots = [0x2026]"
definition mid_dot :: unicode where "mid_dot = [0xB7]"

fun text_lines :: "unicode \<Rightarrow> unicode list" where
  "text_lines [] = [[]]"
| "text_lines (c # cs) =
     (if c = 10 then [] # text_lines cs
      else (case text_lines cs of [] \<Rightarrow> [[c]] | l # ls \<Rightarrow> (c # l) # ls))"

definition INK :: string where "INK = ''#1e1e1e''"
definition BLUE :: string where "BLUE = ''#1971c2''"
definition BLUE_BG :: string where "BLUE_BG = ''#a5d8ff''"
definition GREEN :: string where "GREEN = ''#2f9e44''"
definition GREEN_BG :: string where "GREEN_BG = ''#b2f2bb''"
definition RED :: string where "RED = ''#e03131''"
definition RED_BG :: string where "RED_BG = ''#ffc9c9''"
definition ORANGE :: string where "ORANGE = ''#f08c00''"
definition ORANGE_BG :: string where "ORANGE_BG = ''#ffec99''"
definition PURPLE :: string where "PURPLE = ''#9c36b5''"
definition PURPLE_BG :: string where "PURPLE_BG = ''#eedbff''"
definition GRAY :: string where "GRAY = ''#868e96''"
definition GRAY_BG :: string where "GRAY_BG = ''#e9ecef''"
definition PANEL_BG :: string where "PANEL_BG = ''#f1f3f5''"


section \<open>Elements\<close>

datatype detail =
    Plain
  | Label unicode rat nat string
  | Path "(rat \<times> rat) list" "string option"

record element =
  el_id :: string
  el_type :: string
  el_x :: rat
  el_y :: rat
  el_width :: rat
  el_height :: rat
  el_stroke :: string
  el_background :: string
  el_stroke_width :: rat
  el_stroke_style :: string
  el_roughness :: nat
  el_roundness :: "nat option"
  el_seed :: nat
  el_detail :: detail

type_synonym sketch = "(nat, element) state"

text \<open>\<open>next(_ids)\<close>\<close>

definition next_count :: "(nat, nat) state" where
  "next_count = State (\<lambda>n. (n, n + 1))"

definition nid :: "(nat, string) state" where
  "nid = do { n \<leftarrow> next_count; State_Monad.return (''el'' @ decimal n) }"

definition base_element :: "string \<Rightarrow> rat \<Rightarrow> rat \<Rightarrow> rat \<Rightarrow> rat \<Rightarrow> sketch" where
  "base_element etype x y w h = do {
     k \<leftarrow> next_count;
     i \<leftarrow> nid;
     State_Monad.return
       \<lparr>el_id = i, el_type = etype, el_x = x, el_y = y, el_width = w, el_height = h,
        el_stroke = INK, el_background = ''transparent'', el_stroke_width = 2,
        el_stroke_style = ''solid'', el_roughness = 1, el_roundness = Some 3,
        el_seed = k + 10000, el_detail = Plain\<rparr> }"

text \<open>The keyword arguments with their defaults are the fields of a pen and of a font.\<close>

record pen =
  p_bg :: string
  p_stroke :: string
  p_style :: string
  p_width :: rat
  p_rough :: nat

definition solid :: pen where
  "solid = \<lparr>p_bg = ''transparent'', p_stroke = INK, p_style = ''solid'', p_width = 2, p_rough = 1\<rparr>"

definition hairline :: pen where
  "hairline = solid\<lparr>p_width := 1\<rparr>"

definition box :: "rat \<Rightarrow> rat \<Rightarrow> rat \<Rightarrow> rat \<Rightarrow> pen \<Rightarrow> sketch" where
  "box x y w h p = do {
     e \<leftarrow> base_element ''rectangle'' x y w h;
     State_Monad.return
       (e\<lparr>el_background := p_bg p, el_stroke := p_stroke p, el_stroke_style := p_style p,
          el_stroke_width := p_width p, el_roughness := p_rough p\<rparr>) }"

definition circle :: "rat \<Rightarrow> rat \<Rightarrow> rat \<Rightarrow> pen \<Rightarrow> sketch" where
  "circle cx cy d p = do {
     e \<leftarrow> base_element ''ellipse'' (cx - d / 2) (cy - d / 2) d d;
     State_Monad.return
       (e\<lparr>el_background := p_bg p, el_stroke := p_stroke p, el_stroke_width := p_width p,
          el_stroke_style := p_style p\<rparr>) }"

record font =
  f_size :: rat
  f_color :: string
  f_align :: string
  f_family :: nat
  f_center :: bool

definition body :: font where
  "body = \<lparr>f_size = 16, f_color = INK, f_align = ''center'', f_family = 1, f_center = True\<rparr>"

definition text_el :: "rat \<Rightarrow> rat \<Rightarrow> unicode \<Rightarrow> font \<Rightarrow> sketch" where
  "text_el cx y s f =
     (let ls = text_lines s;
          longest = Max (set (map length ls));
          w = of_nat longest * f_size f * (58 / 100);
          h = of_nat (length ls) * f_size f * (125 / 100);
          x = (if f_center f then cx - w / 2 else cx)
      in do {
        e \<leftarrow> base_element ''text'' x y w h;
        State_Monad.return
          (e\<lparr>el_stroke := f_color f, el_roundness := None,
             el_detail := Label s (f_size f) (f_family f) (f_align f)\<rparr>) })"

definition arrow_el ::
    "rat \<Rightarrow> rat \<Rightarrow> rat \<Rightarrow> rat \<Rightarrow> pen \<Rightarrow> string option \<Rightarrow> sketch" where
  "arrow_el x1 y1 x2 y2 p head = do {
     e \<leftarrow> base_element ''arrow'' x1 y1 \<bar>x2 - x1\<bar> \<bar>y2 - y1\<bar>;
     State_Monad.return
       (e\<lparr>el_stroke := p_stroke p, el_stroke_width := p_width p, el_stroke_style := p_style p,
          el_detail := Path [(0, 0), (x2 - x1, y2 - y1)] head, el_roundness := Some 2\<rparr>) }"

definition arrow :: "rat \<Rightarrow> rat \<Rightarrow> rat \<Rightarrow> rat \<Rightarrow> pen \<Rightarrow> sketch" where
  "arrow x1 y1 x2 y2 p = arrow_el x1 y1 x2 y2 p (Some ''arrow'')"

definition line :: "rat \<Rightarrow> rat \<Rightarrow> rat \<Rightarrow> rat \<Rightarrow> pen \<Rightarrow> sketch" where
  "line x1 y1 x2 y2 p = arrow_el x1 y1 x2 y2 p None"

text \<open>A text of a size and colour, and a line or an arrow of a colour, as most calls have them.\<close>

definition words :: "rat \<Rightarrow> rat \<Rightarrow> unicode \<Rightarrow> rat \<Rightarrow> string \<Rightarrow> sketch" where
  "words cx y s sz c = text_el cx y s (body\<lparr>f_size := sz, f_color := c\<rparr>)"

text \<open>A box with a centred label and, where \<open>sub\<close> is true, a smaller subtitle.\<close>

definition labeled_node ::
    "rat \<Rightarrow> rat \<Rightarrow> rat \<Rightarrow> rat \<Rightarrow> unicode \<Rightarrow> string \<Rightarrow> string \<Rightarrow> rat \<Rightarrow> unicode option \<Rightarrow> sketch list" where
  "labeled_node cx cy w h label bg stroke sz sub =
     box (cx - w / 2) (cy - h / 2) w h (solid\<lparr>p_bg := bg, p_stroke := stroke\<rparr>) #
     (case sub of
        Some (c # cs) \<Rightarrow>
          [words cx (cy - h / 2 + 8) label sz INK,
           words cx (cy - h / 2 + 8 + sz * (14 / 10)) (c # cs) (sz - 3) GRAY]
      | _ \<Rightarrow> [words cx (cy - (sz * (125 / 100)) / 2) label sz INK])"

text \<open>The calls of a scene, one after the other.\<close>

definition draw :: "sketch list \<Rightarrow> (nat, element list) state" where
  "draw ss = traverse_list id ss"

end
