(* ===== verification/DiagramScenes.thy ===== *)
theory DiagramScenes
  imports Diagrams
begin

text \<open>
  The six scenes of \<open>scripts/generate_diagrams.py\<close>, call by call: a scene is the list of its
  sketches in the order in which the code makes and appends them.
\<close>

section \<open>Architecture comparison\<close>

text \<open>The panel every scene of several columns starts a column with.\<close>

abbreviation panel_pen :: pen where
  "panel_pen \<equiv> solid\<lparr>p_bg := PANEL_BG, p_stroke := GRAY, p_width := 1, p_rough := 0\<rparr>"

definition coord_row :: "rat list \<Rightarrow> sketch list" where
  "coord_row coords = concat (map (\<lambda>(i, x).
     if i = (2 :: nat) then labeled_node x 170 78 46 (ascii ''coord'') GREEN_BG GREEN 13 None
     else labeled_node x 170 78 46 (ascii ''coord'') BLUE_BG BLUE 13 None)
       (List.enumerate 0 coords))"

definition coord_places :: "rat \<Rightarrow> rat list" where
  "coord_places px = [px + 60, px + 150, px + 240, px + 330, px + 420]"

definition leaf_place :: "rat \<Rightarrow> nat \<Rightarrow> rat \<times> rat" where
  "leaf_place px i = (px + 70 + 55 * of_nat (i mod 5), 300 + 52 * of_nat (i div 5))"

definition architecture :: "sketch list" where
  "architecture =
     [words 750 16 (ascii ''Architecture: flat Raft vs tiered ECHO / echoD'') 26 INK] @
     concat (map (\<lambda>(title, px).
         [box px 70 460 640 panel_pen, words (px + 230) 88 title 20 INK])
       [((ascii ''RAFT '' @ em_dash @ ascii '' flat, all equal''), 40),
        ((ascii ''ECHO '' @ em_dash @ ascii '' tiered, but chatty''), 520),
        ((ascii ''echoD '' @ em_dash @ ascii '' tiered + disciplined''), 1000)]) @
     (let px = 40
      in labeled_node (px + 230) 190 110 56 (ascii ''leader'') BLUE_BG BLUE 15 None @
         concat (map (\<lambda>x.
             labeled_node x 330 74 46 (ascii ''peer'') GRAY_BG GRAY 13 None @
             [arrow (px + 230) 218 x 306 (solid\<lparr>p_stroke := RED, p_width := 1\<rparr>)])
           [px + 70, px + 160, px + 300, px + 390]) @
         [words (px + 230) 262 (ascii ''heartbeat '' @ times_sign @
           ascii ''4 every 50 ms'') 14 RED,
          words (px + 230) 284 (ascii ''even when idle '' @ em_dash @ ascii '' forever'') 14 RED,
          text_el (px + 230) 420
            (ascii ''every node votes & replicates'' @ newline @
              ascii ''consensus cost O(n)'' @ newline @ ascii ''halts without quorum'' @
              newline @ ascii ''no energy awareness'')
            (body\<lparr>f_size := 15, f_align := ''left'', f_center := True\<rparr>)]) @
     (let px = 520; coords = coord_places px
      in coord_row coords @
         concat (map (\<lambda>i. let (lx, ly) = leaf_place px i in
             circle lx ly 30 (solid\<lparr>p_bg := ORANGE_BG, p_stroke := ORANGE, p_width := 1\<rparr>) #
             (if i mod 3 = 0
              then [line lx (ly - 15) (coords ! ((i * 2) mod 5)) 196 (hairline\<lparr>p_stroke := GRAY\<rparr>)]
              else [])) [0..<10]) @
         [words (px + 240) 215 (ascii ''ping broadcast to ALL 15 nodes'') 14 RED,
          words (px + 240) 237 (approx_sign @ ascii '' 75 % of ECHO's total traffic'') 14 RED,
          words (px + 420) (96 + 26) (ascii ''leader'') 12 GREEN,
          words (px + 230) 420
            (ascii ''coordinators vote; leaves observe'' @ newline @
              ascii ''delta filter AFTER transmission'' @ newline @
              ascii ''one consensus round per event'' @ newline @
              ascii ''random elections '' @ to_right @ ascii '' split votes'')
            15 INK]) @
     (let px = 1000; coords = coord_places px
      in coord_row coords @
         concat (map (\<lambda>i. let (lx, ly) = leaf_place px i in
             circle lx ly 30 (solid\<lparr>p_bg := ORANGE_BG, p_stroke := ORANGE, p_width := 1\<rparr>) #
             (if i mod 4 = 0
              then [line lx (ly - 15) (coords ! ((i + 1) mod 5)) 196 (hairline\<lparr>p_stroke := GRAY\<rparr>)]
              else [])) [0..<10]) @
         [words (px + 240) 208 (ascii ''leader '' @ to_right @
           ascii '' coords: adaptive ping'') 13 GREEN,
          words (px + 240) 228 (ascii ''50 '' @ to_right @
            ascii '' 250 ms backoff while idle'') 13 GREEN,
          words (px + 240) 248 (ascii ''coord '' @ to_right @
            ascii '' own leaves: 1 s keepalive'') 13 GRAY,
          words (px + 240) 372 (delta @ ascii ''-filter ON the leaf'') 13 ORANGE,
          words (px + 230) 420
            (ascii ''consensus traffic never touches leaves'' @ newline @
              ascii ''bursts batched into ONE round'' @ newline @
              ascii ''battery-ordered elections, no split votes'' @ newline @
              ascii ''handoff instead of re-election'')
            15 INK])"


section \<open>One sensor event\<close>

definition message_flow :: "sketch list" where
  "message_flow =
     [words 750 16 (ascii ''One sensor event: what hits the network'') 26 INK] @
     concat (map (\<lambda>(title, px, accent).
         [box px 70 460 640 panel_pen, words (px + 230) 88 title 20 accent] @
         labeled_node (px + 90) 150 110 44
           (if title = (ascii ''RAFT'') then (ascii ''client'') else (ascii ''leaf''))
           GRAY_BG GRAY 14 None @
         labeled_node (px + 350) 150 150 44 (ascii ''leader + peers'') BLUE_BG BLUE 14 None @
         [line (px + 90) 172 (px + 90) 560 (hairline\<lparr>p_stroke := GRAY, p_style := ''dashed''\<rparr>),
          line (px + 350) 172 (px + 350) 560 (hairline\<lparr>p_stroke := GRAY, p_style := ''dashed''\<rparr>)])
       [((ascii ''RAFT''), 40, RED), ((ascii ''ECHO''), 520, ORANGE),
        ((ascii ''echoD''), 1000, GREEN)]) @
     (let px = 40
      in [arrow (px + 90) 230 (px + 350) 230 solid,
          words (px + 220) 206 (ascii ''1. command'') 13 INK,
          arrow (px + 350) 290 (px + 90) 330 solid,
          words (px + 220) 274 (ascii ''2. AppendEntries '' @ times_sign @ ascii ''4  '' @
            to_right) 13 INK,
          words (px + 220) 316 (ascii ''3. '' @ to_left @ ascii ''  responses '' @
            times_sign @ ascii ''4'') 13 INK,
          words (px + 230) 400 (ascii ''+ heartbeats to all peers'') 14 RED,
          words (px + 230) 422 (ascii ''every 50 ms, even when idle'') 14 RED] @
         labeled_node (px + 230) 620 300 56 (approx_sign @
           ascii '' 10 msgs / event'') RED_BG RED 15
           (Some (ascii ''plus a permanent heartbeat tax''))) @
     (let px = 520
      in [arrow (px + 90) 220 (px + 350) 220 solid,
          words (px + 220) 196 (ascii ''1. report (sent unfiltered)'') 13 INK,
          words (px + 220) 252 (ascii ''delta checked at coordinator '' @ em_dash) 13 ORANGE,
          words (px + 220) 272 (ascii ''radio cost already spent'') 13 ORANGE,
          arrow (px + 350) 330 (px + 90) 370 solid,
          words (px + 220) 314 (ascii ''2. AppendEntries '' @ times_sign @ ascii ''4  '' @
            to_right) 13 INK,
          words (px + 220) 356 (ascii ''3. '' @ to_left @ ascii ''  responses '' @
            times_sign @ ascii ''4'') 13 INK,
          words (px + 230) 424 (ascii ''+ ping broadcast to all 15 nodes'') 14 ORANGE] @
         labeled_node (px + 230) 620 300 56 (approx_sign @
           ascii '' 10 msgs / event'') ORANGE_BG ORANGE 15
           (Some (ascii ''plus 14-msg ping every 50 ms''))) @
     (let px = 1000
      in [words (px + 90) 210 (delta @ ascii ''-check on leaf'') 13 GREEN,
          words (px + 90) 230 (ascii ''sub-threshold = dropped'') 12 GREEN,
          words (px + 90) 246 (ascii ''(0 messages)'') 12 GREEN,
          arrow (px + 90) 300 (px + 350) 300 solid,
          words (px + 220) 276 (ascii ''1. breach report'') 13 INK,
          arrow (px + 350) 360 (px + 90) 400 solid,
          words (px + 220) 344 (ascii ''2. batched AppendEntries '' @ times_sign @
            ascii ''4  '' @ to_right) 13 INK,
          words (px + 220) 386 (ascii ''3. '' @ to_left @ ascii ''  responses '' @
            times_sign @ ascii ''4'') 13 INK,
          words (px + 230) 448 (ascii ''burst of k events = still ONE round'') 14 GREEN] @
         labeled_node (px + 230) 620 300 56 (ascii ''0 msgs (filtered)'') GREEN_BG GREEN 15
           (Some (ascii ''or one batched round per burst'')))"


section \<open>Battery-ordered election\<close>

text \<open>A row: the coordinator's name, its battery, its timeout in milliseconds, its colour.\<close>

definition election_rows :: "(string \<times> rat \<times> nat \<times> string) list" where
  "election_rows = [(''coord-1'', 90 / 100, 330, GREEN), (''coord-2'', 60 / 100, 420, BLUE),
     (''coord-3'', 40 / 100, 480, GRAY)]"

definition timeline_scale :: rat where
  "timeline_scale = (1180 - 320) / 600"

definition election_scene :: "sketch list" where
  "election_scene =
     (let x0 = 320; x1 = 1180; y_axis = 470; scale = timeline_scale
      in [words 750 16 (ascii ''Battery-ordered election timeouts'') 26 INK] @
         labeled_node 1060 92 620 52
           (ascii ''timeout = 300 + (1 '' @ minus_sign @ ascii '' battery) '' @ times_sign @
             ascii '' 300 + crc32(node_id) % 30'') PURPLE_BG PURPLE 16 None @
         concat (map (\<lambda>(i, name, batt, t_ms, color).
             let y = 170 + of_nat i * 100; tx = x0 + of_nat t_ms * scale
             in labeled_node 180 y 200 52 (ascii name)
                  (if i = (0 :: nat) then GREEN_BG else GRAY_BG)
                  (if i = 0 then color else GRAY) 15
                  (Some (ascii (''battery '' @ decimal (nat \<lfloor>batt * 100\<rfloor>) @ '' %''))) @
                [line x0 y x1 y (hairline\<lparr>p_stroke := GRAY\<rparr>),
                 circle tx y 16 (solid\<lparr>p_bg := RED_BG, p_stroke := RED\<rparr>),
                 words tx (y - 44) (ascii (decimal t_ms @ '' ms'')) 13 RED])
           (List.enumerate 0 election_rows)) @
         (let tx1 = x0 + 330 * scale
          in [arrow tx1 178 tx1 262 (solid\<lparr>p_stroke := GREEN, p_width := 2\<rparr>),
              arrow tx1 178 tx1 362 (solid\<lparr>p_stroke := GREEN, p_width := 2, p_style := ''dashed''\<rparr>),
              words (tx1 + 125) 250 (ascii ''RequestVote to all peers'') 13 GREEN,
              words 760 400
                (ascii ''coord-1 nominates first, every peer grants '' @ em_dash @
                  ascii '' wins on the FIRST ballot'') 16 GREEN]) @
         [line x0 y_axis x1 y_axis (solid\<lparr>p_stroke := INK, p_width := 2\<rparr>)] @
         map (\<lambda>t. words (x0 + of_nat t * scale) (y_axis + 8) (ascii (decimal t @
           '' ms'')) 12 GRAY)
           [0, 150, 300, 450, 600] @
         labeled_node 750 570 900 56 (ascii ''Raft / ECHO: random 150'' @ en_dash @
           ascii ''300 ms timeouts'') RED_BG RED 15
           (Some (ascii ''simultaneous candidacies '' @ to_right @ ascii '' split votes '' @
             to_right @ ascii '' re-election rounds'')))"


section \<open>Leader hand-off\<close>

definition handoff_scene :: "sketch list" where
  "handoff_scene =
     [words 750 16 (ascii ''Leader handoff: succession without an election storm'') 26 INK] @
     concat (map (\<lambda>(name, x).
         labeled_node x 110 220 52 name GRAY_BG GRAY 15 None @
         [line x 136 x 560 (hairline\<lparr>p_stroke := GRAY, p_style := ''dashed''\<rparr>)])
       [((ascii ''old leader''), 260), ((ascii ''follower A '' @ em_dash @
         ascii '' 90 %''), 700), ((ascii ''follower B '' @ em_dash @ ascii '' 70 %''), 1140)]) @
     [words 150 170 (ascii ''battery'' @ newline @ ascii ''19 %'') 14 RED,
      words 260 170 (ascii ''< T_HANDOFF (20 %)'') 13 RED,
      arrow 260 250 700 250 (solid\<lparr>p_stroke := PURPLE, p_width := 2\<rparr>),
      words 480 222 (ascii ''1. LeadershipHandoff'') 14 PURPLE,
      words 480 240 (ascii ''(1 directed message)'') 12 PURPLE,
      words 700 292 (ascii ''2. A starts election immediately'') 13 GREEN,
      arrow 700 340 260 380 (solid\<lparr>p_stroke := GREEN, p_width := 1\<rparr>),
      arrow 700 340 1140 380 (solid\<lparr>p_stroke := GREEN, p_width := 1\<rparr>),
      words 480 350 (ascii ''3. RequestVote'') 12 GREEN,
      words 920 350 (ascii ''3. RequestVote'') 12 GREEN] @
     labeled_node 700 470 260 56 (ascii ''A = LEADER'') GREEN_BG GREEN 15 None @
     [words 260 470 (ascii ''steps down to FOLLOWER'') 12 GRAY] @
     labeled_node 380 620 560 56 (ascii ''echoD: no availability gap'') GREEN_BG GREEN 15
       (Some (ascii ''leadership moves in one message round-trip'')) @
     labeled_node 1060 620 560 56 (ascii ''Raft / ECHO: 150'' @ en_dash @
       ascii ''600 ms gap'') RED_BG RED 15
       (Some (ascii ''timeout wait + full randomized re-election''))"


section \<open>Batching window\<close>

definition batch_events :: "(string \<times> nat) list" where
  "batch_events = [(''e1'', 5), (''e2'', 12), (''e3'', 28), (''e4'', 41), (''e5'', 47)]"

definition batching_scene :: "sketch list" where
  "batching_scene =
     (let x0 = 250; x1 = 1150; scale = 14; wx0 = x0 + 5 * scale; wx1 = x0 + 55 * scale
      in [words 750 16 (ascii ''Batched event-driven consensus'') 26 INK,
          words 110 110 (ascii ''ECHO'') 20 ORANGE,
          line x0 170 x1 170 (hairline\<lparr>p_stroke := GRAY\<rparr>)] @
         concat (map (\<lambda>(name, t). let ex = x0 + of_nat t * scale in
             [circle ex 170 12 (solid\<lparr>p_bg := ORANGE_BG, p_stroke := ORANGE\<rparr>),
              words ex 146 (ascii name) 12 ORANGE] @
             labeled_node ex 232 80 36 (ascii ''1 round'') RED_BG RED 12 None @
             [arrow ex 176 ex 212 (solid\<lparr>p_stroke := RED, p_width := 1\<rparr>)]) batch_events) @
         [words 1320 140 (ascii ''5 events'') 16 RED,
          words 1320 166 (ascii ''= 5 rounds'') 16 RED,
          words 1320 192 (approx_sign @ ascii '' 50 msgs'') 16 RED,
          words 110 360 (ascii ''echoD'') 20 GREEN,
          line x0 420 x1 420 (hairline\<lparr>p_stroke := GRAY\<rparr>),
          box wx0 396 (wx1 - wx0) 48
            (solid\<lparr>p_bg := GREEN_BG, p_stroke := GREEN, p_width := 1, p_style := ''dashed''\<rparr>),
          words ((wx0 + wx1) / 2) 448 (ascii ''50 ms batch window'') 12 GREEN] @
         map (\<lambda>(name, t). circle (x0 + of_nat t * scale) 420 12
             (solid\<lparr>p_bg := GREEN_BG, p_stroke := GREEN\<rparr>)) batch_events @
         labeled_node 1240 420 240 48 (ascii ''LogEntry {batch: e1'' @ dots @
           ascii ''e5}'') GREEN_BG GREEN 14 None @
         [arrow wx1 420 1115 420 (solid\<lparr>p_stroke := GREEN, p_width := 2\<rparr>),
          words 1320 460 (ascii ''= 1 round'') 16 GREEN,
          words 1320 486 (approx_sign @ ascii '' 10 msgs'') 16 GREEN,
          words 750 540
            (ascii ''full batch ('' @ at_least @
              ascii '' MAX_BATCH_SIZE) flushes immediately '' @ em_dash @
              ascii '' no added latency under load'') 14 GRAY])"


section \<open>Partition and reconciliation\<close>

definition partition_scene :: "sketch list" where
  "partition_scene =
     [words 750 16 (ascii ''Partition-tolerant provisional consensus'') 26 INK] @
     concat (map (\<lambda>(title, px).
         [box px 70 460 560 panel_pen, words (px + 230) 88 title 20 INK])
       [((ascii ''1 '' @ mid_dot @ ascii '' normal''), 40), ((ascii ''2 '' @ mid_dot @
         ascii '' partition''), 520), ((ascii ''3 '' @ mid_dot @
         ascii '' heal + reconcile''), 1000)]) @
     [arrow 500 350 520 350 (solid\<lparr>p_stroke := GRAY, p_width := 2\<rparr>),
      arrow 980 350 1000 350 (solid\<lparr>p_stroke := GRAY, p_width := 2\<rparr>)] @
     (let px = 40;
          pts = [(px + 130, 200), (px + 330, 200), (px + 230, 290),
            (px + 150, 390), (px + 310, 390)]
      in concat (map (\<lambda>(i, x, y).
             circle x y 44 (solid\<lparr>p_bg := (if i = 2 then GREEN_BG else BLUE_BG),
               p_stroke := (if i = 2 then GREEN else BLUE)\<rparr>) #
             map (\<lambda>j. line x y (fst (pts ! j)) (snd (pts ! j)) (hairline\<lparr>p_stroke := GRAY\<rparr>)) [0..<i])
           (List.enumerate 0 pts)) @
         [words (px + 230) 330 (ascii ''leader'') 11 GREEN,
          words (px + 230) 460 (ascii ''one leader, one log'' @ newline @
            ascii ''commit index = 42'') 15 INK]) @
     (let px = 520;
          left = [(px + 90, 200), (px + 170, 300), (px + 90, 400)];
          right = [(px + 370, 250), (px + 300, 390)]
      in [line (px + 230) 120 (px + 230) 460
            (solid\<lparr>p_stroke := RED, p_width := 2, p_style := ''dashed''\<rparr>)] @
         map (\<lambda>(x, y). circle x y 44 (solid\<lparr>p_bg := PURPLE_BG, p_stroke := PURPLE\<rparr>)) left @
         map (\<lambda>(x, y). circle x y 44 (solid\<lparr>p_bg := ORANGE_BG, p_stroke := ORANGE\<rparr>)) right @
         concat (map (\<lambda>group. map (\<lambda>i. line (fst (group ! i)) (snd (group ! i))
               (fst (group ! 0)) (snd (group ! 0)) (hairline\<lparr>p_stroke := GRAY\<rparr>)) [1..<length group])
           [left, right]) @
         [words (px + 120) 130 (ascii ''LOCAL_LEADER'') 12 PURPLE,
          words (px + 340) 160 (ascii ''LOCAL_LEADER'') 12 ORANGE,
          words (px + 120) 470 (ascii ''provisional entries'' @ newline @
            ascii ''(epoch = 1) '' @ em_dash @ ascii '' still serving'') 13 PURPLE,
          words (px + 345) 470 (ascii ''provisional entries'' @ newline @
            ascii ''(epoch = 1)'') 13 ORANGE]) @
     (let px = 1000
      in labeled_node (px + 230) 190 340 60 (ascii ''winner: highest commit index'')
           GREEN_BG GREEN 15 None @
         labeled_node (px + 230) 320 340 60 (ascii ''loser: truncate provisional log'')
           RED_BG RED 15 None @
         [arrow (px + 230) 230 (px + 230) 288 (solid\<lparr>p_stroke := GRAY, p_width := 1\<rparr>)] @
         labeled_node (px + 230) 450 340 60 (ascii ''replay as ONE batch entry'')
           PURPLE_BG PURPLE 15 None @
         [arrow (px + 230) 352 (px + 230) 418 (solid\<lparr>p_stroke := GRAY, p_width := 1\<rparr>),
          words (px + 230) 520
            (ascii ''Raft: minority side simply halts '' @ em_dash @
              ascii '' no quorum, 0 % availability'') 13 RED])"

end
