(* ===== verification/DiagramFiles.thy ===== *)
theory DiagramFiles
  imports DiagramScenes Tables
begin

text \<open>
  The writers and \<open>main\<close> of \<open>scripts/generate_diagrams.py\<close>. The kroki service is a
  parameter: what it answers to the scene it is sent, or nothing when the request fails.
  \<open>main\<close> calls each builder twice, once for the file and once to print how many elements it
  has; the second call takes its numbers from the same counter.
\<close>

section \<open>Files\<close>

datatype drawing = Scene "element list" | Svg string

datatype notice = WroteScene string nat | WroteSvg string | SkippedSvg string | Done

record gallery =
  g_count :: nat
  g_files :: "(string, drawing) dict"
  g_said :: "notice list"

definition DIAGRAMS :: "(string \<times> sketch list) list" where
  "DIAGRAMS = [(''architecture'', architecture), (''message-flow'', message_flow),
     (''election'', election_scene), (''handoff'', handoff_scene),
     (''batching'', batching_scene), (''partition'', partition_scene)]"

definition write_scene ::
    "string \<Rightarrow> element list \<Rightarrow> string \<Rightarrow> (string, drawing) dict \<Rightarrow> string \<times> (string, drawing) dict" where
  "write_scene name els out_dir fs =
     (let path = join_path out_dir (name @ ''.excalidraw'')
      in (path, dput path (Scene els) fs))"

text \<open>\<open>svg.startswith(b"<svg")\<close> or \<open>b"<svg" in svg[:200]\<close>\<close>

fun occurs :: "string \<Rightarrow> string \<Rightarrow> bool" where
  "occurs pat [] = (pat = [])"
| "occurs pat (c # cs) = (take (length pat) (c # cs) = pat \<or> occurs pat cs)"

definition looks_svg :: "string \<Rightarrow> bool" where
  "looks_svg svg \<longleftrightarrow> take 4 svg = ''<svg'' \<or> occurs ''<svg'' (take 200 svg)"

definition render_svg ::
    "(string \<Rightarrow> drawing \<Rightarrow> string option) \<Rightarrow> string \<Rightarrow> string \<Rightarrow> (string, drawing) dict \<Rightarrow>
     bool \<times> (string, drawing) dict" where
  "render_svg kroki scene_path svg_path fs =
     (case dget fs scene_path of
        None \<Rightarrow> (False, fs)
      | Some data \<Rightarrow>
          (case kroki scene_path data of
             None \<Rightarrow> (False, fs)
           | Some svg \<Rightarrow> if looks_svg svg then (True, dput svg_path (Svg svg) fs) else (False, fs)))"

definition diagram_turn ::
    "bool \<Rightarrow> (string \<Rightarrow> drawing \<Rightarrow> string option) \<Rightarrow> string \<Rightarrow> string \<times> sketch list \<Rightarrow> gallery \<Rightarrow> gallery" where
  "diagram_turn no_svg kroki out_dir d g =
     (let (name, builder) = d;
          (els, k) = run_state (draw builder) (g_count g);
          (scene_path, fs) = write_scene name els out_dir (g_files g);
          (again, k) = run_state (draw builder) k;
          said = g_said g @ [WroteScene scene_path (length again)]
      in if no_svg then \<lparr>g_count = k, g_files = fs, g_said = said\<rparr>
         else
          (let svg_path = join_path out_dir (name @ ''.svg'');
               (ok, fs) = render_svg kroki scene_path svg_path fs
           in \<lparr>g_count = k, g_files = fs,
                g_said = said @ [if ok then WroteSvg svg_path else SkippedSvg name]\<rparr>))"

definition diagrams_main ::
    "bool \<Rightarrow> (string \<Rightarrow> drawing \<Rightarrow> string option) \<Rightarrow> string \<Rightarrow> gallery" where
  "diagrams_main no_svg kroki out_dir =
     (let g = fold (diagram_turn no_svg kroki out_dir) DIAGRAMS
                \<lparr>g_count = 1, g_files = [], g_said = []\<rparr>
      in g\<lparr>g_said := g_said g @ [Done]\<rparr>)"


section \<open>Identifiers\<close>

text \<open>A decimal number is read back.\<close>

definition undecimal :: "string \<Rightarrow> nat" where
  "undecimal s = foldl (\<lambda>a c. 10 * a + (of_char c - 48)) 0 s"

lemma undecimal_decimal: "undecimal (decimal n) = n"
proof (induction n rule: decimal.induct)
  case (1 n)
  have d: "of_char (digit m) = 48 + m" if "m < 10" for m :: nat
    using that by (simp add: digit_def take_bit_eq_mod)
  show ?case
  proof (cases "n < 10")
    case True
    then show ?thesis by (subst decimal.simps) (simp add: undecimal_def d)
  next
    case False
    have "undecimal (decimal (n div 10) @ [digit (n mod 10)]) = 10 * (n div 10) + n mod 10"
      using 1 [OF False] by (simp add: undecimal_def d)
    with False show ?thesis by (subst decimal.simps) simp
  qed
qed

lemma decimal_inject [simp]: "decimal m = decimal n \<longleftrightarrow> m = n"
  by (metis undecimal_decimal)

text \<open>A sketch takes two numbers and makes an element named after the second.\<close>

definition numbered_sketch :: "sketch \<Rightarrow> bool" where
  "numbered_sketch s \<longleftrightarrow>
     (\<forall>n. snd (run_state s n) = n + 2 \<and> el_id (fst (run_state s n)) = ''el'' @ decimal (n + 1))"

named_theorems sketch_intros

lemmas run_defs = base_element_def nid_def next_count_def

lemma numbered_box [sketch_intros]: "numbered_sketch (box x y w h p)"
  by (simp add: numbered_sketch_def box_def run_defs)

lemma numbered_circle [sketch_intros]: "numbered_sketch (circle x y d p)"
  by (simp add: numbered_sketch_def circle_def run_defs)

lemma numbered_text [sketch_intros]: "numbered_sketch (text_el x y s f)"
  by (simp add: numbered_sketch_def text_el_def run_defs Let_def)

lemma numbered_words [sketch_intros]: "numbered_sketch (words x y s sz c)"
  unfolding words_def by (rule numbered_text)

lemma numbered_arrow [sketch_intros]:
  "numbered_sketch (arrow x1 y1 x2 y2 p)" "numbered_sketch (line x1 y1 x2 y2 p)"
  by (simp_all add: numbered_sketch_def arrow_def line_def arrow_el_def run_defs)

abbreviation numbered_scene :: "sketch list \<Rightarrow> bool" where
  "numbered_scene \<equiv> list_all numbered_sketch"

lemma scene_labeled [sketch_intros]: "numbered_scene (labeled_node cx cy w h l bg st sz sub)"
  by (simp add: labeled_node_def sketch_intros split: option.split list.split)

lemma scene_concat [sketch_intros]:
  "(\<And>x. numbered_scene (f x)) \<Longrightarrow> numbered_scene (concat (map f xs))"
  by (induction xs) simp_all

lemma scene_map [sketch_intros]: "(\<And>x. numbered_sketch (f x)) \<Longrightarrow> numbered_scene (map f xs)"
  by (induction xs) simp_all

lemma scene_rows [sketch_intros]: "numbered_scene (coord_row xs)"
  unfolding coord_row_def
  by (rule scene_concat) (simp add: sketch_intros split: prod.split)

lemma scenes_numbered: "list_all (\<lambda>d. numbered_scene (snd d)) DIAGRAMS"
  by (simp add: DIAGRAMS_def architecture_def message_flow_def election_scene_def handoff_scene_def
      batching_scene_def partition_scene_def Let_def sketch_intros split: prod.split)


lemma run_draw:
  "numbered_scene ss \<Longrightarrow> snd (run_state (draw ss) n) = n + 2 * length ss \<and>
   map el_id (fst (run_state (draw ss) n)) =
     map (\<lambda>j. ''el'' @ decimal (n + 1 + 2 * j)) [0..<length ss]"
proof (induction ss arbitrary: n)
  case Nil
  then show ?case by (simp add: draw_def)
next
  case (Cons s ss)
  have IH: "snd (run_state (draw ss) (n + 2)) = n + 2 + 2 * length ss"
    "map el_id (fst (run_state (draw ss) (n + 2))) =
       map (\<lambda>j. ''el'' @ decimal (n + 2 + 1 + 2 * j)) [0..<length ss]"
    using Cons by simp_all
  have s: "snd (run_state s n) = n + 2" "el_id (fst (run_state s n)) = ''el'' @ decimal (n + 1)"
    using Cons.prems by (simp_all add: numbered_sketch_def)
  have "run_state (draw (s # ss)) n =
      (fst (run_state s n) # fst (run_state (draw ss) (n + 2)), snd (run_state (draw ss) (n + 2)))"
    using s(1) by (simp add: draw_def split_beta)
  then show ?case
    using IH s(2) by (simp add: upt_conv_Cons map_Suc_upt [symmetric] comp_def del: upt_Suc)
qed

lemma draw_length: "numbered_scene ss \<Longrightarrow> length (fst (run_state (draw ss) n)) = length ss"
  using run_draw [of ss n] by (metis length_map length_upt minus_nat.diff_0)


section \<open>What a run writes\<close>

text \<open>The scenes as drawn: each takes its numbers twice, the second time to be counted.\<close>

fun drawn :: "(string \<times> sketch list) list \<Rightarrow> nat \<Rightarrow> (string \<times> element list) list" where
  "drawn [] n = []"
| "drawn ((name, ss) # ds) n =
     (name, fst (run_state (draw ss) n)) # drawn ds (n + 4 * length ss)"

definition scene_path :: "string \<Rightarrow> string \<Rightarrow> string" where
  "scene_path dir name = join_path dir (name @ ''.excalidraw'')"

definition svg_path :: "string \<Rightarrow> string \<Rightarrow> string" where
  "svg_path dir name = join_path dir (name @ ''.svg'')"

text \<open>The drawing the service returns for a scene, if it returns one.\<close>

definition rendered ::
    "bool \<Rightarrow> (string \<Rightarrow> drawing \<Rightarrow> string option) \<Rightarrow> string \<Rightarrow> string \<times> element list \<Rightarrow> string option" where
  "rendered no_svg kroki dir x =
     (if no_svg then None
      else case kroki (scene_path dir (fst x)) (Scene (snd x)) of
        None \<Rightarrow> None | Some svg \<Rightarrow> if looks_svg svg then Some svg else None)"

definition files_of ::
    "bool \<Rightarrow> (string \<Rightarrow> drawing \<Rightarrow> string option) \<Rightarrow> string \<Rightarrow> string \<times> element list \<Rightarrow>
     (string, drawing) dict" where
  "files_of no_svg kroki dir x =
     (scene_path dir (fst x), Scene (snd x)) #
     (case rendered no_svg kroki dir x of
        None \<Rightarrow> [] | Some svg \<Rightarrow> [(svg_path dir (fst x), Svg svg)])"

definition notices_of ::
    "bool \<Rightarrow> (string \<Rightarrow> drawing \<Rightarrow> string option) \<Rightarrow> string \<Rightarrow> string \<times> element list \<Rightarrow> notice list" where
  "notices_of no_svg kroki dir x =
     WroteScene (scene_path dir (fst x)) (length (snd x)) #
     (if no_svg then []
      else case rendered no_svg kroki dir x of
        None \<Rightarrow> [SkippedSvg (fst x)] | Some _ \<Rightarrow> [WroteSvg (svg_path dir (fst x))])"

lemma join_path_inject [simp]: "join_path dir a = join_path dir b \<longleftrightarrow> a = b"
  by (simp add: join_path_def)

lemma path_facts [simp]:
  "scene_path dir a = scene_path dir b \<longleftrightarrow> a = b" "svg_path dir a = svg_path dir b \<longleftrightarrow> a = b"
  "scene_path dir a \<noteq> svg_path dir b" "svg_path dir b \<noteq> scene_path dir a"
proof -
  have "a @ ''.excalidraw'' \<noteq> b @ ''.svg''" for a b
  proof
    assume "a @ ''.excalidraw'' = b @ ''.svg''"
    then have "last (a @ ''.excalidraw'') = last (b @ ''.svg'')" by metis
    then show False by simp
  qed
  then show "scene_path dir a = scene_path dir b \<longleftrightarrow> a = b"
    "svg_path dir a = svg_path dir b \<longleftrightarrow> a = b"
    "scene_path dir a \<noteq> svg_path dir b" "svg_path dir b \<noteq> scene_path dir a"
    by (simp_all add: scene_path_def svg_path_def)
qed

lemma dput_new: "k \<notin> set (keys d) \<Longrightarrow> dput k v d = d @ [(k, v)]"
  by (induction d) (auto simp: keys_def)

text \<open>One turn appends the files and notices of its scene.\<close>

lemma diagram_turn_files:
  assumes "numbered_scene ss"
    and "scene_path dir name \<notin> set (keys (g_files g))" "svg_path dir name \<notin> set (keys (g_files g))"
  shows "diagram_turn no_svg kroki dir (name, ss) g =
    (let x = (name, fst (run_state (draw ss) (g_count g)))
     in \<lparr>g_count = g_count g + 4 * length ss,
         g_files = g_files g @ files_of no_svg kroki dir x,
         g_said = g_said g @ notices_of no_svg kroki dir x\<rparr>)"
proof -
  obtain els where e: "run_state (draw ss) (g_count g) = (els, g_count g + 2 * length ss)"
    using run_draw [OF assms(1), of "g_count g"] by (metis prod.collapse)
  obtain again where a: "run_state (draw ss) (g_count g + 2 * length ss) =
      (again, g_count g + 2 * length ss + 2 * length ss)"
    using run_draw [OF assms(1), of "g_count g + 2 * length ss"] by (metis prod.collapse)
  have len: "length els = length ss" "length again = length ss"
    using draw_length [OF assms(1)] e a by (metis fst_conv)+
  let ?fs = "g_files g @ [(scene_path dir name, Scene els)]"
  have w: "write_scene name els dir (g_files g) = (scene_path dir name, ?fs)"
    using dput_new [OF assms(2)] by (simp add: write_scene_def scene_path_def Let_def)
  have "dget (g_files g) (scene_path dir name) = None"
    using assms(2) by (simp add: keys_def map_of_eq_None_iff)
  then have "dget ?fs (scene_path dir name) = Some (Scene els)"
    by (simp add: map_add_def)
  moreover have "dput (svg_path dir name) (Svg svg) ?fs = ?fs @ [(svg_path dir name, Svg svg)]" for svg
    using assms(3) by (intro dput_new) (simp add: keys_def)
  ultimately have r: "render_svg kroki (scene_path dir name) (svg_path dir name) ?fs =
      (case rendered False kroki dir (name, els) of
         None \<Rightarrow> (False, ?fs) | Some svg \<Rightarrow> (True, ?fs @ [(svg_path dir name, Svg svg)]))"
    by (simp add: render_svg_def rendered_def split: option.split)
  have n: "rendered True kroki dir x = None" for x by (simp add: rendered_def)
  show ?thesis
    using r len
    by (cases no_svg) (auto simp: diagram_turn_def e a w svg_path_def [symmetric] files_of_def
        notices_of_def n Let_def split: option.split)
qed

text \<open>So a run appends those of each scene.\<close>

lemma diagram_turns_files:
  assumes "list_all (\<lambda>d. numbered_scene (snd d)) ds" and "distinct (map fst ds)"
    and "\<forall>name \<in> set (map fst ds). scene_path dir name \<notin> set (keys (g_files g)) \<and>
      svg_path dir name \<notin> set (keys (g_files g))"
  shows "g_files (fold (diagram_turn no_svg kroki dir) ds g) =
      g_files g @ concat (map (files_of no_svg kroki dir) (drawn ds (g_count g))) \<and>
    g_said (fold (diagram_turn no_svg kroki dir) ds g) =
      g_said g @ concat (map (notices_of no_svg kroki dir) (drawn ds (g_count g)))"
  using assms
proof (induction ds arbitrary: g)
  case Nil
  then show ?case by simp
next
  case (Cons d ds)
  obtain name ss where d: "d = (name, ss)" by (cases d)
  let ?x = "(name, fst (run_state (draw ss) (g_count g)))"
  let ?g = "diagram_turn no_svg kroki dir d g"
  have g: "?g = \<lparr>g_count = g_count g + 4 * length ss,
      g_files = g_files g @ files_of no_svg kroki dir ?x,
      g_said = g_said g @ notices_of no_svg kroki dir ?x\<rparr>"
    using Cons.prems diagram_turn_files [of ss dir name g no_svg kroki]
    by (simp add: d Let_def)
  have keys: "set (keys (g_files ?g)) =
      set (keys (g_files g)) \<union> set (keys (files_of no_svg kroki dir ?x))"
    by (simp add: g keys_def)
  have here: "p = scene_path dir name \<or> p = svg_path dir name"
    if "p \<in> set (keys (files_of no_svg kroki dir ?x))" for p
    using that by (auto simp: files_of_def keys_def split: option.splits)
  have "scene_path dir n \<notin> set (keys (g_files ?g)) \<and> svg_path dir n \<notin> set (keys (g_files ?g))"
    if "n \<in> set (map fst ds)" for n
  proof -
    have "n \<noteq> name" using that Cons.prems(2) by (auto simp: d)
    then show ?thesis
      using here [of "scene_path dir n"] here [of "svg_path dir n"] Cons.prems(3) that
      unfolding keys by auto
  qed
  then show ?case
    using Cons.IH [of ?g] Cons.prems(1,2) by (simp add: g [unfolded d] d)
qed

text \<open>All identifiers of a run are different.\<close>

lemma drawn_ids:
  "list_all (\<lambda>d. numbered_scene (snd d)) ds \<Longrightarrow>
   distinct (concat (map (\<lambda>x. map el_id (snd x)) (drawn ds n))) \<and>
   (\<forall>i \<in> set (concat (map (\<lambda>x. map el_id (snd x)) (drawn ds n))).
      \<exists>m \<ge> n. i = ''el'' @ decimal m)"
proof (induction ds arbitrary: n)
  case Nil
  then show ?case by simp
next
  case (Cons d ds)
  obtain name ss where d: "d = (name, ss)" by (cases d)
  have ids: "map el_id (fst (run_state (draw ss) n)) =
      map (\<lambda>j. ''el'' @ decimal (n + 1 + 2 * j)) [0..<length ss]"
    using Cons.prems run_draw by (simp add: d)
  have IH: "distinct (concat (map (\<lambda>x. map el_id (snd x)) (drawn ds (n + 4 * length ss))))"
    "\<forall>i \<in> set (concat (map (\<lambda>x. map el_id (snd x)) (drawn ds (n + 4 * length ss)))).
      \<exists>m \<ge> n + 4 * length ss. i = ''el'' @ decimal m"
    using Cons.IH [of "n + 4 * length ss"] Cons.prems by simp_all
  let ?here = "map el_id (fst (run_state (draw ss) n))"
  have here: "\<forall>i \<in> set ?here. \<exists>m. n \<le> m \<and> m < n + 4 * length ss \<and> i = ''el'' @ decimal m"
  proof
    fix i
    assume "i \<in> set ?here"
    then obtain j where "j < length ss" "i = ''el'' @ decimal (n + 1 + 2 * j)"
      unfolding ids by auto
    then show "\<exists>m. n \<le> m \<and> m < n + 4 * length ss \<and> i = ''el'' @ decimal m"
      by (intro exI [of _ "n + 1 + 2 * j"]) simp
  qed
  have dis: "distinct ?here" unfolding ids by (simp add: distinct_map inj_on_def)
  have "set ?here \<inter>
      set (concat (map (\<lambda>x. map el_id (snd x)) (drawn ds (n + 4 * length ss)))) = {}"
  proof (rule ccontr)
    assume "\<not> ?thesis"
    then obtain i where i: "i \<in> set ?here"
      "i \<in> set (concat (map (\<lambda>x. map el_id (snd x)) (drawn ds (n + 4 * length ss))))"
      by blast
    obtain m where "m < n + 4 * length ss" "i = ''el'' @ decimal m" using here i(1) by blast
    moreover obtain m' where "n + 4 * length ss \<le> m'" "i = ''el'' @ decimal m'"
      using IH(2) i(2) by blast
    ultimately show False by simp
  qed
  moreover have "\<forall>i \<in> set (concat (map (\<lambda>x. map el_id (snd x)) (drawn ds (n + 4 * length ss)))).
      \<exists>m \<ge> n. i = ''el'' @ decimal m"
    using IH(2) by (meson add_leE)
  moreover have "\<forall>i \<in> set ?here. \<exists>m \<ge> n. i = ''el'' @ decimal m" using here by blast
  ultimately show ?case using dis IH(1) by (simp add: d ball_Un)
qed

lemma drawn_lengths:
  "list_all (\<lambda>d. numbered_scene (snd d)) ds \<Longrightarrow>
   map (\<lambda>(name, els). (name, length els)) (drawn ds n) = map (\<lambda>(name, ss). (name, length ss)) ds"
  by (induction ds n rule: drawn.induct) (simp_all add: draw_length)

text \<open>C37. A run of the diagram generator writes one scene file per diagram, in order, and next to
  it an SVG file exactly when rendering is on and the service answered with one. The number of
  elements it prints, of a second drawing, is that of the file, and all the elements of all
  the files have different identifiers, although the second drawing uses up numbers too.\<close>

theorem diagrams_written:
  "\<exists>scenes. map (\<lambda>(name, els). (name, length els)) scenes =
       map (\<lambda>(name, ss). (name, length ss)) DIAGRAMS \<and>
     distinct (concat (map (\<lambda>x. map el_id (snd x)) scenes)) \<and>
     g_files (diagrams_main no_svg kroki dir) =
       concat (map (files_of no_svg kroki dir) scenes) \<and>
     g_said (diagrams_main no_svg kroki dir) =
       concat (map (notices_of no_svg kroki dir) scenes) @ [Done]"
proof (intro exI conjI)
  let ?scenes = "drawn DIAGRAMS 1"
  show "map (\<lambda>(name, els). (name, length els)) ?scenes =
      map (\<lambda>(name, ss). (name, length ss)) DIAGRAMS"
    by (rule drawn_lengths [OF scenes_numbered])
  show "distinct (concat (map (\<lambda>x. map el_id (snd x)) ?scenes))"
    by (rule conjunct1 [OF drawn_ids [OF scenes_numbered]])
  have "distinct (map fst DIAGRAMS)" by (simp add: DIAGRAMS_def)
  then show "g_files (diagrams_main no_svg kroki dir) =
      concat (map (files_of no_svg kroki dir) ?scenes)"
    "g_said (diagrams_main no_svg kroki dir) =
      concat (map (notices_of no_svg kroki dir) ?scenes) @ [Done]"
    using diagram_turns_files [OF scenes_numbered, of dir
        "\<lparr>g_count = 1, g_files = [], g_said = []\<rparr>" no_svg kroki]
    by (simp_all add: diagrams_main_def Let_def keys_def)
qed

end
