(* ===== verification/Spec2Isabelle.thy ===== *)
theory Spec2Isabelle
  imports NodeLaws Safety LogMatching Lone LeaderCommit Timing Progress HandBack SimElected SimProvisional SimCollector
    SimWorkload Observed LeafMain HwRun NodeMain DiagramFiles
begin

text \<open>
  A model of echod: energy-aware consensus for small clusters, with its three protocols
  (\<open>raft\<close>, \<open>echo\<close>, \<open>echod\<close>) implemented twice, once as an MQTT process (\<open>src/rpi\<close>) and once
  as a simulation in one event loop (\<open>src/simulation\<close>).

  \<^bold>\<open>The coordinator process\<close> (\<open>rpi/coordinator/echo_node.py\<close>). One record field per attribute
  of \<open>EchoCoordinator\<close>; one definition per method; a method that may raise returns a sum.
  \<^item> \<open>Coordinator\<close>: state, counted messaging, timers, log helpers, roles, status. \<open>Battery\<close>:
    \<open>battery.py\<close>. \<open>RpiConfig\<close>, \<open>Wire\<close>, \<open>Json\<close>: constants, payloads, commands.
  \<^item> \<open>Election\<close>, \<open>Replication\<close>, \<open>Triggers\<close>: the handlers of votes, of log entries, of readings,
    batches, pending and reconciled commands and hand-offs.
  \<^item> \<open>MainLoop\<close>: partition and demo control, dispatch, the inbox, an iteration of the loop.
  \<^item> \<open>Cluster\<close>: several such processes; an action delivers any message ever sent to any inbox,
    runs a part of a node's loop, or stops a node, so loss, duplication, delay and reordering
    are all included.
  \<^item> \<open>Codec\<close>: the JSON dicts behind the payloads, as the methods build and the handlers read
    them, and that every payload a coordinator sends crosses \<open>Transport\<close> unchanged. The handlers
    work on the read payloads, so that a key that is missing raises when a message is read.
  \<^item> \<open>NodeMain\<close>: the options and \<open>main\<close>, up to the start of the loop.

  \<^bold>\<open>Around the coordinator.\<close> \<open>Transport\<close>: topics, envelopes and callbacks of \<open>transport.py\<close>.
  \<open>MockLeaf\<close>, \<open>LeafMain\<close>: leaves and program of \<open>mock_leaf.py\<close>. \<open>PartitionCtl\<close>:
  \<open>partition_ctl.py\<close>. \<open>HwMetrics\<close>, \<open>HwRun\<close>: collector and program of \<open>metrics_collector.py\<close>.
  \<open>Dashboard\<close>: \<open>dashboard/app.py\<close>. \<open>Producers\<close>: what leaves, dashboard and partition command
  publish is read by a coordinator with every key its handlers look up. \<open>Observed\<close>: what nodes
  publish about themselves is what collector and dashboard know of them.

  \<^bold>\<open>The simulation.\<close> \<open>SimConfig\<close>, \<open>SimMessages\<close>, \<open>SimLog\<close>, \<open>SimMetrics\<close> are the modules of the
  same names. \<open>SimNode\<close> holds the node record, the cluster record and the message bus: all
  nodes share one cluster object, and sending drains batteries and may turn a node into an
  observer in the middle of a handler, so every method maps clusters to clusters.
  \<open>SimCoordinator\<close> and \<open>SimElection\<close> are the coordinator classes with their overrides,
  \<open>SimLeaf\<close> the leaves, \<open>SimCluster\<close> dispatch, event loop, failures, partitions and builders,
  \<open>SimRun\<close> the workload and the scenario driver of \<open>main.py\<close>, \<open>SimReport\<close> the files it leaves
  (\<open>Tables\<close>: CSV tables, documents and figures as values, shared with \<open>HwRun\<close>). A run is any sequence of turns of
  the node loops, the housekeeping loop and the workload driver.

  \<^bold>\<open>The diagram generator\<close> (\<open>scripts/generate_diagrams.py\<close>). \<open>Diagrams\<close>: the element helpers in a
  state monad over the module's counter. \<open>DiagramScenes\<close>: the six scenes, call by call; their
  texts are lists of code points. \<open>DiagramFiles\<close>: the writers and \<open>main\<close>.

  \<^bold>\<open>What the lemmas show.\<close>
  \<^item> \<open>ElectionSpec\<close> states leader election abstractly: members with terms, votes, tallies, and
    muted members, whose vote is forgotten; quorums that meet give one winner per term.
    \<open>Ballots\<close> and \<open>Simulation\<close> show that each handler of the process is a sequence of its steps,
    \<open>Safety\<close> that orderly runs have one leader per term, and \<open>Schedules\<close> what happens otherwise:
    a recharged or restarted voter votes twice, and the commit rule counts entries nobody has.
  \<^item> \<open>LogLaws\<close> and \<open>LogMatching\<close>: a node writes only in a term it leads and sends windows of its
    log, so in orderly runs logs with one term at one index are equal up to there. Commitment
    is not safe all the same. \<open>Lone\<close>: a coordinator without peers never leads.
  \<^item> \<open>FollowerLog\<close>: an accepted AppendEntries is a reference splice. \<open>LeaderCommit\<close>: the commit
    rule. \<open>Handlers\<close>, \<open>Frames\<close>, \<open>NodeLaws\<close>: contracts of one iteration (no exception, numbered
    logs, exact counters). \<open>Voting\<close>, \<open>Timing\<close>: single handlers and election deadlines.
    \<open>Progress\<close>: an election in which a majority is heard ends with a leader. \<open>Conserved\<close>: no
    sensor report is dropped silently, except by AppendEntries, which replaces the log's tail.
    \<open>HandBack\<close>: of that tail the provisional commands go back to the leader, which logs each
    command once.
  \<^item> \<open>SimFrame\<close>: a turn of a node stays on its side of a partition. \<open>SimSound\<close>, \<open>SimRuns\<close>:
    logs are numbered and batteries in range in every run of the simulated clusters.
    \<open>SimBallots\<close>, \<open>SimElected\<close>: these runs, too, refine \<open>ElectionSpec\<close>, although the energy hook
    can make a node an observer, which forgets its vote, between any two messages it sends.
    \<open>SimProvisional\<close>, \<open>SimCollector\<close>, \<open>SimWorkload\<close>: local leaders, metrics; the schedule, and when
    the generator does not return.
  \<^item> \<open>LeafMain\<close>: the traffic of a seed is the same in every run; leaf \<open>i\<close> has the seed
    \<open>seed * 1000 + i\<close> of the code, not the \<open>seed + i\<close> of the module's docstring. \<open>HwRun\<close>: the collector's files
    agree with its figures and have the simulation's columns, and it keeps its cadence.
    \<open>DiagramFiles\<close>: the elements of all diagrams of a run have different identifiers.
  \<^item> \<open>Prelude\<close>, \<open>PyStrings\<close>, \<open>Freshness\<close>: the shared Python values and the log comparison rule.

  \<^bold>\<open>Conventions.\<close> Python's integers are \<^typ>\<open>int\<close>, its dicts association lists in insertion
  order, its sets lists in insertion order where they are iterated. Its floats are rationals,
  and rounding is not modelled, except where the times of the workload generator are added up:
  there it decides how often the loop runs, and \<open>Doubles\<close> gives the sum rounded to 53 bits.
  Clock, random numbers and converter are tapes read one value at a
  time; \<open>random.Random(seed)\<close> is a tape of its own. Locks and the queue between the MQTT thread
  and the loop only make operations atomic, which every definition is. There is no fuel: the
  loops of the code are over lists, and the event loops are sequences of turns.

  \<^bold>\<open>Not modelled.\<close> Logging and printing, how \<open>argparse\<close> splits a command line (the options it
  has read are parameters, as are the environment variables), the text of CSV cells and JSON,
  matplotlib's drawing, Flask, Socket.IO, the MQTT client, asyncio's sleeping, the service that
  renders the diagrams, and the firmware in other languages.
\<close>

end
